(* ===== verification/Prelude.thy ===== *)
theory Prelude
  imports Main "HOL-Library.AList" "HOL-Library.Char_ord" "HOL-Library.List_Lexorder"
begin

text \<open>
  Shared vocabulary of the development: Python dictionaries as association lists in insertion
  order, the string operations of Python's \<open>str\<close> that the sources use (on the characters
  HOL's \<open>char\<close> has, code points 0 to 255), decimal printing and parsing of integers,
  and the list-of-successes reading of the backtracking regular expressions of \<open>re\<close>.
\<close>

named_theorems dict_simps \<open>lookups after updates of Python dictionaries\<close>

section \<open>Dictionaries\<close>

type_synonym ('k, 'v) dict = "('k \<times> 'v) list"

abbreviation dict_get :: "('k, 'v) dict \<Rightarrow> 'k \<Rightarrow> 'v option" where
  "dict_get \<equiv> map_of"

abbreviation dict_set :: "'k \<Rightarrow> 'v \<Rightarrow> ('k, 'v) dict \<Rightarrow> ('k, 'v) dict" where
  "dict_set \<equiv> AList.update"

abbreviation dict_pop :: "'k \<Rightarrow> ('k, 'v) dict \<Rightarrow> ('k, 'v) dict" where
  "dict_pop \<equiv> AList.delete"

definition dict_ok :: "('k, 'v) dict \<Rightarrow> bool" where
  "dict_ok d \<longleftrightarrow> distinct (map fst d)"

text \<open>
  The contract of a dictionary: lookups after an insertion and after a removal, and the
  invariant (no key twice) that both keep. It is provided by association lists below and
  used by every component that keeps a dictionary.
\<close>

locale dictionary =
  fixes lookup :: "'d \<Rightarrow> 'k \<Rightarrow> 'v option"
    and insert_at :: "'k \<Rightarrow> 'v \<Rightarrow> 'd \<Rightarrow> 'd"
    and remove_at :: "'k \<Rightarrow> 'd \<Rightarrow> 'd"
    and wf_dict :: "'d \<Rightarrow> bool"
  assumes lookup_insert: "lookup (insert_at k v d) k' = (if k' = k then Some v else lookup d k')"
    and lookup_remove: "lookup (remove_at k d) k' = (if k' = k then None else lookup d k')"
    and wf_insert: "wf_dict d \<Longrightarrow> wf_dict (insert_at k v d)"
    and wf_remove: "wf_dict d \<Longrightarrow> wf_dict (remove_at k d)"
begin

lemma lookup_insert_same: "lookup (insert_at k v d) k = Some v"
  by (simp add: lookup_insert)

lemma lookup_insert_twice: "lookup (insert_at k w (insert_at k v d)) = lookup (insert_at k w d)"
  by (rule ext) (simp add: lookup_insert)

lemma wf_insert_all: "wf_dict d \<Longrightarrow> wf_dict (foldr (\<lambda>(k, v). insert_at k v) kvs d)"
  by (induction kvs) (auto intro: wf_insert)

lemma lookup_insert_all:
  "lookup (foldr (\<lambda>(k, v). insert_at k v) kvs d) k =
     (case map_of kvs k of Some v \<Rightarrow> Some v | None \<Rightarrow> lookup d k)"
  by (induction kvs) (auto simp: lookup_insert)

end

lemma dict_get_set [dict_simps]:
  "dict_get (dict_set k v d) k' = (if k' = k then Some v else dict_get d k')"
  by (simp add: update_conv')

lemma dict_get_pop [dict_simps]:
  "dict_get (dict_pop k d) k' = (if k' = k then None else dict_get d k')"
  by (simp add: delete_conv')

lemma dict_ok_set [dict_simps, intro]: "dict_ok d \<Longrightarrow> dict_ok (dict_set k v d)"
  by (simp add: dict_ok_def distinct_update)

lemma dict_ok_pop [dict_simps, intro]: "dict_ok d \<Longrightarrow> dict_ok (dict_pop k d)"
  by (simp add: dict_ok_def distinct_delete)

interpretation assoc: dictionary
  "dict_get :: ('k, 'v) dict \<Rightarrow> 'k \<Rightarrow> 'v option" dict_set dict_pop dict_ok
  by unfold_locales (auto simp: dict_simps)

lemma dict_ok_Nil [simp]: "dict_ok []"
  by (simp add: dict_ok_def)

lemma keys_dict_set:
  "map fst (dict_set k v d) = (if k \<in> fst ` set d then map fst d else map fst d @ [k])"
  by (simp add: update_keys)

lemma dict_get_in: "dict_ok d \<Longrightarrow> dict_get d k = Some v \<longleftrightarrow> (k, v) \<in> set d"
  by (simp add: dict_ok_def)

lemma dict_get_None: "dict_get d k = None \<longleftrightarrow> k \<notin> fst ` set d"
  by (rule map_of_eq_None_iff)

text \<open>Mutating every value in place, as a loop over \<open>d.values()\<close> does.\<close>

definition dict_map :: "('k \<Rightarrow> 'v \<Rightarrow> 'w) \<Rightarrow> ('k, 'v) dict \<Rightarrow> ('k, 'w) dict" where
  "dict_map f d = map (\<lambda>(k, v). (k, f k v)) d"

lemma keys_dict_map [simp]: "map fst (dict_map f d) = map fst d"
  by (simp add: dict_map_def case_prod_unfold)

lemma dict_ok_dict_map [simp]: "dict_ok (dict_map f d) = dict_ok d"
  by (simp add: dict_ok_def)

lemma dict_get_dict_map [dict_simps]: "dict_get (dict_map f d) k = map_option (f k) (dict_get d k)"
  by (induction d) (auto simp: dict_map_def)

lemma set_dict_map: "set (dict_map f d) = (\<lambda>(k, v). (k, f k v)) ` set d"
  by (simp add: dict_map_def)

text \<open>Appending to the list kept under a key, as \<open>defaultdict(list)[k].append(x)\<close> does.\<close>

definition dict_append :: "'k \<Rightarrow> 'v \<Rightarrow> ('k, 'v list) dict \<Rightarrow> ('k, 'v list) dict" where
  "dict_append k x d = dict_set k ((case dict_get d k of None \<Rightarrow> [] | Some xs \<Rightarrow> xs) @ [x]) d"

section \<open>Lists\<close>

text \<open>First occurrences in order (Python's \<open>dict.fromkeys\<close>).\<close>

fun nub :: "'a list \<Rightarrow> 'a list" where
  "nub [] = []"
| "nub (x # xs) = x # filter (\<lambda>y. y \<noteq> x) (nub xs)"

lemma set_nub [simp]: "set (nub xs) = set xs"
  by (induction xs) auto

lemma distinct_nub [simp]: "distinct (nub xs)"
  by (induction xs) auto

text \<open>Grouping in first-occurrence order (one pass over a \<open>defaultdict(list)\<close>).\<close>

fun group_by :: "('a \<Rightarrow> 'k) \<Rightarrow> 'a list \<Rightarrow> ('k, 'a list) dict \<Rightarrow> ('k, 'a list) dict" where
  "group_by f [] d = d"
| "group_by f (x # xs) d = group_by f xs (dict_append (f x) x d)"

lemma dict_get_dict_append [dict_simps]:
  "dict_get (dict_append k x d) k' =
     (if k' = k then Some ((case dict_get d k of None \<Rightarrow> [] | Some xs \<Rightarrow> xs) @ [x]) else dict_get d k')"
  by (simp add: dict_append_def dict_simps)

lemma dict_get_group_by:
  "dict_get (group_by f xs d) k =
     (case dict_get d k of
        Some ys \<Rightarrow> Some (ys @ filter (\<lambda>x. f x = k) xs)
      | None \<Rightarrow> (if \<exists>x\<in>set xs. f x = k then Some (filter (\<lambda>x. f x = k) xs) else None))"
  by (induction xs arbitrary: d) (auto simp: dict_simps split: option.splits)

lemma dict_ok_group_by: "dict_ok d \<Longrightarrow> dict_ok (group_by f xs d)"
  by (induction xs arbitrary: d) (auto simp: dict_append_def)

section \<open>Strings\<close>

definition code_of :: "char \<Rightarrow> nat" where
  "code_of c = of_char c"

abbreviation LF :: char where "LF \<equiv> CHR 0x0A"
abbreviation CR :: char where "CR \<equiv> CHR 0x0D"
abbreviation TAB :: char where "TAB \<equiv> CHR 0x09"
abbreviation SP :: char where "SP \<equiv> CHR 0x20"

text \<open>\<open>str.isspace\<close>, the characters \<open>strip\<close> and the class \<open>\s\<close> of \<open>re\<close> remove or match.\<close>

definition is_space :: "char \<Rightarrow> bool" where
  "is_space c \<longleftrightarrow> (let n = code_of c in 9 \<le> n \<and> n \<le> 13 \<or> 28 \<le> n \<and> n \<le> 32 \<or> n = 133 \<or> n = 160)"

text \<open>The line boundaries of \<open>str.splitlines\<close>.\<close>

definition is_break :: "char \<Rightarrow> bool" where
  "is_break c \<longleftrightarrow> (let n = code_of c in 10 \<le> n \<and> n \<le> 13 \<or> 28 \<le> n \<and> n \<le> 30 \<or> n = 133)"

definition is_digit :: "char \<Rightarrow> bool" where
  "is_digit c \<longleftrightarrow> 48 \<le> code_of c \<and> code_of c \<le> 57"

definition is_letter :: "char \<Rightarrow> bool" where
  "is_letter c \<longleftrightarrow> 65 \<le> code_of c \<and> code_of c \<le> 90 \<or> 97 \<le> code_of c \<and> code_of c \<le> 122"

definition lstrip :: "string \<Rightarrow> string" where
  "lstrip s = dropWhile is_space s"

definition rstrip :: "string \<Rightarrow> string" where
  "rstrip s = rev (dropWhile is_space (rev s))"

definition strip :: "string \<Rightarrow> string" where
  "strip s = rstrip (lstrip s)"

definition startswith :: "string \<Rightarrow> string \<Rightarrow> bool" where
  "startswith p s \<longleftrightarrow> take (length p) s = p"

definition endswith :: "string \<Rightarrow> string \<Rightarrow> bool" where
  "endswith p s \<longleftrightarrow> startswith (rev p) (rev s)"

definition upper_char :: "char \<Rightarrow> char" where
  "upper_char c = (if 97 \<le> code_of c \<and> code_of c \<le> 122 then char_of (code_of c - 32) else c)"

definition lower_char :: "char \<Rightarrow> char" where
  "lower_char c = (if 65 \<le> code_of c \<and> code_of c \<le> 90 then char_of (code_of c + 32) else c)"

definition upper :: "string \<Rightarrow> string" where
  "upper s = map upper_char s"

definition lower :: "string \<Rightarrow> string" where
  "lower s = map lower_char s"

text \<open>\<open>str.splitlines(keepends=True)\<close>; a CR LF pair is one boundary.\<close>

fun splitlines_keep :: "string \<Rightarrow> string list" where
  "splitlines_keep [] = []"
| "splitlines_keep (c # cs) =
     (if is_break c then
        (case cs of
           [] \<Rightarrow> [[c]]
         | d # ds \<Rightarrow> (if c = CR \<and> d = LF then [c, d] # splitlines_keep ds else [c] # splitlines_keep cs))
      else (case splitlines_keep cs of [] \<Rightarrow> [[c]] | l # ls \<Rightarrow> (c # l) # ls))"

definition splitlines :: "string \<Rightarrow> string list" where
  "splitlines s = map (takeWhile (\<lambda>c. \<not> is_break c)) (splitlines_keep s)"

declare splitlines_keep.simps(2) [simp del]

lemma splitlines_keep_break:
  "is_break c \<Longrightarrow> splitlines_keep (c # cs) =
     (if c = CR \<and> take 1 cs = [LF] then [c, LF] # splitlines_keep (tl cs) else [c] # splitlines_keep cs)"
  by (cases cs) (auto simp: splitlines_keep.simps(2))

lemma splitlines_keep_char:
  "\<not> is_break c \<Longrightarrow> splitlines_keep (c # cs) =
     (case splitlines_keep cs of [] \<Rightarrow> [[c]] | l # ls \<Rightarrow> (c # l) # ls)"
  by (simp add: splitlines_keep.simps(2))

lemma splitlines_keep_induct [case_names Nil Break CRLF Char]:
  assumes "P []"
    and "\<And>c cs. is_break c \<Longrightarrow> \<not> (c = CR \<and> take 1 cs = [LF]) \<Longrightarrow> P cs \<Longrightarrow> P (c # cs)"
    and "\<And>cs. P cs \<Longrightarrow> P (CR # LF # cs)"
    and "\<And>c cs. \<not> is_break c \<Longrightarrow> P cs \<Longrightarrow> P (c # cs)"
  shows "P s"
proof (induction s rule: length_induct)
  case (1 s)
  show ?case
  proof (cases s)
    case Nil
    with assms(1) show ?thesis by simp
  next
    case (Cons c cs)
    then have IH: "P cs" "\<And>ds. cs = LF # ds \<Longrightarrow> P ds" using 1 by auto
    consider "\<not> is_break c" | "is_break c" "\<not> (c = CR \<and> take 1 cs = [LF])"
      | "c = CR" "take 1 cs = [LF]" by blast
    then show ?thesis
    proof cases
      case 3
      then obtain ds where "cs = LF # ds" by (cases cs) auto
      with 3 Cons IH(2) assms(3) show ?thesis by simp
    qed (use Cons IH(1) assms in auto)
  qed
qed

lemma is_break_CR [simp]: "is_break CR"
  by (simp add: is_break_def code_of_def)

lemma is_break_LF [simp]: "is_break LF"
  by (simp add: is_break_def code_of_def)

lemma concat_splitlines_keep [simp]: "concat (splitlines_keep s) = s"
proof (induction s rule: splitlines_keep_induct)
  case (Char c cs)
  then show ?case by (cases "splitlines_keep cs") (auto simp: splitlines_keep_char)
qed (auto simp: splitlines_keep_break)

lemma splitlines_keep_nonempty: "[] \<notin> set (splitlines_keep s)"
proof (induction s rule: splitlines_keep_induct)
  case (Char c cs)
  then show ?case by (cases "splitlines_keep cs") (auto simp: splitlines_keep_char)
qed (auto simp: splitlines_keep_break)

lemma splitlines_keep_Nil [simp]: "splitlines_keep s = [] \<longleftrightarrow> s = []"
  by (metis concat.simps(1) concat_splitlines_keep splitlines_keep.simps(1))

text \<open>\<open>sep.join(parts)\<close> and \<open>s.split(c)\<close> for a one-character separator.\<close>

fun join :: "string \<Rightarrow> string list \<Rightarrow> string" where
  "join sep [] = []"
| "join sep [x] = x"
| "join sep (x # xs) = x @ sep @ join sep xs"

fun split_on :: "char \<Rightarrow> string \<Rightarrow> string list" where
  "split_on c [] = [[]]"
| "split_on c (x # xs) =
     (if x = c then [] # split_on c xs
      else (case split_on c xs of [] \<Rightarrow> [[x]] | l # ls \<Rightarrow> (x # l) # ls))"

lemma split_on_nonempty [simp]: "split_on c s \<noteq> []"
  by (cases s) (auto split: list.splits)

lemma join_Cons: "xs \<noteq> [] \<Longrightarrow> join sep (x # xs) = x @ sep @ join sep xs"
  by (cases xs) auto

lemma join_split_on: "join [c] (split_on c s) = s"
proof (induction s)
  case Nil
  show ?case by simp
next
  case (Cons x xs)
  obtain l ls where ls: "split_on c xs = l # ls"
    by (cases "split_on c xs") auto
  show ?case
    using Cons ls by (cases ls) (auto simp: join_Cons)
qed

section \<open>Integers in decimal\<close>

fun show_nat :: "nat \<Rightarrow> string" where
  "show_nat n = (if n < 10 then [char_of (48 + n)] else show_nat (n div 10) @ [char_of (48 + n mod 10)])"

declare show_nat.simps [simp del]

definition show_int :: "int \<Rightarrow> string" where
  "show_int i = (if i < 0 then CHR ''-'' # show_nat (nat (- i)) else show_nat (nat i))"

fun digits_value :: "nat \<Rightarrow> string \<Rightarrow> nat option" where
  "digits_value acc [] = Some acc"
| "digits_value acc (c # cs) =
     (if is_digit c then digits_value (10 * acc + (code_of c - 48)) cs else None)"

text \<open>
  \<open>int(s)\<close>: surrounding white space, one optional sign, then groups of digits separated by
  single underscores; anything else raises \<open>ValueError\<close> (\<open>None\<close>).
\<close>

definition parse_int :: "string \<Rightarrow> int option" where
  "parse_int raw =
     (let s = strip raw;
          neg = (case s of c # _ \<Rightarrow> c = CHR ''-'' | [] \<Rightarrow> False);
          body = (case s of c # cs \<Rightarrow> if c = CHR ''-'' \<or> c = CHR ''+'' then cs else s | [] \<Rightarrow> s);
          groups = split_on (CHR ''_'') body
      in if list_all (\<lambda>g. g \<noteq> []) groups
         then (case digits_value 0 (concat groups) of
                 None \<Rightarrow> None
               | Some n \<Rightarrow> Some (if neg then - int n else int n))
         else None)"

lemma code_of_digit: "n < 10 \<Longrightarrow> code_of (char_of (48 + n)) = 48 + n"
  by (simp add: code_of_def)

lemma digits_value_append:
  "digits_value acc (xs @ ys) = (case digits_value acc xs of None \<Rightarrow> None | Some a \<Rightarrow> digits_value a ys)"
  by (induction xs arbitrary: acc) auto

lemma digits_value_show_nat: "digits_value 0 (show_nat n) = Some n"
proof (induction n rule: show_nat.induct)
  case (1 n)
  have d: "n mod 10 < 10" by simp
  show ?case
  proof (cases "n < 10")
    case True
    then show ?thesis
      by (subst show_nat.simps) (simp add: is_digit_def code_of_digit)
  next
    case False
    then have "digits_value 0 (show_nat (n div 10)) = Some (n div 10)"
      by (rule 1)
    with False show ?thesis
      by (subst show_nat.simps) (simp add: digits_value_append is_digit_def code_of_digit [OF d])
  qed
qed

lemma digits_of_digits_value: "digits_value acc s = Some n \<Longrightarrow> list_all is_digit s"
  by (induction s arbitrary: acc) (auto split: if_splits)

lemma show_nat_nonempty [simp]: "show_nat n \<noteq> []"
  by (subst show_nat.simps) simp

lemma show_nat_inject [simp]: "show_nat m = show_nat n \<longleftrightarrow> m = n"
  by (metis digits_value_show_nat option.inject)

lemma list_all_digit_show_nat: "list_all is_digit (show_nat n)"
  using digits_of_digits_value digits_value_show_nat by blast

section \<open>Backtracking regular expressions\<close>

text \<open>
  A pattern is read as the list of the remainders it can leave, in the order a backtracking
  matcher tries them; the first one is the match \<open>re\<close> reports.
\<close>

type_synonym rx = "string \<Rightarrow> string list"

definition rx_eps :: rx where
  "rx_eps s = [s]"

definition rx_chr :: "(char \<Rightarrow> bool) \<Rightarrow> rx" where
  "rx_chr P s = (case s of [] \<Rightarrow> [] | c # cs \<Rightarrow> if P c then [cs] else [])"

definition rx_lit :: "string \<Rightarrow> rx" where
  "rx_lit w s = (if startswith w s then [drop (length w) s] else [])"

definition rx_seq :: "rx \<Rightarrow> rx \<Rightarrow> rx" where
  "rx_seq p q s = concat (map q (p s))"

definition rx_alt :: "rx \<Rightarrow> rx \<Rightarrow> rx" where
  "rx_alt p q s = p s @ q s"

fun rx_star :: "(char \<Rightarrow> bool) \<Rightarrow> rx" where
  "rx_star P [] = [[]]"
| "rx_star P (c # cs) = (if P c then rx_star P cs @ [c # cs] else [c # cs])"

definition rx_plus :: "(char \<Rightarrow> bool) \<Rightarrow> rx" where
  "rx_plus P = rx_seq (rx_chr P) (rx_star P)"

text \<open>Greedy repetition of a group that consumes at least one character.\<close>

function rx_many :: "rx \<Rightarrow> rx" where
  "rx_many p s = concat (map (rx_many p) (filter (\<lambda>r. length r < length s) (p s))) @ [s]"
  by pat_completeness auto
termination
  by (relation "measure (\<lambda>(p, s). length s)") auto

declare rx_many.simps [simp del]

text \<open>A pattern followed by a capture group: the captured text and the remainder.\<close>

definition rx_cap :: "rx \<Rightarrow> rx \<Rightarrow> string \<Rightarrow> (string \<times> string) list" where
  "rx_cap p q s = concat (map (\<lambda>r. map (\<lambda>r'. (take (length r - length r') r, r')) (q r)) (p s))"

definition rx_fullmatch :: "rx \<Rightarrow> string \<Rightarrow> bool" where
  "rx_fullmatch p s \<longleftrightarrow> [] \<in> set (p s)"

text \<open>\<open>search\<close>: the leftmost position where the pattern matches, its first match there.\<close>

fun rx_search :: "rx \<Rightarrow> rx \<Rightarrow> string \<Rightarrow> string option" where
  "rx_search p q [] = (case rx_cap p q [] of [] \<Rightarrow> None | (g, _) # _ \<Rightarrow> Some g)"
| "rx_search p q (c # cs) =
     (case rx_cap p q (c # cs) of [] \<Rightarrow> rx_search p q cs | (g, _) # _ \<Rightarrow> Some g)"

lemma filter_hd: "filter P xs = r # rs \<Longrightarrow> P r"
  by (metis list.set_intros(1) mem_Collect_eq set_filter)

text \<open>\<open>sub\<close> with the empty replacement, for a pattern that never matches the empty string.\<close>

function rx_erase :: "rx \<Rightarrow> string \<Rightarrow> string" where
  "rx_erase p [] = []"
| "rx_erase p (c # cs) =
     (case filter (\<lambda>r. length r < length (c # cs)) (p (c # cs)) of
        [] \<Rightarrow> c # rx_erase p cs
      | r # _ \<Rightarrow> rx_erase p r)"
  by pat_completeness auto
termination
proof (relation "measure (\<lambda>(p, s). length s)", goal_cases)
  case (3 p c cs r rs)
  from filter_hd [OF 3] show ?case by simp
qed simp_all

end
