(* ===== verification/Violations.thy ===== *)
theory Violations
  imports Prelude "HOL-Library.Multiset"
begin

text \<open>
  Violation dictionaries and their routing: \<open>rule_ids.py\<close>, the enumerations of
  \<open>graph/types.py\<close>, the FQCN target resolution of \<open>transforms/M001_fqcn.py\<close>, the transform
  registry of \<open>remediation/registry.py\<close> and the three-tier partition of
  \<open>remediation/partition.py\<close>.
\<close>

section \<open>Violation dictionaries\<close>

text \<open>
  The values a \<open>ViolationDict\<close> holds; a member of a \<open>(str, Enum)\<close> class carries its class,
  its member name and its value.
\<close>

datatype vval =
    VNone
  | VBool bool
  | VInt int
  | VStr string
  | VInts "int list"
  | VStrs "string list"
  | VEnum string string string

type_synonym violation = "(string, vval) dict"

text \<open>
  \<open>repr\<close> of a string: double quotes only when it has single quotes and no double ones; the quote,
  the backslash and unprintable characters escaped.
\<close>

definition hex_digit :: "nat \<Rightarrow> char" where
  "hex_digit n = ''0123456789abcdef'' ! n"

definition is_printable :: "char \<Rightarrow> bool" where
  "is_printable c \<longleftrightarrow> (let n = code_of c in 32 \<le> n \<and> n \<le> 126 \<or> 161 \<le> n \<and> n \<noteq> 173)"

definition repr_char :: "char \<Rightarrow> char \<Rightarrow> string" where
  "repr_char q c =
     (if c = q \<or> c = CHR 0x5C then [CHR 0x5C, c]
      else if c = LF then [CHR 0x5C, CHR ''n'']
      else if c = CR then [CHR 0x5C, CHR ''r'']
      else if c = TAB then [CHR 0x5C, CHR ''t'']
      else if is_printable c then [c]
      else [CHR 0x5C, CHR ''x'', hex_digit (code_of c div 16), hex_digit (code_of c mod 16)])"

definition py_repr :: "string \<Rightarrow> string" where
  "py_repr s =
     (let q = (if CHR 0x27 \<in> set s \<and> CHR 0x22 \<notin> set s then CHR 0x22 else CHR 0x27)
      in q # concat (map (repr_char q) s) @ [q])"

text \<open>Python's \<open>str(x)\<close> and truth value.\<close>

fun py_str :: "vval \<Rightarrow> string" where
  "py_str VNone = ''None''"
| "py_str (VBool b) = (if b then ''True'' else ''False'')"
| "py_str (VInt i) = show_int i"
| "py_str (VStr s) = s"
| "py_str (VInts is) = ''['' @ join '', '' (map show_int is) @ '']''"
| "py_str (VStrs ss) = ''['' @ join '', '' (map py_repr ss) @ '']''"
| "py_str (VEnum cls member v) = cls @ ''.'' @ member"

fun truthy :: "vval \<Rightarrow> bool" where
  "truthy VNone = False"
| "truthy (VBool b) = b"
| "truthy (VInt i) = (i \<noteq> 0)"
| "truthy (VStr s) = (s \<noteq> [])"
| "truthy (VInts is) = (is \<noteq> [])"
| "truthy (VStrs ss) = (ss \<noteq> [])"
| "truthy (VEnum cls member v) = (v \<noteq> [])"

text \<open>\<open>v.get(k)\<close>, \<open>str(v.get(k, ""))\<close> and \<open>str(v.get(k) or "")\<close>.\<close>

definition vget :: "violation \<Rightarrow> string \<Rightarrow> vval" where
  "vget v k = (case dict_get v k of None \<Rightarrow> VNone | Some x \<Rightarrow> x)"

definition vget_str :: "violation \<Rightarrow> string \<Rightarrow> string" where
  "vget_str v k = (case dict_get v k of None \<Rightarrow> [] | Some x \<Rightarrow> py_str x)"

definition vget_or_str :: "violation \<Rightarrow> string \<Rightarrow> string" where
  "vget_or_str v k = (if truthy (vget v k) then py_str (vget v k) else [])"

lemma vget_set [dict_simps]: "vget (dict_set k x v) k' = (if k' = k then x else vget v k')"
  by (simp add: vget_def dict_simps)

lemma vget_str_set [dict_simps]: "vget_str (dict_set k x v) k' = (if k' = k then py_str x else vget_str v k')"
  by (simp add: vget_str_def dict_simps)

lemma vget_or_str_set [dict_simps]:
  "k' \<noteq> k \<Longrightarrow> vget_or_str (dict_set k x v) k' = vget_or_str v k'"
  by (simp add: vget_or_str_def dict_simps)

section \<open>Rule identifiers and enumerations\<close>

definition normalize_rule_id :: "string \<Rightarrow> string" where
  "normalize_rule_id rule_id =
     (if startswith ''native:'' rule_id then drop (length ''native:'') rule_id else rule_id)"

abbreviation bare_id :: "violation \<Rightarrow> string" where
  "bare_id v \<equiv> normalize_rule_id (vget_str v ''rule_id'')"

datatype rule_scope =
    RS_TASK | RS_BLOCK | RS_PLAY | RS_PLAYBOOK | RS_ROLE | RS_INVENTORY | RS_COLLECTION

fun scope_value :: "rule_scope \<Rightarrow> string" where
  "scope_value RS_TASK = ''task''"
| "scope_value RS_BLOCK = ''block''"
| "scope_value RS_PLAY = ''play''"
| "scope_value RS_PLAYBOOK = ''playbook''"
| "scope_value RS_ROLE = ''role''"
| "scope_value RS_INVENTORY = ''inventory''"
| "scope_value RS_COLLECTION = ''collection''"

datatype remediation_class = AUTO_FIXABLE | AI_CANDIDATE | MANUAL_REVIEW

fun class_member :: "remediation_class \<Rightarrow> string" where
  "class_member AUTO_FIXABLE = ''AUTO_FIXABLE''"
| "class_member AI_CANDIDATE = ''AI_CANDIDATE''"
| "class_member MANUAL_REVIEW = ''MANUAL_REVIEW''"

fun class_value :: "remediation_class \<Rightarrow> string" where
  "class_value AUTO_FIXABLE = ''auto-fixable''"
| "class_value AI_CANDIDATE = ''ai-candidate''"
| "class_value MANUAL_REVIEW = ''manual-review''"

definition class_vval :: "remediation_class \<Rightarrow> vval" where
  "class_vval c = VEnum ''RemediationClass'' (class_member c) (class_value c)"

datatype remediation_resolution =
    UNRESOLVED | TRANSFORM_FAILED | OSCILLATION | AI_PROPOSED | AI_FAILED | AI_ABSTAINED
  | AI_LOW_CONFIDENCE | USER_REJECTED | NEEDS_CROSS_FILE | MANUAL | INFORMATIONAL

fun resolution_member :: "remediation_resolution \<Rightarrow> string" where
  "resolution_member UNRESOLVED = ''UNRESOLVED''"
| "resolution_member TRANSFORM_FAILED = ''TRANSFORM_FAILED''"
| "resolution_member OSCILLATION = ''OSCILLATION''"
| "resolution_member AI_PROPOSED = ''AI_PROPOSED''"
| "resolution_member AI_FAILED = ''AI_FAILED''"
| "resolution_member AI_ABSTAINED = ''AI_ABSTAINED''"
| "resolution_member AI_LOW_CONFIDENCE = ''AI_LOW_CONFIDENCE''"
| "resolution_member USER_REJECTED = ''USER_REJECTED''"
| "resolution_member NEEDS_CROSS_FILE = ''NEEDS_CROSS_FILE''"
| "resolution_member MANUAL = ''MANUAL''"
| "resolution_member INFORMATIONAL = ''INFORMATIONAL''"

fun resolution_value :: "remediation_resolution \<Rightarrow> string" where
  "resolution_value UNRESOLVED = ''unresolved''"
| "resolution_value TRANSFORM_FAILED = ''transform-failed''"
| "resolution_value OSCILLATION = ''oscillation''"
| "resolution_value AI_PROPOSED = ''ai-proposed''"
| "resolution_value AI_FAILED = ''ai-failed''"
| "resolution_value AI_ABSTAINED = ''ai-abstained''"
| "resolution_value AI_LOW_CONFIDENCE = ''ai-low-confidence''"
| "resolution_value USER_REJECTED = ''user-rejected''"
| "resolution_value NEEDS_CROSS_FILE = ''needs-cross-file''"
| "resolution_value MANUAL = ''manual''"
| "resolution_value INFORMATIONAL = ''informational''"

definition resolution_vval :: "remediation_resolution \<Rightarrow> vval" where
  "resolution_vval r = VEnum ''RemediationResolution'' (resolution_member r) (resolution_value r)"

text \<open>\<open>v["remediation_resolution"] = r\<close>.\<close>

definition stamp :: "remediation_resolution \<Rightarrow> violation \<Rightarrow> violation" where
  "stamp r v = dict_set ''remediation_resolution'' (resolution_vval r) v"

section \<open>FQCN targets\<close>

abbreviation ident_start :: "char \<Rightarrow> bool" where
  "ident_start c \<equiv> is_letter c \<or> c = CHR ''_''"

abbreviation ident_char :: "char \<Rightarrow> bool" where
  "ident_char c \<equiv> is_letter c \<or> is_digit c \<or> c = CHR ''_''"

definition rx_ident :: rx where
  "rx_ident = rx_seq (rx_chr ident_start) (rx_star ident_char)"

definition rx_dot_ident :: rx where
  "rx_dot_ident = rx_seq (rx_lit ''.'') rx_ident"

definition rx_fqcn :: rx where
  "rx_fqcn = rx_seq rx_ident (rx_seq rx_dot_ident (rx_seq rx_dot_ident (rx_many rx_dot_ident)))"

definition rx_fqcn_from_msg :: rx where
  "rx_fqcn_from_msg =
     rx_seq (rx_alt (rx_lit ''Use FQCN'') (rx_lit ''FQCN for module''))
       (rx_seq (rx_lit '':'') (rx_seq (rx_star is_space)
         (rx_seq (rx_plus (\<lambda>c. \<not> is_space c)) (rx_seq (rx_star is_space)
           (rx_seq (rx_lit ''->'') (rx_star is_space))))))"

definition is_valid_fqcn :: "string \<Rightarrow> string \<Rightarrow> bool" where
  "is_valid_fqcn candidate current_key \<longleftrightarrow>
     candidate \<noteq> current_key
     \<and> \<not> startswith ''taskfile'' candidate
     \<and> \<not> (endswith ''.yml'' candidate \<or> endswith ''.yaml'' candidate \<or> endswith ''.json'' candidate)
     \<and> rx_fullmatch rx_fqcn candidate"

definition resolve_fqcn :: "violation \<Rightarrow> string \<Rightarrow> string option" where
  "resolve_fqcn v current_key =
     (case filter (\<lambda>field. vget v field \<noteq> VNone \<and> is_valid_fqcn (py_str (vget v field)) current_key)
             [''resolved_fqcn'', ''fqcn''] of
        field # _ \<Rightarrow> Some (py_str (vget v field))
      | [] \<Rightarrow>
          (case rx_search rx_fqcn_from_msg (rx_plus (\<lambda>c. \<not> is_space c)) (vget_str v ''message'') of
             Some candidate \<Rightarrow> if is_valid_fqcn candidate current_key then Some candidate else None
           | None \<Rightarrow> None))"

definition current_module_key :: "violation \<Rightarrow> string" where
  "current_module_key v =
     (if truthy (vget v ''original_module'') then py_str (vget v ''original_module'')
      else vget_or_str v ''module'')"

definition has_fqcn_target :: "violation \<Rightarrow> bool" where
  "has_fqcn_target v \<longleftrightarrow> resolve_fqcn v (current_module_key v) \<noteq> None"

type_synonym fqcn_key = "string \<times> string \<times> string"

definition enrich_key :: "violation \<Rightarrow> fqcn_key" where
  "enrich_key v = (vget_str v ''file'', vget_str v ''path'', vget_str v ''original_module'')"

text \<open>First loop of \<open>enrich_fqcn_targets\<close>: the targets canonical-name findings supply.\<close>

fun fqcn_targets :: "violation list \<Rightarrow> (fqcn_key \<times> string) list" where
  "fqcn_targets [] = []"
| "fqcn_targets (v # vs) =
     (if bare_id v \<in> {''M001'', ''M003''} then
        (let original = vget_str v ''original_module''; node_id = vget_str v ''path'' in
         case resolve_fqcn v original of
           Some target \<Rightarrow>
             (if original \<noteq> [] \<and> node_id \<noteq> [] \<and> target \<noteq> []
              then (enrich_key v, target) # fqcn_targets vs else fqcn_targets vs)
         | None \<Rightarrow> fqcn_targets vs)
      else fqcn_targets vs)"

definition candidates :: "(fqcn_key \<times> string) list \<Rightarrow> fqcn_key \<Rightarrow> string list" where
  "candidates ts key = nub (map snd (filter (\<lambda>(k, _). k = key) ts))"

text \<open>Second loop: a short-name finding with exactly one candidate takes it.\<close>

definition enrich_one :: "(fqcn_key \<times> string) list \<Rightarrow> violation \<Rightarrow> violation" where
  "enrich_one ts v =
     (if bare_id v \<notin> {''L002'', ''L026''} then v
      else if has_fqcn_target v then v
      else (case candidates ts (enrich_key v) of
              [target] \<Rightarrow> dict_set ''resolved_fqcn'' (VStr target) v
            | _ \<Rightarrow> v))"

definition enrich_fqcn_targets :: "violation list \<Rightarrow> violation list" where
  "enrich_fqcn_targets vs = map (enrich_one (fqcn_targets vs)) vs"

section \<open>Transform registry\<close>

type_synonym 'f registry = "(string, 'f) dict"

datatype registry_error = Node_transform_required string

definition register :: "string \<Rightarrow> 'f option \<Rightarrow> 'f registry \<Rightarrow> registry_error + 'f registry" where
  "register rule_id node reg =
     (case node of
        None \<Rightarrow> Inl (Node_transform_required rule_id)
      | Some f \<Rightarrow> Inr (dict_set rule_id f reg))"

definition get_node_transform :: "'f registry \<Rightarrow> string \<Rightarrow> 'f option" where
  "get_node_transform reg rule_id = dict_get reg rule_id"

definition in_registry :: "string \<Rightarrow> 'f registry \<Rightarrow> bool" where
  "in_registry rule_id reg \<longleftrightarrow> dict_get reg rule_id \<noteq> None"

definition registered_rule_ids :: "'f registry \<Rightarrow> string list" where
  "registered_rule_ids reg = sort (map fst reg)"

text \<open>A transform mutates the task mapping and says whether it changed it.\<close>

definition apply_node ::
  "('m \<Rightarrow> violation \<Rightarrow> bool \<times> 'm) registry \<Rightarrow> string \<Rightarrow> 'm \<Rightarrow> violation \<Rightarrow> bool \<times> 'm" where
  "apply_node reg rule_id task v =
     (case dict_get reg rule_id of None \<Rightarrow> (False, task) | Some nfn \<Rightarrow> nfn task v)"

section \<open>Partition into tiers\<close>

definition AI_PROPOSABLE_SCOPES :: "string list" where
  "AI_PROPOSABLE_SCOPES = [scope_value RS_TASK, scope_value RS_BLOCK]"

definition CROSS_FILE_RULES :: "string list" where
  "CROSS_FILE_RULES = [''R111'', ''R112'', ''L006'', ''L080'']"

definition FQCN_RULES :: "string list" where
  "FQCN_RULES = [''L002'', ''L005'', ''L026'', ''M001'', ''M002'', ''M003'', ''M004'', ''M048'']"

definition AI_REVIEWABLE_RULES :: "string list" where
  "AI_REVIEWABLE_RULES = [''R108'', ''R103'', ''R104'', ''R101'', ''R105'']"

definition DISABLED_BY_DEFAULT_GRAPH_RULE_IDS :: "string list" where
  "DISABLED_BY_DEFAULT_GRAPH_RULE_IDS = [''R402'', ''R404'']"

definition to_str_value :: "vval \<Rightarrow> string \<Rightarrow> string" where
  "to_str_value val dflt =
     (if \<not> truthy val then dflt
      else (case val of VEnum _ _ v \<Rightarrow> v | _ \<Rightarrow> py_str val))"

definition get_scope :: "violation \<Rightarrow> string" where
  "get_scope v = to_str_value (vget v ''scope'') (scope_value RS_TASK)"

definition severity_label :: "violation \<Rightarrow> string" where
  "severity_label v = lower (vget_or_str v ''severity'')"

text \<open>\<open>v.get("ai_proposable", True)\<close> as a truth value.\<close>

definition ai_proposable :: "violation \<Rightarrow> bool" where
  "ai_proposable v = (case dict_get v ''ai_proposable'' of None \<Rightarrow> True | Some x \<Rightarrow> truthy x)"

definition is_finding_resolvable :: "'f registry \<Rightarrow> violation \<Rightarrow> bool" where
  "is_finding_resolvable reg v =
     (if bare_id v \<in> set CROSS_FILE_RULES then False
      else if bare_id v \<in> set FQCN_RULES \<and> \<not> has_fqcn_target v then False
      else in_registry (bare_id v) reg)"

definition is_ai_escalatable :: "violation \<Rightarrow> bool" where
  "is_ai_escalatable v \<longleftrightarrow> bare_id v \<notin> set FQCN_RULES"

definition is_ai_reviewable :: "violation \<Rightarrow> bool" where
  "is_ai_reviewable v \<longleftrightarrow> bare_id v \<in> set AI_REVIEWABLE_RULES"

datatype tier = Tier1 | Tier2 | Tier3

text \<open>The body of the loop of \<open>partition_violations\<close>: where a violation goes and its stamp.\<close>

definition route :: "'f registry \<Rightarrow> violation \<Rightarrow> tier \<times> violation" where
  "route reg v =
     (if severity_label v = ''info'' then (Tier3, stamp INFORMATIONAL v)
      else if bare_id v \<in> set CROSS_FILE_RULES then (Tier3, stamp NEEDS_CROSS_FILE v)
      else if bare_id v \<in> set FQCN_RULES \<and> \<not> is_finding_resolvable reg v then (Tier3, stamp MANUAL v)
      else if is_finding_resolvable reg v then (Tier1, v)
      else if get_scope v \<notin> set AI_PROPOSABLE_SCOPES then (Tier3, stamp MANUAL v)
      else if ai_proposable v then (Tier2, v)
      else (Tier3, v))"

fun partition_loop ::
  "'f registry \<Rightarrow> violation list \<Rightarrow> violation list \<Rightarrow> violation list \<Rightarrow> violation list
   \<Rightarrow> violation list \<times> violation list \<times> violation list" where
  "partition_loop reg t1 t2 t3 [] = (t1, t2, t3)"
| "partition_loop reg t1 t2 t3 (v # vs) =
     (case route reg v of
        (Tier1, v') \<Rightarrow> partition_loop reg (t1 @ [v']) t2 t3 vs
      | (Tier2, v') \<Rightarrow> partition_loop reg t1 (t2 @ [v']) t3 vs
      | (Tier3, v') \<Rightarrow> partition_loop reg t1 t2 (t3 @ [v']) vs)"

definition partition_violations ::
  "violation list \<Rightarrow> 'f registry \<Rightarrow> violation list \<times> violation list \<times> violation list" where
  "partition_violations vs reg = partition_loop reg [] [] [] vs"

definition classify_violation :: "violation \<Rightarrow> remediation_class" where
  "classify_violation v =
     (if severity_label v = ''info'' then MANUAL_REVIEW
      else if bare_id v \<in> set CROSS_FILE_RULES then MANUAL_REVIEW
      else if bare_id v \<in> set FQCN_RULES then MANUAL_REVIEW
      else if get_scope v \<notin> set AI_PROPOSABLE_SCOPES then MANUAL_REVIEW
      else if ai_proposable v then AI_CANDIDATE
      else MANUAL_REVIEW)"

definition add_classification :: "violation list \<Rightarrow> violation list" where
  "add_classification vs = map (\<lambda>v. dict_set ''remediation_class'' (class_vval (classify_violation v)) v) vs"

section \<open>Counting\<close>

text \<open>\<open>counts[key] += 1\<close>, counting from 0 when the key is new.\<close>

definition bump :: "string \<Rightarrow> (string, nat) dict \<Rightarrow> (string, nat) dict" where
  "bump key counts = dict_set key (Suc (case dict_get counts key of Some n \<Rightarrow> n | None \<Rightarrow> 0)) counts"

definition class_bucket :: "(string, nat) dict \<Rightarrow> violation \<Rightarrow> string" where
  "class_bucket counts v =
     (let rc = to_str_value (vget v ''remediation_class'') (class_value AI_CANDIDATE)
      in if dict_get counts rc \<noteq> None then rc else class_value AI_CANDIDATE)"

fun count_class_loop :: "(string, nat) dict \<Rightarrow> violation list \<Rightarrow> (string, nat) dict" where
  "count_class_loop counts [] = counts"
| "count_class_loop counts (v # vs) =
     (if bare_id v \<in> set DISABLED_BY_DEFAULT_GRAPH_RULE_IDS then count_class_loop counts vs
      else count_class_loop (bump (class_bucket counts v) counts) vs)"

definition count_by_remediation_class :: "violation list \<Rightarrow> (string, nat) dict" where
  "count_by_remediation_class vs =
     count_class_loop (map (\<lambda>c. (class_value c, 0)) [AUTO_FIXABLE, AI_CANDIDATE, MANUAL_REVIEW]) vs"

fun count_resolution_loop :: "(string, nat) dict \<Rightarrow> violation list \<Rightarrow> (string, nat) dict" where
  "count_resolution_loop counts [] = counts"
| "count_resolution_loop counts (v # vs) =
     (if bare_id v \<in> set DISABLED_BY_DEFAULT_GRAPH_RULE_IDS then count_resolution_loop counts vs
      else count_resolution_loop
             (bump (to_str_value (vget v ''remediation_resolution'') (resolution_value UNRESOLVED)) counts) vs)"

definition count_by_resolution :: "violation list \<Rightarrow> (string, nat) dict" where
  "count_by_resolution vs = count_resolution_loop [] vs"

section \<open>Properties of the partition\<close>

lemma severity_label_stamp [simp]: "severity_label (stamp r v) = severity_label v"
  by (simp add: severity_label_def stamp_def dict_simps)

lemma bare_id_stamp [simp]: "bare_id (stamp r v) = bare_id v"
  by (simp add: stamp_def dict_simps)

lemma get_scope_stamp [simp]: "get_scope (stamp r v) = get_scope v"
  by (simp add: get_scope_def stamp_def dict_simps)

lemma ai_proposable_stamp [simp]: "ai_proposable (stamp r v) = ai_proposable v"
  by (simp add: ai_proposable_def stamp_def dict_simps)

lemma resolve_fqcn_stamp [simp]: "resolve_fqcn (stamp r v) key = resolve_fqcn v key"
  by (simp add: resolve_fqcn_def stamp_def dict_simps)

lemma has_fqcn_target_stamp [simp]: "has_fqcn_target (stamp r v) = has_fqcn_target v"
proof -
  have "current_module_key (stamp r v) = current_module_key v"
    by (simp add: current_module_key_def stamp_def dict_simps)
  then show ?thesis by (simp add: has_fqcn_target_def)
qed

lemma is_finding_resolvable_stamp [simp]:
  "is_finding_resolvable reg (stamp r v) = is_finding_resolvable reg v"
  by (simp add: is_finding_resolvable_def)

lemma stamp_stamp [simp]: "stamp r (stamp q v) = stamp r v"
  by (induction v) (auto simp: stamp_def)

lemma classify_stamp [simp]: "classify_violation (stamp r v) = classify_violation v"
  by (simp add: classify_violation_def)

abbreviation in_tier :: "'f registry \<Rightarrow> tier \<Rightarrow> violation \<Rightarrow> bool" where
  "in_tier reg t v \<equiv> fst (route reg v) = t"

lemma partition_loop_filter:
  "partition_loop reg t1 t2 t3 vs =
     (t1 @ map (snd \<circ> route reg) (filter (in_tier reg Tier1) vs),
      t2 @ map (snd \<circ> route reg) (filter (in_tier reg Tier2) vs),
      t3 @ map (snd \<circ> route reg) (filter (in_tier reg Tier3) vs))"
proof (induction vs arbitrary: t1 t2 t3)
  case (Cons v vs)
  obtain t v' where "route reg v = (t, v')" by (cases "route reg v")
  with Cons show ?case by (cases t) auto
qed simp

lemma partition_violations_filter:
  "partition_violations vs reg =
     (map (snd \<circ> route reg) (filter (in_tier reg Tier1) vs),
      map (snd \<circ> route reg) (filter (in_tier reg Tier2) vs),
      map (snd \<circ> route reg) (filter (in_tier reg Tier3) vs))"
  by (simp add: partition_violations_def partition_loop_filter)

lemma route_Tier1:
  "in_tier reg Tier1 v \<Longrightarrow> snd (route reg v) = v \<and> is_finding_resolvable reg v \<and> severity_label v \<noteq> ''info''"
  by (simp add: route_def split: if_splits)

lemma route_Tier2:
  "in_tier reg Tier2 v \<Longrightarrow>
     snd (route reg v) = v \<and> bare_id v \<notin> set CROSS_FILE_RULES \<and> bare_id v \<notin> set FQCN_RULES
     \<and> severity_label v \<noteq> ''info'' \<and> get_scope v \<in> set AI_PROPOSABLE_SCOPES \<and> ai_proposable v
     \<and> \<not> is_finding_resolvable reg v"
  by (auto simp: route_def split: if_splits)

lemma route_same: "snd (route reg v) = v \<or> (\<exists>r. snd (route reg v) = stamp r v)"
  by (auto simp: route_def)

lemma route_route [simp]: "route reg (snd (route reg v)) = route reg v"
  by (auto simp: route_def)

lemma resolvableD:
  assumes "is_finding_resolvable reg v"
  shows "\<exists>f. get_node_transform reg (bare_id v) = Some f" "bare_id v \<notin> set CROSS_FILE_RULES"
    "bare_id v \<in> set FQCN_RULES \<Longrightarrow> has_fqcn_target v"
  using assms by (auto simp: is_finding_resolvable_def in_registry_def get_node_transform_def split: if_splits)

lemma tier1_member:
  assumes "partition_violations vs reg = (t1, t2, t3)" and "v \<in> set t1"
  shows "v \<in> set vs \<and> is_finding_resolvable reg v \<and> severity_label v \<noteq> ''info''"
  using assms route_Tier1 [of reg] by (fastforce simp: partition_violations_filter)

lemma tier2_member:
  assumes "partition_violations vs reg = (t1, t2, t3)" and "v \<in> set t2"
  shows "v \<in> set vs \<and> bare_id v \<notin> set CROSS_FILE_RULES \<and> bare_id v \<notin> set FQCN_RULES
     \<and> severity_label v \<noteq> ''info'' \<and> get_scope v \<in> set AI_PROPOSABLE_SCOPES \<and> ai_proposable v"
  using assms route_Tier2 [of reg] by (fastforce simp: partition_violations_filter)

text \<open>What a violation says apart from the resolution the partition stamps on it.\<close>

definition unstamped :: "violation \<Rightarrow> violation" where
  "unstamped v = dict_pop ''remediation_resolution'' v"

lemma unstamped_stamp [simp]: "unstamped (stamp r v) = unstamped v"
  by (induction v) (auto simp: unstamped_def stamp_def)

lemma unstamped_route [simp]: "unstamped (snd (route reg v)) = unstamped v"
  using route_same [of reg v] by auto

lemma mset_tiers:
  "mset (map f (filter (in_tier reg Tier1) vs)) + mset (map f (filter (in_tier reg Tier2) vs))
     + mset (map f (filter (in_tier reg Tier3) vs)) = mset (map f vs)"
proof (induction vs)
  case (Cons v vs)
  then show ?case by (cases "fst (route reg v)") auto
qed simp

text \<open>
  C9. \<open>partition_violations\<close> loses and invents nothing: up to the resolution it stamps, the
  three tiers together hold exactly the violations given, each once.
\<close>

theorem partition_conserves:
  assumes "partition_violations vs reg = (t1, t2, t3)"
  shows "mset (map unstamped t1) + mset (map unstamped t2) + mset (map unstamped t3)
           = mset (map unstamped vs)
         \<and> length t1 + length t2 + length t3 = length vs"
proof -
  have "mset (map unstamped t1) + mset (map unstamped t2) + mset (map unstamped t3) = mset (map unstamped vs)"
    using assms mset_tiers [of unstamped reg vs] by (auto simp: partition_violations_filter comp_def multiset.map_comp)
  moreover from this [THEN arg_cong [where f = size]] have "length t1 + length t2 + length t3 = length vs"
    by simp
  ultimately show ?thesis ..
qed

definition sample_violation :: "string \<Rightarrow> string \<Rightarrow> violation" where
  "sample_violation rid node = [(''rule_id'', VStr rid), (''path'', VStr node)]"

lemma partition_conserves_witness:
  "partition_violations [sample_violation ''L013'' ''n'', sample_violation ''L006'' ''n''] [(''L007'', ())]
     = ([], [sample_violation ''L013'' ''n''], [stamp NEEDS_CROSS_FILE (sample_violation ''L006'' ''n'')])
   \<and> length ([] :: violation list) + length [sample_violation ''L013'' ''n'']
       + length [stamp NEEDS_CROSS_FILE (sample_violation ''L006'' ''n'')] = 2"
proof -
  have p: "partition_violations [sample_violation ''L013'' ''n'', sample_violation ''L006'' ''n''] [(''L007'', ())]
     = ([], [sample_violation ''L013'' ''n''], [stamp NEEDS_CROSS_FILE (sample_violation ''L006'' ''n'')])"
    by code_simp
  from partition_conserves [OF p] p show ?thesis by simp
qed

text \<open>
  C10. Routing is safe: what goes to the AI tier is no cross-file rule, no FQCN rule, not
  informational, of task or block scope and AI-proposable; what goes to the deterministic
  tier has a registered transform, is no cross-file rule and, for an FQCN rule, carries a
  resolved target.
\<close>

theorem partition_routing_safe:
  assumes "partition_violations vs reg = (t1, t2, t3)"
  shows "(\<forall>v \<in> set t2. bare_id v \<notin> set CROSS_FILE_RULES \<and> bare_id v \<notin> set FQCN_RULES
            \<and> severity_label v \<noteq> ''info'' \<and> get_scope v \<in> {''task'', ''block''} \<and> ai_proposable v)
       \<and> (\<forall>v \<in> set t1. (\<exists>f. get_node_transform reg (bare_id v) = Some f)
            \<and> bare_id v \<notin> set CROSS_FILE_RULES \<and> severity_label v \<noteq> ''info''
            \<and> (bare_id v \<in> set FQCN_RULES \<longrightarrow> has_fqcn_target v))"
proof -
  have scopes: "set AI_PROPOSABLE_SCOPES = {''task'', ''block''}"
    by (simp add: AI_PROPOSABLE_SCOPES_def)
  have t2: "bare_id v \<notin> set CROSS_FILE_RULES \<and> bare_id v \<notin> set FQCN_RULES \<and> severity_label v \<noteq> ''info''
      \<and> get_scope v \<in> {''task'', ''block''} \<and> ai_proposable v" if "v \<in> set t2" for v
    using tier2_member [OF assms that] by (simp add: scopes)
  have t1: "(\<exists>f. get_node_transform reg (bare_id v) = Some f) \<and> bare_id v \<notin> set CROSS_FILE_RULES
      \<and> severity_label v \<noteq> ''info'' \<and> (bare_id v \<in> set FQCN_RULES \<longrightarrow> has_fqcn_target v)"
    if "v \<in> set t1" for v
    using tier1_member [OF assms that] resolvableD [of reg v] by simp
  show ?thesis using t1 t2 by blast
qed

lemma partition_routing_safe_witness:
  "partition_violations [sample_violation ''L013'' ''n'', sample_violation ''L007'' ''n''] [(''L007'', ())]
     = ([sample_violation ''L007'' ''n''], [sample_violation ''L013'' ''n''], [])
   \<and> bare_id (sample_violation ''L013'' ''n'') \<notin> set FQCN_RULES"
proof -
  have p: "partition_violations [sample_violation ''L013'' ''n'', sample_violation ''L007'' ''n''] [(''L007'', ())]
     = ([sample_violation ''L007'' ''n''], [sample_violation ''L013'' ''n''], [])"
    by code_simp
  from partition_routing_safe [OF p] p show ?thesis by simp
qed

text \<open>
  C11. The post-convergence classification agrees with the routing: the AI tier is exactly
  the violations without a deterministic fix that \<open>classify_violation\<close> calls AI candidates.
\<close>

theorem classify_agrees_with_partition:
  "fst (snd (partition_violations vs reg)) =
     filter (\<lambda>v. \<not> is_finding_resolvable reg v \<and> classify_violation v = AI_CANDIDATE) vs"
proof -
  have t: "in_tier reg Tier2 v \<longleftrightarrow> \<not> is_finding_resolvable reg v \<and> classify_violation v = AI_CANDIDATE" for v
    by (auto simp: route_def classify_violation_def)
  have "map (snd \<circ> route reg) (filter (in_tier reg Tier2) vs) = filter (in_tier reg Tier2) vs"
    using route_Tier2 [of reg] by (intro map_idI) auto
  then show ?thesis by (simp add: partition_violations_filter t)
qed

text \<open>
  Partitioning is stable: partitioning the stamped result again gives the same tiers, so
  the stamps never change where a violation is routed.
\<close>

theorem partition_stable:
  assumes "partition_violations vs reg = (t1, t2, t3)"
  shows "partition_violations (t1 @ t2 @ t3) reg = (t1, t2, t3)"
proof -
  have [simp]: "filter (in_tier reg t) (map (snd \<circ> route reg) (filter (in_tier reg t') vs)) =
      (if t = t' then map (snd \<circ> route reg) (filter (in_tier reg t') vs) else [])" for t t'
    by (auto simp: filter_map comp_def filter_empty_conv cong: filter_cong)
  have [simp]: "map (snd \<circ> route reg) (map (snd \<circ> route reg) xs) = map (snd \<circ> route reg) xs" for xs
    by simp
  show ?thesis using assms by (auto simp: partition_violations_filter simp del: map_map)
qed

lemma partition_stable_witness:
  "partition_violations [sample_violation ''L006'' ''n'', sample_violation ''L013'' ''n''] [(''L007'', ())]
     = ([], [sample_violation ''L013'' ''n''], [stamp NEEDS_CROSS_FILE (sample_violation ''L006'' ''n'')])
   \<and> partition_violations [sample_violation ''L013'' ''n'', stamp NEEDS_CROSS_FILE (sample_violation ''L006'' ''n'')]
       [(''L007'', ())]
     = ([], [sample_violation ''L013'' ''n''], [stamp NEEDS_CROSS_FILE (sample_violation ''L006'' ''n'')])"
proof -
  have p: "partition_violations [sample_violation ''L006'' ''n'', sample_violation ''L013'' ''n''] [(''L007'', ())]
     = ([], [sample_violation ''L013'' ''n''], [stamp NEEDS_CROSS_FILE (sample_violation ''L006'' ''n'')])"
    by code_simp
  from partition_stable [OF p] p show ?thesis by simp
qed

section \<open>Properties of the FQCN enrichment\<close>

lemma fqcn_targets_source:
  assumes "(key, target) \<in> set (fqcn_targets vs)"
  shows "\<exists>w \<in> set vs. bare_id w \<in> {''M001'', ''M003''} \<and> enrich_key w = key
           \<and> vget_str w ''original_module'' \<noteq> [] \<and> resolve_fqcn w (vget_str w ''original_module'') = Some target"
  using assms
proof (induction vs)
  case (Cons v vs)
  then show ?case
    by (cases "resolve_fqcn v (vget_str v ''original_module'')") (auto simp: Let_def split: if_splits)
qed simp

lemma resolve_fqcn_valid: "resolve_fqcn v key = Some target \<Longrightarrow> is_valid_fqcn target key"
  by (auto simp: resolve_fqcn_def split: list.splits option.splits if_splits dest: filter_hd)

lemma resolve_fqcn_set:
  "is_valid_fqcn target key \<Longrightarrow> resolve_fqcn (dict_set ''resolved_fqcn'' (VStr target) v) key = Some target"
  by (simp add: resolve_fqcn_def dict_simps)

lemma candidates_single: "candidates ts key = [target] \<Longrightarrow> (key, target) \<in> set ts"
proof -
  assume "candidates ts key = [target]"
  then have "set (map snd (filter (\<lambda>(k, _). k = key) ts)) = {target}"
    by (metis candidates_def list.set(1,2) set_nub)
  then have "target \<in> snd ` set (filter (\<lambda>(k, _). k = key) ts)" by auto
  then show ?thesis by auto
qed

text \<open>
  Enriched FQCN targets are never invented: a finding changes only if it is a short-name
  finding without a target, and then its new target is the one a canonical-name finding
  resolved for the same file, node and module; with a textual module name the finding is
  then resolvable.
\<close>

theorem enrich_fqcn_targets_sound:
  assumes "i < length vs" and "enrich_fqcn_targets vs ! i \<noteq> vs ! i"
  shows "bare_id (vs ! i) \<in> {''L002'', ''L026''} \<and> \<not> has_fqcn_target (vs ! i)
    \<and> (\<exists>w \<in> set vs. \<exists>target.
         bare_id w \<in> {''M001'', ''M003''} \<and> enrich_key w = enrich_key (vs ! i)
         \<and> resolve_fqcn w (vget_str w ''original_module'') = Some target
         \<and> enrich_fqcn_targets vs ! i = dict_set ''resolved_fqcn'' (VStr target) (vs ! i)
         \<and> (\<forall>m. vget (vs ! i) ''original_module'' = VStr m \<longrightarrow> has_fqcn_target (enrich_fqcn_targets vs ! i)))"
proof -
  let ?v = "vs ! i" and ?v' = "enrich_fqcn_targets vs ! i"
  have v': "?v' = enrich_one (fqcn_targets vs) ?v"
    using assms(1) by (simp add: enrich_fqcn_targets_def)
  with assms(2) have kind: "bare_id ?v \<in> {''L002'', ''L026''}" "\<not> has_fqcn_target ?v"
    by (auto simp: enrich_one_def split: if_splits)
  then obtain target where c: "candidates (fqcn_targets vs) (enrich_key ?v) = [target]"
    and set': "?v' = dict_set ''resolved_fqcn'' (VStr target) ?v"
    using v' assms(2) by (auto simp: enrich_one_def split: list.splits)
  from fqcn_targets_source [OF candidates_single [OF c]] obtain w where
    w: "w \<in> set vs" "bare_id w \<in> {''M001'', ''M003''}" "enrich_key w = enrich_key ?v"
      "vget_str w ''original_module'' \<noteq> []" "resolve_fqcn w (vget_str w ''original_module'') = Some target"
    by auto
  have "has_fqcn_target ?v'" if m: "vget ?v ''original_module'' = VStr m" for m
  proof -
    have "vget_str ?v ''original_module'' = m"
      using m by (auto simp: vget_def vget_str_def split: option.splits)
    with w(3,4) have mk: "m = vget_str w ''original_module''" "m \<noteq> []"
      by (auto simp: enrich_key_def)
    have "current_module_key ?v' = m"
      using m mk(2) by (simp add: current_module_key_def set' dict_simps)
    then show ?thesis
      using resolve_fqcn_set [OF resolve_fqcn_valid [OF w(5)]] mk(1) by (simp add: has_fqcn_target_def set')
  qed
  with kind w(1-3,5) set' show ?thesis by blast
qed

definition short_name_finding :: violation where
  "short_name_finding = [(''rule_id'', VStr ''L026''), (''path'', VStr ''t''), (''original_module'', VStr ''apt'')]"

definition canonical_finding :: violation where
  "canonical_finding =
     [(''rule_id'', VStr ''M001''), (''path'', VStr ''t''), (''original_module'', VStr ''apt''),
      (''resolved_fqcn'', VStr ''a.b.apt'')]"

lemma enrich_fqcn_targets_sound_witness:
  "enrich_fqcn_targets [short_name_finding, canonical_finding] ! 0 \<noteq> short_name_finding
   \<and> bare_id short_name_finding \<in> {''L002'', ''L026''}"
proof -
  have ne: "enrich_fqcn_targets [short_name_finding, canonical_finding] ! 0
      \<noteq> [short_name_finding, canonical_finding] ! 0"
    by code_simp
  have "(0::nat) < length [short_name_finding, canonical_finding]" by simp
  from enrich_fqcn_targets_sound [OF this ne] ne show ?thesis by simp
qed

section \<open>Properties of the counters\<close>

lemma sum_bump: "sum_list (map snd (bump k d)) = Suc (sum_list (map snd d))"
  unfolding bump_def by (induction d) (auto split: option.splits)

lemma keys_bump: "dict_get d k \<noteq> None \<Longrightarrow> map fst (bump k d) = map fst d"
  by (auto simp: bump_def keys_dict_set dict_get_None)

lemma sum_count_class_loop:
  "sum_list (map snd (count_class_loop counts vs)) =
     sum_list (map snd counts) + length (filter (\<lambda>v. bare_id v \<notin> set DISABLED_BY_DEFAULT_GRAPH_RULE_IDS) vs)"
  by (induction vs arbitrary: counts) (auto simp: sum_bump)

lemma keys_count_class_loop:
  "dict_get counts (class_value AI_CANDIDATE) \<noteq> None \<Longrightarrow>
     map fst (count_class_loop counts vs) = map fst counts"
proof (induction vs arbitrary: counts)
  case (Cons v vs)
  have "dict_get counts (class_bucket counts v) \<noteq> None"
    using Cons.prems by (auto simp: class_bucket_def Let_def)
  from keys_bump [OF this] Cons show ?case by (simp add: bump_def dict_simps)
qed simp

text \<open>
  The remediation summary has exactly the three classes as keys, and its counts add up
  to the number of violations that are not disabled-by-default audit findings.
\<close>

theorem count_by_remediation_class_total:
  "map fst (count_by_remediation_class vs) = [''auto-fixable'', ''ai-candidate'', ''manual-review'']
   \<and> sum_list (map snd (count_by_remediation_class vs))
       = length (filter (\<lambda>v. bare_id v \<notin> {''R402'', ''R404''}) vs)"
  by (simp add: count_by_remediation_class_def keys_count_class_loop sum_count_class_loop
      DISABLED_BY_DEFAULT_GRAPH_RULE_IDS_def)

end
