(* ===== verification/Deadline.thy ===== *)
theory Deadline
  imports Complex_Main Violations
begin

text \<open>
  Operation budgets and deadlines: \<open>daemon/deadline.py\<close> and the integer parsing of
  \<open>config_env.py\<close>. Seconds and counts are \<open>int\<close>; monotonic clock readings are \<open>real\<close>.
  A \<open>BudgetConfigError\<close> is the left side of a sum. The products with \<open>0.10\<close> and the quotient
  under \<open>math.ceil\<close> are taken exactly, as they are for the magnitudes of budgets (below
  \<open>2 ^ 49\<close> seconds double rounding does not reach the next integer).
\<close>

section \<open>Environment\<close>

definition get_env_int :: "(string \<Rightarrow> string option) \<Rightarrow> string \<Rightarrow> int \<Rightarrow> int option \<Rightarrow> int" where
  "get_env_int environ name dflt min_value =
     (case parse_int (case environ name of None \<Rightarrow> show_int dflt | Some raw \<Rightarrow> raw) of
        None \<Rightarrow> dflt
      | Some v \<Rightarrow> (case min_value of Some m \<Rightarrow> if v < m then dflt else v | None \<Rightarrow> v))"

definition parse_ai_concurrency :: "(string \<Rightarrow> string option) \<Rightarrow> string option \<Rightarrow> int" where
  "parse_ai_concurrency environ raw =
     (let v = (case raw of Some r \<Rightarrow> r
               | None \<Rightarrow> (case environ ''APME_AI_CONCURRENCY'' of Some r \<Rightarrow> r | None \<Rightarrow> ''4''))
      in case parse_int v of None \<Rightarrow> 4 | Some parsed \<Rightarrow> if parsed < 1 then 1 else parsed)"

text \<open>The module-level defaults, read once from the environment.\<close>

record budget_env =
  SCAN_BASE :: int
  MIN_BUDGET :: int
  MAX_BUDGET :: int
  PER_CALL_TIMEOUT :: int
  STALL_SECONDS :: int
  AI_CONCURRENCY :: int
  TIER1_SECONDS_PER_VIOLATION :: int
  TIER1_MARGIN_CAP :: int

definition load_budget_env :: "(string \<Rightarrow> string option) \<Rightarrow> budget_env" where
  "load_budget_env environ =
     \<lparr>SCAN_BASE = get_env_int environ ''APME_OPERATION_SCAN_BASE'' 300 None,
      MIN_BUDGET = get_env_int environ ''APME_OPERATION_MIN_BUDGET'' 600 None,
      MAX_BUDGET = get_env_int environ ''APME_SESSION_MAX_LIFETIME'' 7200 None,
      PER_CALL_TIMEOUT = get_env_int environ ''APME_OPERATION_PER_CALL_TIMEOUT'' 60 None,
      STALL_SECONDS = get_env_int environ ''APME_OPERATION_STALL_SECONDS'' 600 None,
      AI_CONCURRENCY = parse_ai_concurrency environ None,
      TIER1_SECONDS_PER_VIOLATION = get_env_int environ ''APME_OPERATION_TIER1_PER_VIOLATION'' 2 None,
      TIER1_MARGIN_CAP = get_env_int environ ''APME_OPERATION_TIER1_MARGIN_CAP'' 600 None\<rparr>"

section \<open>Budgets\<close>

datatype budget_error = BudgetConfigError string

type_synonym budget = "budget_error + int"

definition count_ai_nodes :: "violation list \<Rightarrow> nat" where
  "count_ai_nodes vs = card (set (filter (\<lambda>p. p \<noteq> []) (map (\<lambda>v. vget_str v ''path'') vs)))"

definition validate_ai_budget_inputs :: "int \<Rightarrow> int \<Rightarrow> int \<Rightarrow> budget_error option" where
  "validate_ai_budget_inputs concurrency per_call_timeout max_ai_attempts =
     (if concurrency \<le> 0 then
        Some (BudgetConfigError (''concurrency must be > 0 (got '' @ show_int concurrency @ '')''))
      else if per_call_timeout \<le> 0 then
        Some (BudgetConfigError (''per_call_timeout must be > 0 (got '' @ show_int per_call_timeout @ '')''))
      else if max_ai_attempts < 1 then
        Some (BudgetConfigError (''max_ai_attempts must be >= 1 (got '' @ show_int max_ai_attempts @ '')''))
      else None)"

text \<open>An explicit override, or the module default.\<close>

definition override :: "int option \<Rightarrow> int \<Rightarrow> int" where
  "override x dflt = (case x of Some v \<Rightarrow> v | None \<Rightarrow> dflt)"

definition clamp_budget :: "budget_env \<Rightarrow> int \<Rightarrow> int option \<Rightarrow> int option \<Rightarrow> budget" where
  "clamp_budget E raw min_budget max_budget =
     (let floor = override min_budget (MIN_BUDGET E); ceiling = override max_budget (MAX_BUDGET E)
      in if floor > ceiling then
           Inl (BudgetConfigError (''min_budget ('' @ show_int floor @ '') must be <= max_budget (''
                  @ show_int ceiling @ '')''))
         else Inr (max floor (min ceiling raw)))"

definition estimate_tier1_margin :: "budget_env \<Rightarrow> int \<Rightarrow> int" where
  "estimate_tier1_margin E violation_count =
     (if violation_count \<le> 0 then 0
      else min (TIER1_MARGIN_CAP E) (violation_count * TIER1_SECONDS_PER_VIOLATION E))"

text \<open>\<open>int(x * 0.10)\<close>: a tenth, truncated towards zero.\<close>

definition tenth :: "int \<Rightarrow> int" where
  "tenth x = sgn x * (\<bar>x\<bar> div 10)"

definition estimate_non_ai_budget ::
  "budget_env \<Rightarrow> int \<Rightarrow> int option \<Rightarrow> int option \<Rightarrow> int option \<Rightarrow> budget" where
  "estimate_non_ai_budget E violation_count scan_base min_budget max_budget =
     (let base = override scan_base (SCAN_BASE E);
          tier1_margin = estimate_tier1_margin E violation_count;
          margin = max 60 (tenth (base + tier1_margin))
      in clamp_budget E (base + tier1_margin + margin) min_budget max_budget)"

text \<open>\<open>math.ceil(a / c)\<close> for a positive divisor.\<close>

definition ceil_div :: "int \<Rightarrow> int \<Rightarrow> int" where
  "ceil_div a c = - ((- a) div c)"

definition estimate_ai_budget ::
  "budget_env \<Rightarrow> int \<Rightarrow> int option \<Rightarrow> int option \<Rightarrow> int \<Rightarrow> int option \<Rightarrow> int option \<Rightarrow> budget" where
  "estimate_ai_budget E ai_node_count concurrency per_call_timeout max_ai_attempts min_budget max_budget =
     (let conc = override concurrency (AI_CONCURRENCY E);
          per_call = override per_call_timeout (PER_CALL_TIMEOUT E)
      in case validate_ai_budget_inputs conc per_call max_ai_attempts of
           Some e \<Rightarrow> Inl e
         | None \<Rightarrow>
             (let batches = (if ai_node_count > 0 then ceil_div ai_node_count conc else 0);
                  ai_budget = batches * per_call * max_ai_attempts;
                  margin = max 60 (tenth ai_budget)
              in clamp_budget E (ai_budget + margin) min_budget max_budget))"

definition estimate_operation_budget ::
  "budget_env \<Rightarrow> int \<Rightarrow> int option \<Rightarrow> int option \<Rightarrow> int \<Rightarrow> int \<Rightarrow> int option \<Rightarrow> int option \<Rightarrow> int option
   \<Rightarrow> budget" where
  "estimate_operation_budget E ai_node_count concurrency per_call_timeout max_ai_attempts
       violation_count scan_base min_budget max_budget =
     (case estimate_non_ai_budget E violation_count scan_base min_budget max_budget of
        Inl e \<Rightarrow> Inl e
      | Inr non_ai \<Rightarrow>
          (if ai_node_count \<le> 0 then Inr non_ai
           else (case estimate_ai_budget E ai_node_count concurrency per_call_timeout max_ai_attempts
                        min_budget max_budget of
                   Inl e \<Rightarrow> Inl e
                 | Inr ai \<Rightarrow> clamp_budget E (non_ai + ai) min_budget max_budget)))"

section \<open>Deadlines\<close>

definition operation_deadline_mono :: "real \<Rightarrow> int \<Rightarrow> real \<Rightarrow> real" where
  "operation_deadline_mono operation_started_at operation_budget_s max_lifetime_deadline_mono =
     (let phase_deadline = operation_started_at + of_int operation_budget_s
      in if max_lifetime_deadline_mono \<le> 0 then phase_deadline
         else min phase_deadline max_lifetime_deadline_mono)"

definition stall_window :: "budget_env \<Rightarrow> int \<Rightarrow> int" where
  "stall_window E operation_budget_s = min (STALL_SECONDS E) operation_budget_s"

definition is_task_linked_progress :: "string \<Rightarrow> bool" where
  "is_task_linked_progress phase \<longleftrightarrow> phase \<notin> {''heartbeat'', []}"

datatype deadline_code = Session_lifetime_exceeded | Operation_budget_exceeded | Operation_stalled

datatype deadline_error = OperationDeadlineError deadline_code string

text \<open>\<open>int(x)\<close> of a float: truncation towards zero.\<close>

definition trunc :: "real \<Rightarrow> int" where
  "trunc x = (if 0 \<le> x then \<lfloor>x\<rfloor> else \<lceil>x\<rceil>)"

definition idle_time :: "real \<Rightarrow> real \<Rightarrow> real \<Rightarrow> real" where
  "idle_time operation_started_at last_progress_at now =
     (if last_progress_at > 0 then now - last_progress_at else now - operation_started_at)"

definition check_operation_deadline ::
  "budget_env \<Rightarrow> int \<Rightarrow> real \<Rightarrow> real \<Rightarrow> real \<Rightarrow> real \<Rightarrow> deadline_error option" where
  "check_operation_deadline E operation_budget_s operation_started_at last_progress_at now
       max_lifetime_deadline_mono =
     (if operation_budget_s \<le> 0 \<or> operation_started_at \<le> 0 then None
      else
        let deadline = operation_deadline_mono operation_started_at operation_budget_s max_lifetime_deadline_mono
        in if now > deadline then
             (if max_lifetime_deadline_mono > 0 \<and> now \<ge> max_lifetime_deadline_mono then
                Some (OperationDeadlineError Session_lifetime_exceeded ''Session maximum lifetime exceeded'')
              else
                let elapsed = now - operation_started_at
                in Some (OperationDeadlineError Operation_budget_exceeded
                     (''Operation exceeded budget of '' @ show_int operation_budget_s
                        @ ''s (elapsed '' @ show_int (trunc elapsed) @ ''s)'')))
           else
             let idle = idle_time operation_started_at last_progress_at now;
                 limit = stall_window E operation_budget_s
             in if idle > of_int limit then
                  Some (OperationDeadlineError Operation_stalled
                    (''No progress for '' @ show_int (trunc idle) @ ''s (stall limit ''
                       @ show_int limit @ ''s)''))
                else None)"

section \<open>Properties\<close>

lemma is_space_digit: "is_digit c \<Longrightarrow> \<not> is_space c"
  by (auto simp: is_digit_def is_space_def Let_def)

lemma strip_solid:
  assumes "s \<noteq> []" and "\<not> is_space (hd s)" and "\<not> is_space (last s)"
  shows "strip s = s"
proof -
  have "lstrip s = s" using assms by (cases s) (auto simp: lstrip_def)
  moreover have "rstrip s = s"
    using assms by (cases s rule: rev_cases) (auto simp: rstrip_def)
  ultimately show ?thesis by (simp add: strip_def)
qed

lemma split_on_absent: "c \<notin> set s \<Longrightarrow> split_on c s = [s]"
  by (induction s) auto

lemma digit_not_sign: "is_digit c \<Longrightarrow> c \<noteq> CHR ''-'' \<and> c \<noteq> CHR ''+'' \<and> c \<noteq> CHR ''_''"
  by (auto simp: is_digit_def code_of_def)

lemma parse_int_show_int: "parse_int (show_int i) = Some i"
proof -
  obtain c cs where s: "show_nat (nat \<bar>i\<bar>) = c # cs"
    by (cases "show_nat (nat \<bar>i\<bar>)") auto
  then have digits: "is_digit d" if "d \<in> set (c # cs)" for d
    using that list_all_digit_show_nat [of "nat \<bar>i\<bar>"] by (auto simp: list_all_iff)
  then have us: "split_on (CHR ''_'') (c # cs) = [c # cs]"
    using digit_not_sign by (intro split_on_absent) blast
  have last: "\<not> is_space (last (c # cs))"
    by (rule is_space_digit [OF digits [OF last_in_set]]) simp
  have "is_digit c" by (rule digits) simp
  note ends = last is_space_digit [OF this] digit_not_sign [OF this]
  have val: "digits_value 0 (c # cs) = Some (nat \<bar>i\<bar>)"
    using digits_value_show_nat [of "nat \<bar>i\<bar>"] by (simp only: s)
  show ?thesis
  proof (cases "i < 0")
    case True
    then have "show_int i = CHR ''-'' # c # cs"
      using s by (simp add: show_int_def)
    moreover have "strip (CHR ''-'' # c # cs) = CHR ''-'' # c # cs"
      using ends by (intro strip_solid) (auto simp: is_space_def code_of_def)
    ultimately show ?thesis
      using True us val by (simp add: parse_int_def Let_def del: split_on.simps digits_value.simps)
  next
    case False
    then have "show_int i = c # cs"
      using s by (simp add: show_int_def)
    moreover have "strip (c # cs) = c # cs"
      using ends by (intro strip_solid) auto
    ultimately show ?thesis
      using False ends us val by (simp add: parse_int_def Let_def del: split_on.simps digits_value.simps)
  qed
qed

text \<open>
  Environment parsing: an unset variable gives the documented default, a set one its
  integer value when it parses and is not below the floor, and the default otherwise; the
  AI concurrency is at least 1 whatever the environment says.
\<close>

theorem env_parsing_safe:
  "(environ name = None \<longrightarrow> get_env_int environ name dflt None = dflt)
   \<and> (\<forall>i m. environ name = Some (show_int i) \<longrightarrow>
         get_env_int environ name dflt (Some m) = (if i < m then dflt else i))
   \<and> (\<forall>raw. environ name = Some raw \<and> parse_int raw = None \<longrightarrow> get_env_int environ name dflt mv = dflt)
   \<and> 1 \<le> parse_ai_concurrency environ raw'"
  by (auto simp: get_env_int_def parse_int_show_int parse_ai_concurrency_def Let_def split: option.split)

lemma env_parsing_safe_witness:
  "get_env_int (\<lambda>_. None) ''X'' 300 None = 300
   \<and> get_env_int (\<lambda>_. Some (show_int 5)) ''X'' 300 (Some 10) = 300"
  using env_parsing_safe [of "\<lambda>_. None" "''X''" 300 None None]
    env_parsing_safe [of "\<lambda>_. Some (show_int 5)" "''X''" 300 None None]
  by simp

lemma clamp_budget_cases:
  "clamp_budget E raw lo hi = Inr b \<longleftrightarrow>
     override lo (MIN_BUDGET E) \<le> override hi (MAX_BUDGET E)
     \<and> b = max (override lo (MIN_BUDGET E)) (min (override hi (MAX_BUDGET E)) raw)"
  by (auto simp: clamp_budget_def Let_def)

lemma clamp_budget_bounds:
  "clamp_budget E raw lo hi = Inr b \<Longrightarrow> override lo (MIN_BUDGET E) \<le> b \<and> b \<le> override hi (MAX_BUDGET E)"
  by (auto simp: clamp_budget_cases)

lemmas budget_defs = estimate_operation_budget_def estimate_non_ai_budget_def estimate_ai_budget_def

text \<open>
  C12. Every budget the engine computes lies between the configured floor and ceiling: for
  the non-AI, the AI and the combined estimate.
\<close>

theorem operation_budget_bounded:
  assumes "estimate_operation_budget E n conc per_call attempts vc scan_base lo hi = Inr b
     \<or> estimate_ai_budget E n conc per_call attempts lo hi = Inr b
     \<or> estimate_non_ai_budget E vc scan_base lo hi = Inr b"
  shows "override lo (MIN_BUDGET E) \<le> b \<and> b \<le> override hi (MAX_BUDGET E)"
  using assms
  by (auto simp: budget_defs Let_def split: sum.splits option.splits if_splits
      dest: clamp_budget_bounds)

definition default_env :: budget_env where
  "default_env = load_budget_env (\<lambda>_. None)"

lemma default_env_eq:
  "default_env = \<lparr>SCAN_BASE = 300, MIN_BUDGET = 600, MAX_BUDGET = 7200, PER_CALL_TIMEOUT = 60,
     STALL_SECONDS = 600, AI_CONCURRENCY = 4, TIER1_SECONDS_PER_VIOLATION = 2, TIER1_MARGIN_CAP = 600\<rparr>"
proof -
  have "get_env_int (\<lambda>_. None) x d None = d" for x d
    by (simp add: get_env_int_def parse_int_show_int)
  moreover have "parse_ai_concurrency (\<lambda>_. None) None = 4"
    by code_simp
  ultimately show ?thesis by (simp add: default_env_def load_budget_env_def)
qed

lemma operation_budget_bounded_witness:
  "estimate_ai_budget default_env 100 None None 2 None None = Inr 3300
   \<and> override None (MIN_BUDGET default_env) \<le> 3300 \<and> 3300 \<le> override None (MAX_BUDGET default_env)"
proof -
  have e: "estimate_ai_budget default_env 100 None None 2 None None = Inr 3300"
    unfolding default_env_eq by code_simp
  then show ?thesis
    using operation_budget_bounded [of default_env 100 None None 2 0 None None None 3300] by simp
qed

lemma clamp_budget_total:
  "override lo (MIN_BUDGET E) \<le> override hi (MAX_BUDGET E) \<Longrightarrow> \<exists>b. clamp_budget E raw lo hi = Inr b"
  by (auto simp: clamp_budget_def Let_def)

lemma validate_ai_budget_inputs_None:
  "validate_ai_budget_inputs c p a = None \<longleftrightarrow> 0 < c \<and> 0 < p \<and> 1 \<le> a"
  by (auto simp: validate_ai_budget_inputs_def)

text \<open>
  The combined estimate fails exactly on an invalid operator configuration: floor above
  ceiling, or, when there are AI nodes, a non-positive concurrency, per-call timeout or
  number of attempts.
\<close>

theorem operation_budget_error_iff:
  "(\<exists>e. estimate_operation_budget E n conc per_call attempts vc scan_base lo hi = Inl e) \<longleftrightarrow>
     override lo (MIN_BUDGET E) > override hi (MAX_BUDGET E)
     \<or> n > 0 \<and> (override conc (AI_CONCURRENCY E) \<le> 0 \<or> override per_call (PER_CALL_TIMEOUT E) \<le> 0
                 \<or> attempts < 1)"
proof -
  let ?lo = "override lo (MIN_BUDGET E)" and ?hi = "override hi (MAX_BUDGET E)"
  have c: "(\<exists>e. clamp_budget E raw lo hi = Inl e) \<longleftrightarrow> ?lo > ?hi" for raw
    by (auto simp: clamp_budget_def Let_def)
  have n: "(\<exists>e. estimate_non_ai_budget E vc scan_base lo hi = Inl e) \<longleftrightarrow> ?lo > ?hi"
    by (simp add: estimate_non_ai_budget_def Let_def c)
  have a: "(\<exists>e. estimate_ai_budget E n conc per_call attempts lo hi = Inl e) \<longleftrightarrow>
      ?lo > ?hi \<or> \<not> (0 < override conc (AI_CONCURRENCY E) \<and> 0 < override per_call (PER_CALL_TIMEOUT E) \<and> 1 \<le> attempts)"
    by (simp add: estimate_ai_budget_def Let_def c validate_ai_budget_inputs_None [symmetric] split: option.split)
  show ?thesis
  proof (cases "\<exists>e. estimate_non_ai_budget E vc scan_base lo hi = Inl e")
    case True
    with n show ?thesis by (auto simp: estimate_operation_budget_def)
  next
    case False
    then obtain b where b: "estimate_non_ai_budget E vc scan_base lo hi = Inr b"
      by (cases "estimate_non_ai_budget E vc scan_base lo hi") auto
    from False n have le: "\<not> ?lo > ?hi" by blast
    show ?thesis
    proof (cases "\<exists>e. estimate_ai_budget E n conc per_call attempts lo hi = Inl e")
      case True
      with a b le show ?thesis by (auto simp: estimate_operation_budget_def)
    next
      case False
      then obtain b' where "estimate_ai_budget E n conc per_call attempts lo hi = Inr b'"
        by (cases "estimate_ai_budget E n conc per_call attempts lo hi") auto
      with a b c le show ?thesis by (auto simp: estimate_operation_budget_def)
    qed
  qed
qed

lemma ceil_div_bounds:
  assumes "0 < c"
  shows "a \<le> ceil_div a c * c" and "ceil_div a c * c < a + c"
proof -
  have "(- a) div c * c + (- a) mod c = - a" by simp
  moreover have "0 \<le> (- a) mod c" "(- a) mod c < c" using assms by auto
  ultimately show "a \<le> ceil_div a c * c" "ceil_div a c * c < a + c"
    unfolding ceil_div_def mult_minus_left by linarith+
qed

lemma tenth_nonneg: "0 \<le> x \<Longrightarrow> 0 \<le> tenth x"
  by (simp add: tenth_def sgn_if pos_imp_zdiv_nonneg_iff)

text \<open>
  C13. The AI budget is enough for the work: unless the ceiling cuts it, it covers all
  batches of AI calls at the full per-call timeout, for every attempt; batches are the
  fewest that fit all nodes at the given concurrency.
\<close>

theorem ai_budget_covers_work:
  assumes est: "estimate_ai_budget E n conc per_call attempts lo hi = Inr b" and "0 < n"
    and uncut: "b < override hi (MAX_BUDGET E)"
  shows "\<exists>batches. n \<le> batches * override conc (AI_CONCURRENCY E)
           \<and> batches * override conc (AI_CONCURRENCY E) < n + override conc (AI_CONCURRENCY E)
           \<and> batches * override per_call (PER_CALL_TIMEOUT E) * attempts \<le> b"
proof -
  let ?c = "override conc (AI_CONCURRENCY E)" and ?p = "override per_call (PER_CALL_TIMEOUT E)"
  let ?batches = "ceil_div n ?c"
  from est have valid: "validate_ai_budget_inputs ?c ?p attempts = None"
    by (auto simp: estimate_ai_budget_def Let_def split: option.splits)
  then have pos: "0 < ?c" "0 < ?p" "1 \<le> attempts"
    by (simp_all add: validate_ai_budget_inputs_None)
  have "0 < ?batches * ?c" using ceil_div_bounds(1) [OF pos(1), of n] assms(2) by linarith
  then have "0 \<le> ?batches * ?p * attempts" using pos by (simp add: zero_less_mult_iff)
  then have "?batches * ?p * attempts \<le> b"
    using est uncut valid assms(2) tenth_nonneg [of "?batches * ?p * attempts"]
    by (auto simp: estimate_ai_budget_def Let_def clamp_budget_cases)
  with ceil_div_bounds [OF pos(1), of n] show ?thesis by blast
qed

lemma ai_budget_covers_work_witness:
  "estimate_ai_budget default_env 100 None None 2 None None = Inr 3300
   \<and> (\<exists>batches. 100 \<le> batches * 4 \<and> batches * 60 * 2 \<le> (3300 :: int))"
proof -
  have e: "estimate_ai_budget default_env 100 None None 2 None None = Inr 3300"
    unfolding default_env_eq by code_simp
  have "(0 :: int) < 100" "3300 < override None (MAX_BUDGET default_env)"
    by (simp_all add: override_def default_env_eq)
  from ai_budget_covers_work [OF e this] e show ?thesis
    by (auto simp: override_def default_env_eq)
qed

text \<open>
  C14. The deadline check is exact: with an active budget, no error is raised precisely while
  the clock has not passed the phase deadline and the session cap and the idle time is
  within the stall window; a budget error means the budget was really used up, a lifetime
  error that the session cap was reached, and a stall error that both deadlines still hold.
\<close>

theorem check_operation_deadline_exact:
  assumes "0 < budget_s" and "0 < started"
  shows "(check_operation_deadline E budget_s started last_at now cap = None \<longleftrightarrow>
            now \<le> started + of_int budget_s \<and> (0 < cap \<longrightarrow> now \<le> cap)
            \<and> idle_time started last_at now \<le> of_int (min (STALL_SECONDS E) budget_s))
       \<and> (\<forall>m. check_operation_deadline E budget_s started last_at now cap
                = Some (OperationDeadlineError Operation_budget_exceeded m) \<longrightarrow> now - started > of_int budget_s)
       \<and> (\<forall>m. check_operation_deadline E budget_s started last_at now cap
                = Some (OperationDeadlineError Session_lifetime_exceeded m) \<longrightarrow> 0 < cap \<and> cap \<le> now)
       \<and> (\<forall>m. check_operation_deadline E budget_s started last_at now cap
                = Some (OperationDeadlineError Operation_stalled m) \<longrightarrow>
                    now \<le> started + of_int budget_s \<and> (0 < cap \<longrightarrow> now \<le> cap))"
  using assms
  by (auto simp: check_operation_deadline_def operation_deadline_mono_def stall_window_def Let_def
      min_def split: if_splits)

lemma check_operation_deadline_exact_witness:
  "(0 :: int) < 600 \<and> (0 :: real) < 10
   \<and> check_operation_deadline default_env 600 10 20 100 0 = None"
proof -
  have pos: "(0 :: int) < 600" "(0 :: real) < 10" by simp_all
  from check_operation_deadline_exact [OF pos, of default_env 20 100 0] pos show ?thesis
    by (simp add: idle_time_def default_env_eq)
qed

end
