(* ===== verification/Operation_Types.thy ===== *)
theory Operation_Types
  imports Complex_Main Prelude
begin

text \<open>
  The gateway's operation data (\<open>operation_types.py\<close>), the delivery of server-sent events to the
  bounded queue of a subscriber (\<open>OperationRegistry._broadcast\<close>) and the subscriber's side of it
  (\<open>operation_events\<close> in \<open>api/operation_router.py\<close>).  Messages and snapshots are JSON values.
\<close>

section \<open>JSON\<close>

datatype json =
    J_null
  | J_bool bool
  | J_int int
  | J_num real
  | J_str string
  | J_list "json list"
  | J_obj "(string \<times> json) list"

type_synonym jobj = "(string, json) dict"

fun j_truthy :: "json \<Rightarrow> bool" where
  "j_truthy J_null = False"
| "j_truthy (J_bool b) = b"
| "j_truthy (J_int i) = (i \<noteq> 0)"
| "j_truthy (J_num r) = (r \<noteq> 0)"
| "j_truthy (J_str s) = (s \<noteq> [])"
| "j_truthy (J_list xs) = (xs \<noteq> [])"
| "j_truthy (J_obj d) = (d \<noteq> [])"

definition j_get :: "jobj \<Rightarrow> string \<Rightarrow> json" where
  "j_get d k = (case dict_get d k of None \<Rightarrow> J_null | Some v \<Rightarrow> v)"

definition j_opt :: "('a \<Rightarrow> json) \<Rightarrow> 'a option \<Rightarrow> json" where
  "j_opt f x = (case x of None \<Rightarrow> J_null | Some v \<Rightarrow> f v)"

section \<open>Statuses and events\<close>

datatype op_status =
    QUEUED | CLONING | SCANNING | ASSESSED | AWAITING_AI_TRIAGE | AWAITING_APPROVAL | APPLYING
  | COMPLETED | SUBMITTING_PR | PR_SUBMITTED | FAILED | EXPIRED | CANCELLED

fun status_value :: "op_status \<Rightarrow> string" where
  "status_value QUEUED = ''queued''"
| "status_value CLONING = ''cloning''"
| "status_value SCANNING = ''scanning''"
| "status_value ASSESSED = ''assessed''"
| "status_value AWAITING_AI_TRIAGE = ''awaiting_ai_triage''"
| "status_value AWAITING_APPROVAL = ''awaiting_approval''"
| "status_value APPLYING = ''applying''"
| "status_value COMPLETED = ''completed''"
| "status_value SUBMITTING_PR = ''submitting_pr''"
| "status_value PR_SUBMITTED = ''pr_submitted''"
| "status_value FAILED = ''failed''"
| "status_value EXPIRED = ''expired''"
| "status_value CANCELLED = ''cancelled''"

definition TERMINAL_STATUSES :: "op_status list" where
  "TERMINAL_STATUSES = [COMPLETED, PR_SUBMITTED, FAILED, EXPIRED, CANCELLED]"

datatype sse_event =
    SNAPSHOT | STATUS_CHANGED | PROGRESS | PROPOSALS | FINDINGS | AI_TRIAGE | PROPOSAL_UPDATED
  | RESULT | APPROVAL_ACK | PR_CREATED | ERROR

fun event_value :: "sse_event \<Rightarrow> string" where
  "event_value SNAPSHOT = ''snapshot''"
| "event_value STATUS_CHANGED = ''status_changed''"
| "event_value PROGRESS = ''progress''"
| "event_value PROPOSALS = ''proposals''"
| "event_value FINDINGS = ''findings''"
| "event_value AI_TRIAGE = ''ai_triage''"
| "event_value PROPOSAL_UPDATED = ''proposal_updated''"
| "event_value RESULT = ''result''"
| "event_value APPROVAL_ACK = ''approval_ack''"
| "event_value PR_CREATED = ''pr_created''"
| "event_value ERROR = ''error_event''"

section \<open>Data\<close>

record progress_entry =
  pe_phase :: string
  pe_message :: string
  pe_timestamp :: string
  pe_progress :: "real option"
  pe_level :: "int option"
  pe_budget_seconds :: "int option"
  pe_ai_completed :: "int option"
  pe_ai_total :: "int option"

record proposal =
  pr_id :: string
  pr_rule_id :: string
  pr_file :: string
  pr_tier :: int
  pr_confidence :: real
  pr_explanation :: string
  pr_diff_hunk :: string
  pr_status :: string
  pr_source :: string
  pr_path :: string
  pr_node_type :: string
  pr_suggestion :: string
  pr_line_start :: int
  pr_line_end :: int
  pr_before_text :: string
  pr_after_text :: string

record op_result =
  re_total_violations :: int
  re_fixable :: int
  re_ai_proposed :: int
  re_ai_declined :: int
  re_ai_accepted :: int
  re_manual_review :: int
  re_remediated_count :: int
  re_fixed_violations :: "json list"
  re_patches :: "json list"

text \<open>Futures and queues are shared objects; the state refers to them by number.\<close>

record approval_gate =
  ag_future :: nat
  ag_prompt_generation :: "int option"
  ag_gate_id :: string

datatype task = Task_running | Task_done

record op_state =
  os_operation_id :: string
  os_project_id :: string
  os_scan_id :: string
  os_status :: op_status
  os_scan_type :: string
  os_started_at :: string
  os_progress :: "progress_entry list"
  os_proposals :: "proposal list option"
  os_findings :: "json list option"
  os_ai_triage_candidates :: "json list option"
  os_result :: "op_result option"
  os_pr_url :: "string option"
  os_error :: "string option"
  os_error_code :: "string option"
  os_operation_budget_seconds :: "int option"
  os_clone_commit :: string
  os_grpc_task :: "task option"
  os_approval_gate :: "approval_gate option"
  os_begin_remediate_future :: "nat option"
  os_escalate_ai_future :: "nat option"
  os_sse_subscribers :: "nat list"

definition progress_json :: "progress_entry \<Rightarrow> jobj" where
  "progress_json p =
     [(''phase'', J_str (pe_phase p)), (''message'', J_str (pe_message p)),
      (''timestamp'', J_str (pe_timestamp p)), (''progress'', j_opt J_num (pe_progress p)),
      (''level'', j_opt J_int (pe_level p)), (''budget_seconds'', j_opt J_int (pe_budget_seconds p)),
      (''ai_completed'', j_opt J_int (pe_ai_completed p)), (''ai_total'', j_opt J_int (pe_ai_total p))]"

definition proposal_json :: "proposal \<Rightarrow> json" where
  "proposal_json p = J_obj
     [(''id'', J_str (pr_id p)), (''rule_id'', J_str (pr_rule_id p)), (''file'', J_str (pr_file p)),
      (''tier'', J_int (pr_tier p)), (''confidence'', J_num (pr_confidence p)),
      (''explanation'', J_str (pr_explanation p)), (''diff_hunk'', J_str (pr_diff_hunk p)),
      (''status'', J_str (pr_status p)), (''source'', J_str (pr_source p)), (''path'', J_str (pr_path p)),
      (''node_type'', J_str (pr_node_type p)), (''suggestion'', J_str (pr_suggestion p)),
      (''line_start'', J_int (pr_line_start p)), (''line_end'', J_int (pr_line_end p)),
      (''before_text'', J_str (pr_before_text p)), (''after_text'', J_str (pr_after_text p))]"

definition result_json :: "op_result \<Rightarrow> jobj" where
  "result_json r =
     [(''total_violations'', J_int (re_total_violations r)), (''fixable'', J_int (re_fixable r)),
      (''ai_proposed'', J_int (re_ai_proposed r)), (''ai_declined'', J_int (re_ai_declined r)),
      (''ai_accepted'', J_int (re_ai_accepted r)), (''manual_review'', J_int (re_manual_review r)),
      (''remediated_count'', J_int (re_remediated_count r)),
      (''fixed_violations'', J_list (re_fixed_violations r)), (''patches'', J_list (re_patches r))]"

definition when_some :: "string \<Rightarrow> ('a \<Rightarrow> json) \<Rightarrow> 'a option \<Rightarrow> jobj" where
  "when_some k f x = (case x of None \<Rightarrow> [] | Some v \<Rightarrow> [(k, f v)])"

definition to_snapshot :: "op_state \<Rightarrow> jobj" where
  "to_snapshot s =
     [(''operation_id'', J_str (os_operation_id s)), (''project_id'', J_str (os_project_id s)),
      (''scan_id'', J_str (os_scan_id s)), (''status'', J_str (status_value (os_status s))),
      (''scan_type'', J_str (os_scan_type s)), (''started_at'', J_str (os_started_at s)),
      (''progress'', J_list (map (\<lambda>p. J_obj (progress_json p)) (os_progress s)))]
     @ when_some ''proposals'' (\<lambda>ps. J_list (map proposal_json ps)) (os_proposals s)
     @ when_some ''findings'' J_list (os_findings s)
     @ when_some ''ai_triage_candidates'' J_list (os_ai_triage_candidates s)
     @ when_some ''result'' (\<lambda>r. J_obj (result_json r)) (os_result s)
     @ when_some ''pr_url'' J_str (os_pr_url s)
     @ when_some ''error'' J_str (os_error s)
     @ when_some ''error_code'' J_str (os_error_code s)
     @ when_some ''operation_budget_seconds'' J_int (os_operation_budget_seconds s)
     @ (if os_clone_commit s = [] then [] else [(''clone_commit'', J_str (os_clone_commit s))])
     @ when_some ''approval_gate_id'' (\<lambda>g. J_str (ag_gate_id g)) (os_approval_gate s)"

section \<open>Messages\<close>

definition message :: "sse_event \<Rightarrow> jobj \<Rightarrow> jobj" where
  "message ev data = [(''event'', J_str (event_value ev)), (''data'', J_obj data)]"

definition close_message :: jobj where
  "close_message = [(''_close'', J_bool True)]"

definition is_close :: "jobj \<Rightarrow> bool" where
  "is_close m \<longleftrightarrow> j_truthy (j_get m ''_close'')"

text \<open>The \<open>status\<close> of the \<open>data\<close> of a message is that of a finished operation.\<close>

definition carries_terminal_status :: "jobj \<Rightarrow> bool" where
  "carries_terminal_status m =
     (case (if j_truthy (j_get m ''data'') then j_get m ''data'' else J_obj []) of
        J_obj d \<Rightarrow> (case j_get d ''status'' of
                      J_str s \<Rightarrow> s \<in> set (map status_value TERMINAL_STATUSES)
                    | _ \<Rightarrow> False)
      | _ \<Rightarrow> False)"

definition is_must_deliver :: "jobj \<Rightarrow> bool" where
  "is_must_deliver m =
     (if j_get m ''event'' \<in> {J_str (event_value RESULT), J_str (event_value PR_CREATED)} then True
      else carries_terminal_status m)"

definition is_terminal :: "jobj \<Rightarrow> bool" where
  "is_terminal m =
     (if j_get m ''event'' = J_str (event_value PR_CREATED) then True else carries_terminal_status m)"

section \<open>The bounded queue of a subscriber\<close>

definition QUEUE_MAXSIZE :: nat where
  "QUEUE_MAXSIZE = 256"

text \<open>One round of the eviction loop: the oldest message that may be lost, else the oldest.\<close>

fun drop_first_droppable :: "jobj list \<Rightarrow> jobj list option" where
  "drop_first_droppable [] = None"
| "drop_first_droppable (m # ms) =
     (if \<not> is_must_deliver m then Some ms else map_option ((#) m) (drop_first_droppable ms))"

definition evict_one :: "jobj list \<Rightarrow> jobj list" where
  "evict_one ms = (case drop_first_droppable ms of Some ms' \<Rightarrow> ms' | None \<Rightarrow> tl ms)"

lemma length_drop_first_droppable:
  "drop_first_droppable ms = Some ms' \<Longrightarrow> Suc (length ms') = length ms"
  by (induction ms arbitrary: ms') (auto split: if_splits)

lemma length_evict_one: "ms \<noteq> [] \<Longrightarrow> Suc (length (evict_one ms)) = length ms"
  by (auto simp: evict_one_def length_drop_first_droppable split: option.splits)

function make_room :: "nat \<Rightarrow> jobj list \<Rightarrow> jobj list" where
  "make_room maxsize ms = (if maxsize > 0 \<and> length ms \<ge> maxsize then make_room maxsize (evict_one ms) else ms)"
  by auto
termination
proof (relation "measure (\<lambda>(maxsize, ms). length ms)")
  fix maxsize :: nat and ms :: "jobj list"
  assume "maxsize > 0 \<and> maxsize \<le> length ms"
  then have "ms \<noteq> []" by auto
  from length_evict_one [OF this] show "((maxsize, evict_one ms), maxsize, ms) \<in> measure (\<lambda>(maxsize, ms). length ms)"
    by simp
qed simp

declare make_room.simps [simp del]

text \<open>The body of the loop of \<open>_broadcast\<close>; \<open>None\<close> says that the subscriber is dropped.\<close>

definition enqueue :: "jobj \<Rightarrow> jobj list \<Rightarrow> jobj list option" where
  "enqueue m q =
     (if length q < QUEUE_MAXSIZE then Some (q @ [m])
      else if \<not> is_must_deliver m then None
      else Some (make_room QUEUE_MAXSIZE q @ [m]))"

section \<open>The subscriber's stream\<close>

definition sse_out :: "jobj \<Rightarrow> string \<times> jobj" where
  "sse_out m =
     ((case j_get m ''event'' of J_str s \<Rightarrow> s | _ \<Rightarrow> ''message''),
      (case (if j_truthy (j_get m ''data'') then j_get m ''data'' else J_obj []) of J_obj d \<Rightarrow> d | _ \<Rightarrow> []))"

text \<open>Draining without waiting: up to a close message or the end, only what must be delivered.\<close>

definition drain :: "jobj list \<Rightarrow> jobj list" where
  "drain q = filter is_must_deliver (takeWhile (\<lambda>m. \<not> is_close m) q)"

text \<open>One turn of the live loop on a non-empty queue: messages sent on, the queue left, and whether
  the stream ends.\<close>

fun stream_turn :: "jobj list \<Rightarrow> jobj list \<times> jobj list \<times> bool" where
  "stream_turn [] = ([], [], False)"
| "stream_turn (m # q) =
     (if is_close m then ([], q, True)
      else if is_terminal m
      then (m # drain q, drop (Suc (length (takeWhile (\<lambda>m. \<not> is_close m) q))) q, True)
      else ([m], q, False))"

text \<open>The loop on what the queue holds, until it ends or would wait.\<close>

fun live_stream :: "jobj list \<Rightarrow> jobj list \<times> bool" where
  "live_stream [] = ([], False)"
| "live_stream (m # q) =
     (let (sent, rest, ended) = stream_turn (m # q)
      in if ended then (sent, True) else (let (more, ended) = live_stream q in (sent @ more, ended)))"

definition event_stream :: "op_state \<Rightarrow> jobj list \<Rightarrow> (string \<times> jobj) list \<times> bool" where
  "event_stream s q =
     (if os_status s \<in> set TERMINAL_STATUSES
      then ((event_value SNAPSHOT, to_snapshot s) # map sse_out (drain q), True)
      else (let (sent, ended) = live_stream q
            in ((event_value SNAPSHOT, to_snapshot s) # map sse_out sent, ended)))"

section \<open>Delivery\<close>

text \<open>
  What a queue promises is the log of messages that must be delivered.  Abstractly that log grows
  without bound; the bounded queue implements it as long as it holds fewer such messages than it
  has room for.
\<close>

definition delivery_log :: "jobj list \<Rightarrow> jobj list" where
  "delivery_log q = filter is_must_deliver q"

definition log_message :: "jobj \<Rightarrow> jobj list \<Rightarrow> jobj list" where
  "log_message m l = (if is_must_deliver m then l @ [m] else l)"

lemma drop_first_droppable_log:
  "drop_first_droppable ms = Some ms' \<Longrightarrow> delivery_log ms' = delivery_log ms"
  by (induction ms arbitrary: ms') (auto simp: delivery_log_def split: if_splits)

lemma drop_first_droppable_None: "drop_first_droppable ms = None \<longleftrightarrow> delivery_log ms = ms"
  by (induction ms) (auto simp: delivery_log_def filter_id_conv split: if_splits dest: filter_eq_ConsD)

lemma length_make_room: "maxsize > 0 \<Longrightarrow> length (make_room maxsize ms) < maxsize"
proof (induction maxsize ms rule: make_room.induct)
  case (1 maxsize ms)
  then show ?case by (subst make_room.simps) auto
qed

lemma drop_first_droppable_subset: "drop_first_droppable ms = Some ms' \<Longrightarrow> set ms' \<subseteq> set ms"
  by (induction ms arbitrary: ms') (auto split: if_splits)

lemma evict_one_subset: "set (evict_one ms) \<subseteq> set ms"
  by (auto simp: evict_one_def dest: drop_first_droppable_subset list.set_sel(2) [rotated] split: option.splits)
    (metis list.set_sel(2) list.sel(2))

lemma make_room_subset: "set (make_room maxsize ms) \<subseteq> set ms"
proof (induction maxsize ms rule: make_room.induct)
  case (1 maxsize ms)
  then show ?case using evict_one_subset [of ms] by (subst make_room.simps) auto
qed

lemma make_room_log:
  "length (delivery_log ms) < maxsize \<Longrightarrow> delivery_log (make_room maxsize ms) = delivery_log ms"
proof (induction maxsize ms rule: make_room.induct)
  case (1 maxsize ms)
  have "delivery_log (evict_one ms) = delivery_log ms" if "length ms \<ge> maxsize"
  proof -
    have "drop_first_droppable ms \<noteq> None" using 1(2) that by (auto simp: drop_first_droppable_None)
    then show ?thesis by (auto simp: evict_one_def drop_first_droppable_log)
  qed
  with 1 show ?case by (subst make_room.simps) auto
qed

lemma enqueue_log:
  assumes "length (delivery_log q) < QUEUE_MAXSIZE" and "enqueue m q = Some q'"
  shows "delivery_log q' = log_message m (delivery_log q)"
  using assms make_room_log [OF assms(1)]
  by (auto simp: enqueue_def log_message_def delivery_log_def split: if_splits)

lemma enqueue_bounded: "length q \<le> QUEUE_MAXSIZE \<Longrightarrow> enqueue m q = Some q' \<Longrightarrow> length q' \<le> QUEUE_MAXSIZE"
  using length_make_room [of QUEUE_MAXSIZE q]
  by (auto simp: enqueue_def QUEUE_MAXSIZE_def split: if_splits)

lemma enqueue_must: "is_must_deliver m \<Longrightarrow> \<exists>q'. enqueue m q = Some q' \<and> last q' = m"
  by (auto simp: enqueue_def)

lemma terminal_must: "is_terminal m \<Longrightarrow> is_must_deliver m"
  by (auto simp: is_terminal_def is_must_deliver_def split: if_splits)

lemma live_stream_closes:
  assumes "\<exists>m\<in>set q. is_close m \<or> is_terminal m"
  shows "snd (live_stream q) \<and> delivery_log (fst (live_stream q)) = drain q"
  using assms
proof (induction q)
  case (Cons m q)
  then show ?case
    using terminal_must [of m] by (auto simp: drain_def delivery_log_def Let_def case_prod_unfold)
qed simp

end
