(* ===== verification/Operations.thy ===== *)
theory Operations
  imports Operation_Types
begin

text \<open>
  \<open>operation_registry.py\<close> and the request handlers, timeouts and bridge steps of
  \<open>api/operation_router.py\<close> that change its state.  Handlers run on one event loop, so every
  piece of code between two waits is one step.  \<open>rg_committing\<close> holds the handlers that wait for
  the database inside \<open>approval_gate_lock\<close>: the operation, the future of the gate and the ids they
  will resolve it with.  \<open>rg_cancelled\<close> lists the driver tasks told to cancel.  Identifiers, clock
  readings, the texts of the database layer and the detail texts of errors are arguments.
\<close>

section \<open>State\<close>

datatype future = Fut_pending | Fut_none | Fut_ids "string list" | Fut_targets "json list" | Fut_cancelled

record registry_state =
  rg_ops :: "(string, op_state) dict"
  rg_by_project :: "(string, string) dict"
  rg_terminal_times :: "(string, real) dict"
  rg_futures :: "(nat, future) dict"
  rg_queues :: "(nat, jobj list) dict"
  rg_next :: nat
  rg_committing :: "(string \<times> nat \<times> string list) list"
  rg_cancelled :: "string list"

definition empty_registry :: registry_state where
  "empty_registry =
     \<lparr>rg_ops = [], rg_by_project = [], rg_terminal_times = [], rg_futures = [], rg_queues = [], rg_next = 0,
      rg_committing = [], rg_cancelled = []\<rparr>"

datatype op_error =
    Active_operation string string
  | Active_on_removal
  | Http_error nat string
  | Invalid_state_error

definition FINDINGS_ALLOWED_STATUSES :: "op_status list" where
  "FINDINGS_ALLOWED_STATUSES = [QUEUED, CLONING, SCANNING, ASSESSED]"

definition AI_TRIAGE_ALLOWED_STATUSES :: "op_status list" where
  "AI_TRIAGE_ALLOWED_STATUSES = [QUEUED, CLONING, SCANNING, ASSESSED, APPLYING, AWAITING_AI_TRIAGE]"

abbreviation terminal :: "op_state \<Rightarrow> bool" where
  "terminal op \<equiv> os_status op \<in> set TERMINAL_STATUSES"

definition registry_get :: "registry_state \<Rightarrow> string \<Rightarrow> op_state option" where
  "registry_get R o' = dict_get (rg_ops R) o'"

definition get_by_project :: "registry_state \<Rightarrow> string \<Rightarrow> op_state option" where
  "get_by_project R p = (case dict_get (rg_by_project R) p of None \<Rightarrow> None | Some o' \<Rightarrow> dict_get (rg_ops R) o')"

definition list_active :: "registry_state \<Rightarrow> op_state list" where
  "list_active R = filter (\<lambda>op. \<not> terminal op) (map snd (rg_ops R))"

definition update_op :: "string \<Rightarrow> (op_state \<Rightarrow> op_state) \<Rightarrow> registry_state \<Rightarrow> registry_state" where
  "update_op o' f R =
     (case dict_get (rg_ops R) o' of None \<Rightarrow> R | Some op \<Rightarrow> R\<lparr>rg_ops := dict_set o' (f op) (rg_ops R)\<rparr>)"

section \<open>Futures\<close>

definition fut_pending :: "registry_state \<Rightarrow> nat \<Rightarrow> bool" where
  "fut_pending R f \<longleftrightarrow> dict_get (rg_futures R) f = Some Fut_pending"

definition write_future :: "nat \<Rightarrow> future \<Rightarrow> registry_state \<Rightarrow> registry_state" where
  "write_future f v R = R\<lparr>rg_futures := dict_set f v (rg_futures R)\<rparr>"

text \<open>\<open>if fut is not None and not fut.done(): fut.set_result(v)\<close>, and the same with \<open>cancel\<close>.\<close>

definition settle :: "nat option \<Rightarrow> future \<Rightarrow> registry_state \<Rightarrow> registry_state" where
  "settle slot v R =
     (case slot of None \<Rightarrow> R | Some f \<Rightarrow> if fut_pending R f then write_future f v R else R)"

definition create_future :: "registry_state \<Rightarrow> registry_state \<times> nat" where
  "create_future R =
     (R\<lparr>rg_futures := dict_set (rg_next R) Fut_pending (rg_futures R), rg_next := Suc (rg_next R)\<rparr>, rg_next R)"

section \<open>Events\<close>

definition queue_of :: "(nat, jobj list) dict \<Rightarrow> nat \<Rightarrow> jobj list" where
  "queue_of qs i = (case dict_get qs i of None \<Rightarrow> [] | Some q \<Rightarrow> q)"

text \<open>The queues after the loop of \<open>_broadcast\<close>, and the subscribers that stay.\<close>

fun deliver :: "jobj \<Rightarrow> nat list \<Rightarrow> (nat, jobj list) dict \<Rightarrow> (nat, jobj list) dict \<times> nat list" where
  "deliver m [] qs = (qs, [])"
| "deliver m (i # is) qs =
     (case enqueue m (queue_of qs i) of
        None \<Rightarrow> deliver m is qs
      | Some q \<Rightarrow> (let (qs, kept) = deliver m is (dict_set i q qs) in (qs, i # kept)))"

definition broadcast :: "string \<Rightarrow> sse_event \<Rightarrow> jobj \<Rightarrow> registry_state \<Rightarrow> registry_state" where
  "broadcast o' ev data R =
     (case dict_get (rg_ops R) o' of
        None \<Rightarrow> R
      | Some op \<Rightarrow>
          (let (qs, kept) = deliver (message ev data) (os_sse_subscribers op) (rg_queues R)
           in R\<lparr>rg_queues := qs, rg_ops := dict_set o' (op\<lparr>os_sse_subscribers := kept\<rparr>) (rg_ops R)\<rparr>))"

definition send_close :: "nat list \<Rightarrow> (nat, jobj list) dict \<Rightarrow> (nat, jobj list) dict" where
  "send_close is qs =
     fold (\<lambda>i qs. let q = queue_of qs i
                  in if length q < QUEUE_MAXSIZE then dict_set i (q @ [close_message]) qs else qs) is qs"

section \<open>Life cycle\<close>

definition cancel_task :: "op_state \<Rightarrow> registry_state \<Rightarrow> registry_state" where
  "cancel_task op R =
     (if os_grpc_task op = Some Task_running then R\<lparr>rg_cancelled := rg_cancelled R @ [os_operation_id op]\<rparr> else R)"

definition registry_remove :: "string \<Rightarrow> registry_state \<Rightarrow> registry_state" where
  "registry_remove o' R =
     (case dict_get (rg_ops R) o' of
        None \<Rightarrow> R
      | Some op \<Rightarrow>
          (let R = cancel_task op R
           in R\<lparr>rg_ops := dict_pop o' (rg_ops R), rg_terminal_times := dict_pop o' (rg_terminal_times R),
                rg_by_project := (if dict_get (rg_by_project R) (os_project_id op) = Some o'
                                  then dict_pop (os_project_id op) (rg_by_project R) else rg_by_project R),
                rg_queues := send_close (os_sse_subscribers op) (rg_queues R)\<rparr>))"

definition shutdown :: "registry_state \<Rightarrow> registry_state" where
  "shutdown R =
     (let R = fold (\<lambda>(o', op) R. (cancel_task op R)\<lparr>rg_queues := send_close (os_sse_subscribers op) (rg_queues R)\<rparr>)
                (rg_ops R) R
      in R\<lparr>rg_ops := [], rg_by_project := [], rg_terminal_times := []\<rparr>)"

definition new_operation :: "string \<Rightarrow> string \<Rightarrow> string \<Rightarrow> string \<Rightarrow> string \<Rightarrow> op_state" where
  "new_operation o' p scan scan_type started =
     \<lparr>os_operation_id = o', os_project_id = p, os_scan_id = scan, os_status = QUEUED, os_scan_type = scan_type,
      os_started_at = started, os_progress = [], os_proposals = None, os_findings = None,
      os_ai_triage_candidates = None, os_result = None, os_pr_url = None, os_error = None,
      os_error_code = None, os_operation_budget_seconds = None, os_clone_commit = [], os_grpc_task = None,
      os_approval_gate = None, os_begin_remediate_future = None, os_escalate_ai_future = None,
      os_sse_subscribers = []\<rparr>"

definition registry_create ::
  "string \<Rightarrow> string \<Rightarrow> string \<Rightarrow> string \<Rightarrow> string \<Rightarrow> registry_state \<Rightarrow> op_error + registry_state" where
  "registry_create o' p scan scan_type started R =
     (let insert_new = (\<lambda>R. R\<lparr>rg_ops := dict_set o' (new_operation o' p scan scan_type started) (rg_ops R),
                              rg_by_project := dict_set p o' (rg_by_project R)\<rparr>)
      in case dict_get (rg_by_project R) p of
           None \<Rightarrow> Inr (insert_new R)
         | Some e \<Rightarrow>
             (if e = [] then Inr (insert_new R)
              else case dict_get (rg_ops R) e of
                     None \<Rightarrow> Inr (insert_new R)
                   | Some existing \<Rightarrow>
                       (if \<not> terminal existing then Inl (Active_operation p e)
                        else Inr (insert_new (registry_remove e R)))))"

definition remove_project :: "string \<Rightarrow> registry_state \<Rightarrow> op_error + registry_state" where
  "remove_project p R =
     (case get_by_project R p of
        None \<Rightarrow> Inr R
      | Some op \<Rightarrow> (if \<not> terminal op then Inl Active_on_removal else Inr (registry_remove (os_operation_id op) R)))"

definition reap :: "real \<Rightarrow> real \<Rightarrow> registry_state \<Rightarrow> registry_state" where
  "reap now ttl R =
     fold registry_remove (map fst (filter (\<lambda>(_, ts). now - ts \<ge> ttl) (rg_terminal_times R))) R"

definition subscribe :: "string \<Rightarrow> registry_state \<Rightarrow> registry_state \<times> nat option" where
  "subscribe o' R =
     (case dict_get (rg_ops R) o' of
        None \<Rightarrow> (R, None)
      | Some op \<Rightarrow>
          (let i = rg_next R
           in (update_op o' (\<lambda>op. op\<lparr>os_sse_subscribers := os_sse_subscribers op @ [i]\<rparr>)
                 (R\<lparr>rg_queues := dict_set i [] (rg_queues R), rg_next := Suc i\<rparr>), Some i)))"

definition unsubscribe :: "string \<Rightarrow> nat \<Rightarrow> registry_state \<Rightarrow> registry_state" where
  "unsubscribe o' i R = update_op o' (\<lambda>op. op\<lparr>os_sse_subscribers := remove1 i (os_sse_subscribers op)\<rparr>) R"

section \<open>Transitions\<close>

text \<open>The callers pass at most \<open>error\<close> and \<open>error_code\<close> as extra attributes.\<close>

definition transition ::
  "real \<Rightarrow> string \<Rightarrow> op_status \<Rightarrow> string option \<Rightarrow> string option \<Rightarrow> registry_state \<Rightarrow> registry_state" where
  "transition now o' new_status err code R =
     (case dict_get (rg_ops R) o' of
        None \<Rightarrow> R
      | Some op \<Rightarrow>
          (let op' = op\<lparr>os_status := new_status,
                        os_error := (case err of None \<Rightarrow> os_error op | Some e \<Rightarrow> Some e),
                        os_error_code := (case code of None \<Rightarrow> os_error_code op | Some c \<Rightarrow> Some c)\<rparr>;
               R = R\<lparr>rg_ops := dict_set o' op' (rg_ops R),
                     rg_terminal_times := (if new_status \<in> set TERMINAL_STATUSES
                                           then dict_set o' now (rg_terminal_times R) else rg_terminal_times R)\<rparr>
           in broadcast o' STATUS_CHANGED
                ([(''status'', J_str (status_value new_status)), (''previous'', J_str (status_value (os_status op)))]
                 @ when_some ''error'' J_str err @ when_some ''error_code'' J_str code) R))"

definition set_operation_budget :: "string \<Rightarrow> int \<Rightarrow> registry_state \<Rightarrow> registry_state" where
  "set_operation_budget o' budget R =
     (case dict_get (rg_ops R) o' of
        None \<Rightarrow> R
      | Some op \<Rightarrow>
          (if budget \<le> 0 then R
           else broadcast o' STATUS_CHANGED
                  [(''status'', J_str (status_value (os_status op))), (''previous'', J_str (status_value (os_status op))),
                   (''operation_budget_seconds'', J_int budget)]
                  (update_op o' (\<lambda>op. op\<lparr>os_operation_budget_seconds := Some budget\<rparr>) R)))"

definition add_progress :: "string \<Rightarrow> progress_entry \<Rightarrow> registry_state \<Rightarrow> registry_state" where
  "add_progress o' entry R =
     broadcast o' PROGRESS (progress_json entry)
       (update_op o' (\<lambda>op. op\<lparr>os_progress := os_progress op @ [entry]\<rparr>) R)"

definition ensure_begin_future :: "string \<Rightarrow> registry_state \<Rightarrow> registry_state" where
  "ensure_begin_future o' R =
     (case dict_get (rg_ops R) o' of
        None \<Rightarrow> R
      | Some op \<Rightarrow>
          (if os_begin_remediate_future op \<noteq> None then R
           else (let (R, f) = create_future R in update_op o' (\<lambda>op. op\<lparr>os_begin_remediate_future := Some f\<rparr>) R)))"

definition set_findings :: "real \<Rightarrow> string \<Rightarrow> json list \<Rightarrow> registry_state \<Rightarrow> registry_state" where
  "set_findings now o' findings R =
     (case dict_get (rg_ops R) o' of
        None \<Rightarrow> R
      | Some op \<Rightarrow>
          (if os_status op \<notin> set FINDINGS_ALLOWED_STATUSES then R
           else (let R = update_op o' (\<lambda>op. op\<lparr>os_findings := Some findings\<rparr>) R;
                     R = ensure_begin_future o' R;
                     R = transition now o' ASSESSED None None R
                 in broadcast o' FINDINGS [(''findings'', J_list findings)] R)))"

definition ensure_escalate_future :: "string \<Rightarrow> registry_state \<Rightarrow> registry_state" where
  "ensure_escalate_future o' R =
     (case dict_get (rg_ops R) o' of
        None \<Rightarrow> R
      | Some op \<Rightarrow>
          (if os_escalate_ai_future op \<noteq> None then R
           else (let (R, f) = create_future R in update_op o' (\<lambda>op. op\<lparr>os_escalate_ai_future := Some f\<rparr>) R)))"

definition triage_replayed :: "registry_state \<Rightarrow> op_state \<Rightarrow> bool" where
  "triage_replayed R op \<longleftrightarrow>
     os_status op = APPLYING \<and> os_ai_triage_candidates op \<noteq> None \<and>
     (case os_escalate_ai_future op of None \<Rightarrow> True | Some f \<Rightarrow> \<not> fut_pending R f)"

definition set_ai_triage :: "real \<Rightarrow> string \<Rightarrow> json list \<Rightarrow> registry_state \<Rightarrow> registry_state" where
  "set_ai_triage now o' candidates R =
     (case dict_get (rg_ops R) o' of
        None \<Rightarrow> R
      | Some op \<Rightarrow>
          (if os_status op \<notin> set AI_TRIAGE_ALLOWED_STATUSES then R
           else if triage_replayed R op then R
           else (let R = settle (os_begin_remediate_future op) Fut_none R;
                     R = update_op o' (\<lambda>op. op\<lparr>os_ai_triage_candidates := Some candidates\<rparr>) R;
                     R = ensure_escalate_future o' R;
                     R = transition now o' AWAITING_AI_TRIAGE None None R
                 in broadcast o' AI_TRIAGE [(''candidates'', J_list candidates)] R)))"

text \<open>\<open>approval_gate_lock\<close> is taken while a handler waits for the database.\<close>

definition gate_locked :: "registry_state \<Rightarrow> string \<Rightarrow> bool" where
  "gate_locked R o' \<longleftrightarrow> o' \<in> set (map fst (rg_committing R))"

definition gate_future :: "op_state \<Rightarrow> nat option" where
  "gate_future op = map_option ag_future (os_approval_gate op)"

text \<open>\<open>set_proposals\<close> once it has the lock; the identifier of the new gate is an argument.\<close>

definition set_proposals ::
  "real \<Rightarrow> string \<Rightarrow> string \<Rightarrow> proposal list \<Rightarrow> int option \<Rightarrow> registry_state \<Rightarrow> registry_state" where
  "set_proposals now gate_id o' proposals generation R =
     (case dict_get (rg_ops R) o' of
        None \<Rightarrow> R
      | Some op \<Rightarrow>
          (let R = settle (os_begin_remediate_future op) Fut_none R;
               R = settle (os_escalate_ai_future op) (Fut_targets []) R;
               R = update_op o' (\<lambda>op. op\<lparr>os_proposals := Some proposals\<rparr>) R;
               R = settle (gate_future op) (Fut_ids []) R;
               (R, f) = create_future R;
               gate = \<lparr>ag_future = f, ag_prompt_generation = generation, ag_gate_id = gate_id\<rparr>;
               R = update_op o' (\<lambda>op. op\<lparr>os_approval_gate := Some gate\<rparr>) R;
               R = transition now o' AWAITING_APPROVAL None None R
           in broadcast o' PROPOSALS
                [(''proposals'', J_list (map proposal_json proposals)), (''approval_gate_id'', J_str gate_id)] R))"

definition broadcast_proposal_updated :: "string \<Rightarrow> json list \<Rightarrow> registry_state \<Rightarrow> registry_state" where
  "broadcast_proposal_updated o' proposals R = broadcast o' PROPOSAL_UPDATED [(''proposals'', J_list proposals)] R"

definition set_result :: "string \<Rightarrow> op_result \<Rightarrow> registry_state \<Rightarrow> registry_state" where
  "set_result o' result R =
     broadcast o' RESULT (result_json result) (update_op o' (\<lambda>op. op\<lparr>os_result := Some result\<rparr>) R)"

definition set_pr_url :: "real \<Rightarrow> string \<Rightarrow> string \<Rightarrow> registry_state \<Rightarrow> registry_state" where
  "set_pr_url now o' url R =
     (let R = update_op o' (\<lambda>op. op\<lparr>os_pr_url := Some url\<rparr>) R;
          R = transition now o' PR_SUBMITTED None None R
      in broadcast o' PR_CREATED [(''pr_url'', J_str url)] R)"

section \<open>Request handlers\<close>

definition conflict :: "string \<Rightarrow> op_error + 'a" where
  "conflict detail = Inl (Http_error 409 detail)"

definition approved_of :: "string list \<Rightarrow> op_state \<Rightarrow> string list" where
  "approved_of ids op =
     filter (\<lambda>pid. pid \<in> set ids) (map pr_id (case os_proposals op of None \<Rightarrow> [] | Some ps \<Rightarrow> ps))"

text \<open>
  \<open>approve_proposals\<close>: the checks before the lock, the part inside the lock up to the wait for the
  database, and the end of the handler, \<open>approve_commit\<close>, or \<open>approve_abort\<close> when the database fails.
  A request that has to wait for the lock goes on with the gate it saw before.
\<close>

definition approve_precheck :: "string \<Rightarrow> registry_state \<Rightarrow> op_error + string \<times> approval_gate" where
  "approve_precheck p R =
     (case get_by_project R p of
        None \<Rightarrow> Inl (Http_error 404 ''No operation for this project'')
      | Some op \<Rightarrow>
          (if os_status op \<noteq> AWAITING_APPROVAL then conflict ''not awaiting_approval''
           else case os_approval_gate op of
                  None \<Rightarrow> conflict ''Approval already submitted''
                | Some gate \<Rightarrow>
                    (if \<not> fut_pending R (ag_future gate) then conflict ''Approval already submitted''
                     else Inr (os_operation_id op, gate))))"

definition approve_locked ::
  "string \<Rightarrow> approval_gate \<Rightarrow> string list \<Rightarrow> string option \<Rightarrow> registry_state \<Rightarrow> op_error + registry_state" where
  "approve_locked o' gate ids wanted_gate R =
     (case dict_get (rg_ops R) o' of
        None \<Rightarrow> Inl (Http_error 404 ''No operation for this project'')
      | Some op \<Rightarrow>
          (if \<not> fut_pending R (ag_future gate) then conflict ''Approval already submitted''
           else if gate_future op \<noteq> Some (ag_future gate) then conflict ''Approval superseded by newer proposals''
           else if wanted_gate \<noteq> None \<and> wanted_gate \<noteq> Some (ag_gate_id gate)
           then conflict ''Approval superseded by newer proposals''
           else Inr (R\<lparr>rg_committing := (o', ag_future gate, approved_of ids op) # rg_committing R\<rparr>)))"

definition approve_begin ::
  "string \<Rightarrow> string list \<Rightarrow> string option \<Rightarrow> registry_state \<Rightarrow> op_error + registry_state" where
  "approve_begin p ids wanted_gate R =
     (case approve_precheck p R of
        Inl e \<Rightarrow> Inl e
      | Inr (o', gate) \<Rightarrow> approve_locked o' gate ids wanted_gate R)"

fun take_committing ::
  "string \<Rightarrow> (string \<times> nat \<times> string list) list \<Rightarrow> ((nat \<times> string list) \<times> (string \<times> nat \<times> string list) list) option" where
  "take_committing o' [] = None"
| "take_committing o' ((q, x) # cs) =
     (if q = o' then Some (x, cs) else map_option (\<lambda>(y, ds). (y, (q, x) # ds)) (take_committing o' cs))"

text \<open>\<open>gate.future.set_result(approved)\<close> raises when the future is done already.\<close>

definition approve_commit :: "string \<Rightarrow> registry_state \<Rightarrow> op_error + registry_state" where
  "approve_commit o' R =
     (case take_committing o' (rg_committing R) of
        None \<Rightarrow> Inr R
      | Some ((f, ids), cs) \<Rightarrow>
          (let R = R\<lparr>rg_committing := cs\<rparr>
           in if fut_pending R f then Inr (write_future f (Fut_ids ids) R) else Inl Invalid_state_error))"

definition approve_abort :: "string \<Rightarrow> registry_state \<Rightarrow> registry_state" where
  "approve_abort o' R =
     (case take_committing o' (rg_committing R) of None \<Rightarrow> R | Some (_, cs) \<Rightarrow> R\<lparr>rg_committing := cs\<rparr>)"

definition begin_remediate :: "string \<Rightarrow> registry_state \<Rightarrow> op_error + registry_state" where
  "begin_remediate p R =
     (case get_by_project R p of
        None \<Rightarrow> Inl (Http_error 404 ''No operation for this project'')
      | Some op \<Rightarrow>
          (if os_status op \<noteq> ASSESSED then conflict ''invalid_status''
           else case os_begin_remediate_future op of
                  None \<Rightarrow> (if os_scan_type op = ''remediate'' then Inr R else conflict ''session_expired'')
                | Some f \<Rightarrow>
                    (if fut_pending R f
                     then Inr (write_future f Fut_none
                                (update_op (os_operation_id op) (\<lambda>op. op\<lparr>os_scan_type := ''remediate''\<rparr>) R))
                     else Inr R)))"

definition escalate_ai :: "real \<Rightarrow> string \<Rightarrow> json list \<Rightarrow> registry_state \<Rightarrow> op_error + registry_state" where
  "escalate_ai now p targets R =
     (case get_by_project R p of
        None \<Rightarrow> Inl (Http_error 404 ''No operation for this project'')
      | Some op \<Rightarrow>
          (if os_status op \<noteq> AWAITING_AI_TRIAGE then conflict ''invalid_status''
           else if os_escalate_ai_future op = None then conflict ''session_expired''
           else Inr (transition now (os_operation_id op) APPLYING None None
                       (settle (os_escalate_ai_future op) (Fut_targets targets) R))))"

text \<open>The draft updates as the database layer returns them: engine id and status.\<close>

fun mirror_draft :: "(string \<times> string) list \<Rightarrow> proposal \<Rightarrow> proposal" where
  "mirror_draft [] pr = pr"
| "mirror_draft ((engine_id, status) # us) pr =
     mirror_draft us (if engine_id \<noteq> [] \<and> engine_id = pr_id pr \<and> status \<noteq> [] then pr\<lparr>pr_status := status\<rparr> else pr)"

definition patch_draft_proposals ::
  "string \<Rightarrow> (string \<times> string) list \<Rightarrow> json list \<Rightarrow> registry_state \<Rightarrow> op_error + registry_state" where
  "patch_draft_proposals p updated payloads R =
     (case get_by_project R p of
        None \<Rightarrow> Inl (Http_error 404 ''No operation for this project'')
      | Some op \<Rightarrow>
          (if os_status op \<noteq> AWAITING_APPROVAL then conflict ''not awaiting_approval''
           else Inr (broadcast_proposal_updated (os_operation_id op) payloads
                       (update_op (os_operation_id op)
                          (\<lambda>op. op\<lparr>os_proposals := map_option (map (mirror_draft updated)) (os_proposals op)\<rparr>) R))))"

text \<open>\<open>cancel_operation\<close> up to the lock, and with the lock.\<close>

definition cancel_begin :: "real \<Rightarrow> string \<Rightarrow> registry_state \<Rightarrow> op_error + registry_state" where
  "cancel_begin now p R =
     (case get_by_project R p of
        None \<Rightarrow> Inl (Http_error 404 ''No operation for this project'')
      | Some op \<Rightarrow>
          (if terminal op then conflict ''Operation already in terminal state''
           else Inr (cancel_task op (transition now (os_operation_id op) CANCELLED None None R))))"

definition cancel_finish :: "string \<Rightarrow> registry_state \<Rightarrow> registry_state" where
  "cancel_finish o' R =
     (case dict_get (rg_ops R) o' of
        None \<Rightarrow> R
      | Some op \<Rightarrow>
          settle (os_escalate_ai_future op) Fut_cancelled
            (settle (os_begin_remediate_future op) Fut_cancelled (settle (gate_future op) (Fut_ids []) R)))"

section \<open>Timeouts and the bridge\<close>

definition on_begin_timeout :: "string \<Rightarrow> registry_state \<Rightarrow> registry_state" where
  "on_begin_timeout o' R =
     (case dict_get (rg_ops R) o' of
        None \<Rightarrow> R
      | Some op \<Rightarrow>
          (if os_status op \<noteq> ASSESSED then R
           else case os_begin_remediate_future op of
                  None \<Rightarrow> R
                | Some f \<Rightarrow>
                    (if fut_pending R f
                     then write_future f Fut_none (update_op o' (\<lambda>op. op\<lparr>os_scan_type := ''remediate''\<rparr>) R) else R)))"

definition on_escalate_timeout :: "string \<Rightarrow> registry_state \<Rightarrow> registry_state" where
  "on_escalate_timeout o' R =
     (case dict_get (rg_ops R) o' of
        None \<Rightarrow> R
      | Some op \<Rightarrow>
          update_op o' (\<lambda>op. op\<lparr>os_escalate_ai_future := None\<rparr>) (settle (os_escalate_ai_future op) (Fut_targets []) R))"

text \<open>\<open>_on_approve_timeout\<close> up to the wait for the database; a database error is ignored there.\<close>

definition approve_timeout_begin :: "string \<Rightarrow> registry_state \<Rightarrow> registry_state" where
  "approve_timeout_begin o' R =
     (case dict_get (rg_ops R) o' of
        None \<Rightarrow> R
      | Some op \<Rightarrow>
          (if os_status op \<noteq> AWAITING_APPROVAL then R
           else case os_approval_gate op of
                  None \<Rightarrow> R
                | Some gate \<Rightarrow>
                    (if \<not> fut_pending R (ag_future gate) then R
                     else R\<lparr>rg_committing := (o', ag_future gate, []) # rg_committing R\<rparr>)))"

text \<open>The bridge, once the future it waits for is done: the answer it forwards is not modelled.\<close>

definition bridge_gate :: "string \<Rightarrow> nat \<Rightarrow> registry_state \<Rightarrow> registry_state" where
  "bridge_gate o' f R =
     update_op o' (\<lambda>op. if gate_future op = Some f then op\<lparr>os_approval_gate := None\<rparr> else op) R"

definition bridge_begin :: "string \<Rightarrow> registry_state \<Rightarrow> registry_state" where
  "bridge_begin o' R =
     update_op o' (\<lambda>op. if terminal op then op else op\<lparr>os_begin_remediate_future := None\<rparr>) R"

definition bridge_escalate :: "string \<Rightarrow> registry_state \<Rightarrow> registry_state" where
  "bridge_escalate o' R = update_op o' (\<lambda>op. op\<lparr>os_escalate_ai_future := None\<rparr>) R"

text \<open>The end of \<open>_drive_operation\<close>: with a result, without one, cancelled, or with an error.\<close>

datatype drive_end = Drive_result | Drive_no_result | Drive_cancelled | Drive_error string

definition drive_finish :: "real \<Rightarrow> string \<Rightarrow> drive_end \<Rightarrow> registry_state \<Rightarrow> registry_state" where
  "drive_finish now o' e R =
     (case e of
        Drive_result \<Rightarrow>
          (case dict_get (rg_ops R) o' of
             None \<Rightarrow> R | Some op \<Rightarrow> if terminal op then R else transition now o' COMPLETED None None R)
      | Drive_no_result \<Rightarrow>
          (case dict_get (rg_ops R) o' of
             None \<Rightarrow> R
           | Some op \<Rightarrow> if terminal op then R
                        else transition now o' FAILED (Some ''Session ended without a result'') (Some ''no_result'') R)
      | Drive_cancelled \<Rightarrow> transition now o' CANCELLED None None R
      | Drive_error s \<Rightarrow> transition now o' FAILED (Some s) None R)"

end
