(* ===== verification/Operation_Props.thy ===== *)
theory Operation_Props
  imports Operations
begin

text \<open>
  The operation registry under every interleaving of its calls, the request handlers, the
  timeouts, the bridge and the driver: its indexes stay consistent, its queues bounded, and a
  future is written once.
\<close>

section \<open>Steps\<close>

text \<open>
  One step of the event loop.  Identifiers of new operations are fresh; what needs
  \<open>approval_gate_lock\<close> runs only when the lock is free.
\<close>

inductive registry_step :: "registry_state \<Rightarrow> registry_state \<Rightarrow> bool" where
  create: "o' \<noteq> [] \<Longrightarrow> dict_get (rg_ops R) o' = None \<Longrightarrow> \<not> gate_locked R o' \<Longrightarrow>
     registry_create o' p scan ty started R = Inr R' \<Longrightarrow> registry_step R R'"
| remove_project: "remove_project p R = Inr R' \<Longrightarrow> registry_step R R'"
| reap: "registry_step R (reap now ttl R)"
| shutdown: "registry_step R (shutdown R)"
| subscribe: "registry_step R (fst (subscribe o' R))"
| unsubscribe: "registry_step R (unsubscribe o' i R)"
| transition: "registry_step R (transition now o' st err code R)"
| set_operation_budget: "registry_step R (set_operation_budget o' b R)"
| add_progress: "registry_step R (add_progress o' e R)"
| set_findings: "registry_step R (set_findings now o' fs R)"
| set_ai_triage: "registry_step R (set_ai_triage now o' cs R)"
| set_proposals: "\<not> gate_locked R o' \<Longrightarrow> registry_step R (set_proposals now gid o' ps gen R)"
| broadcast_proposal_updated: "registry_step R (broadcast_proposal_updated o' js R)"
| set_result: "registry_step R (set_result o' res R)"
| set_pr_url: "registry_step R (set_pr_url now o' url R)"
| approve_begin: "approve_begin p ids gid R = Inr R' \<Longrightarrow> (\<forall>o' gate. approve_precheck p R = Inr (o', gate) \<longrightarrow> \<not> gate_locked R o') \<Longrightarrow>
     registry_step R R'"
| approve_resume: "\<not> gate_locked R o' \<Longrightarrow> approve_locked o' gate ids gid R = Inr R' \<Longrightarrow> registry_step R R'"
| approve_commit: "approve_commit o' R = Inr R' \<Longrightarrow> registry_step R R'"
| approve_abort: "registry_step R (approve_abort o' R)"
| begin_remediate: "begin_remediate p R = Inr R' \<Longrightarrow> registry_step R R'"
| escalate_ai: "escalate_ai now p ts R = Inr R' \<Longrightarrow> registry_step R R'"
| patch_drafts: "patch_draft_proposals p us js R = Inr R' \<Longrightarrow> registry_step R R'"
| cancel_begin: "cancel_begin now p R = Inr R' \<Longrightarrow> registry_step R R'"
| cancel_finish: "\<not> gate_locked R o' \<Longrightarrow> registry_step R (cancel_finish o' R)"
| begin_timeout: "registry_step R (on_begin_timeout o' R)"
| escalate_timeout: "registry_step R (on_escalate_timeout o' R)"
| approve_timeout: "\<not> gate_locked R o' \<Longrightarrow> registry_step R (approve_timeout_begin o' R)"
| bridge_gate: "\<not> fut_pending R f \<Longrightarrow> registry_step R (bridge_gate o' f R)"
| bridge_begin: "registry_step R (bridge_begin o' R)"
| bridge_escalate: "registry_step R (bridge_escalate o' R)"
| drive_finish: "registry_step R (drive_finish now o' e R)"

section \<open>Indexes\<close>

text \<open>The two indexes agree, and every finished operation has the time it finished.\<close>

definition index_ok :: "registry_state \<Rightarrow> bool" where
  "index_ok R \<longleftrightarrow>
     dict_ok (rg_ops R) \<and>
     (\<forall>o' op. dict_get (rg_ops R) o' = Some op \<longrightarrow>
        o' \<noteq> [] \<and> os_operation_id op = o' \<and> dict_get (rg_by_project R) (os_project_id op) = Some o') \<and>
     (\<forall>p o'. dict_get (rg_by_project R) p = Some o' \<longrightarrow>
        (\<exists>op. dict_get (rg_ops R) o' = Some op \<and> os_project_id op = p)) \<and>
     (\<forall>o' op. dict_get (rg_ops R) o' = Some op \<and> terminal op \<longrightarrow> dict_get (rg_terminal_times R) o' \<noteq> None) \<and>
     (\<forall>o'. dict_get (rg_terminal_times R) o' \<noteq> None \<longrightarrow> dict_get (rg_ops R) o' \<noteq> None)"

text \<open>Calls that change neither the identity nor the status of an operation.\<close>

definition same_index :: "registry_state \<Rightarrow> registry_state \<Rightarrow> bool" where
  "same_index R R' \<longleftrightarrow>
     map fst (rg_ops R') = map fst (rg_ops R) \<and> rg_by_project R' = rg_by_project R \<and>
     (\<forall>o' op'. dict_get (rg_ops R') o' = Some op' \<longrightarrow>
        (\<exists>op. dict_get (rg_ops R) o' = Some op \<and> os_operation_id op' = os_operation_id op \<and>
           os_project_id op' = os_project_id op \<and>
           (terminal op' \<longrightarrow> terminal op \<or> dict_get (rg_terminal_times R') o' \<noteq> None))) \<and>
     (\<forall>o'. dict_get (rg_terminal_times R) o' \<noteq> None \<longrightarrow> dict_get (rg_terminal_times R') o' \<noteq> None) \<and>
     (\<forall>o'. dict_get (rg_terminal_times R') o' \<noteq> None \<longrightarrow>
        dict_get (rg_terminal_times R) o' \<noteq> None \<or> dict_get (rg_ops R) o' \<noteq> None)"

lemma dict_get_keys: "map fst d = map fst d' \<Longrightarrow> dict_get d k = None \<longleftrightarrow> dict_get d' k = None"
  by (metis dict_get_None list.set_map)

lemma same_index_refl [simp]: "same_index R R"
  by (auto simp: same_index_def)

lemma same_indexD:
  assumes "same_index R R'"
  shows "dict_get (rg_ops R') o' = None \<longleftrightarrow> dict_get (rg_ops R) o' = None"
    and "rg_by_project R' = rg_by_project R"
    and "dict_get (rg_terminal_times R) o' \<noteq> None \<Longrightarrow> dict_get (rg_terminal_times R') o' \<noteq> None"
    and "dict_get (rg_terminal_times R') o' \<noteq> None \<Longrightarrow>
      dict_get (rg_terminal_times R) o' \<noteq> None \<or> dict_get (rg_ops R) o' \<noteq> None"
proof -
  show "dict_get (rg_ops R') o' = None \<longleftrightarrow> dict_get (rg_ops R) o' = None"
    using assms by (intro dict_get_keys) (simp add: same_index_def)
qed (use assms in \<open>auto simp: same_index_def\<close>)

lemma same_indexE:
  assumes "same_index R R'" and "dict_get (rg_ops R') o' = Some op'"
  obtains op where "dict_get (rg_ops R) o' = Some op" "os_operation_id op' = os_operation_id op"
    "os_project_id op' = os_project_id op" "terminal op' \<longrightarrow> terminal op \<or> dict_get (rg_terminal_times R') o' \<noteq> None"
  using assms unfolding same_index_def by blast

lemma same_index_op:
  assumes "same_index R R'" and "dict_get (rg_ops R) o' = Some op" and "dict_get (rg_ops R') o' = Some op'"
  shows "os_operation_id op' = os_operation_id op \<and> os_project_id op' = os_project_id op \<and>
    (terminal op' \<longrightarrow> terminal op \<or> dict_get (rg_terminal_times R') o' \<noteq> None)"
  by (rule same_indexE [OF assms(1,3)]) (use assms(2) in simp)

lemma same_index_trans:
  assumes "same_index A B" and "same_index B C"
  shows "same_index A C"
  unfolding same_index_def
proof (intro conjI allI impI)
  fix o' op'
  assume "dict_get (rg_ops C) o' = Some op'"
  with assms(2) obtain op1 where op1: "dict_get (rg_ops B) o' = Some op1" "os_operation_id op' = os_operation_id op1"
    "os_project_id op' = os_project_id op1" "terminal op' \<longrightarrow> terminal op1 \<or> dict_get (rg_terminal_times C) o' \<noteq> None"
    by (rule same_indexE)
  from assms(1) op1(1) obtain op where op: "dict_get (rg_ops A) o' = Some op" "os_operation_id op1 = os_operation_id op"
    "os_project_id op1 = os_project_id op" "terminal op1 \<longrightarrow> terminal op \<or> dict_get (rg_terminal_times B) o' \<noteq> None"
    by (rule same_indexE)
  with op1 same_indexD(3) [OF assms(2)]
  show "\<exists>op. dict_get (rg_ops A) o' = Some op \<and> os_operation_id op' = os_operation_id op \<and>
      os_project_id op' = os_project_id op \<and> (terminal op' \<longrightarrow> terminal op \<or> dict_get (rg_terminal_times C) o' \<noteq> None)"
    by (intro exI [of _ op]) auto
next
  fix o'
  show "dict_get (rg_terminal_times A) o' \<noteq> None \<or> dict_get (rg_ops A) o' \<noteq> None"
    if "dict_get (rg_terminal_times C) o' \<noteq> None"
    using same_indexD(4) [OF assms(2) that] same_indexD(4) [OF assms(1), of o'] same_indexD(1) [OF assms(1), of o'] by auto
  show "dict_get (rg_terminal_times C) o' \<noteq> None" if "dict_get (rg_terminal_times A) o' \<noteq> None"
    using same_indexD(3) [OF assms(2) same_indexD(3) [OF assms(1) that]] .
qed (use assms in \<open>auto simp: same_index_def\<close>)

named_theorems index_steps \<open>calls that keep the indexes\<close>

lemma same_index_ok:
  assumes "same_index R R'" and "index_ok R"
  shows "index_ok R'"
  unfolding index_ok_def
proof (intro conjI allI impI)
  fix o' op'
  assume op': "dict_get (rg_ops R') o' = Some op'"
  then obtain op where op: "dict_get (rg_ops R) o' = Some op" using same_indexD(1) [OF assms(1), of o'] by auto
  note same_index_op [OF assms(1) op op']
  with op assms(2) same_indexD(2) [OF assms(1)]
  show "o' \<noteq> []" "os_operation_id op' = o'" "dict_get (rg_by_project R') (os_project_id op') = Some o'"
    by (auto simp: index_ok_def)
next
  fix p o'
  assume "dict_get (rg_by_project R') p = Some o'"
  then have "dict_get (rg_by_project R) p = Some o'" by (simp add: same_indexD(2) [OF assms(1)])
  with assms(2) obtain op where op: "dict_get (rg_ops R) o' = Some op" "os_project_id op = p"
    unfolding index_ok_def by blast
  then obtain op' where op': "dict_get (rg_ops R') o' = Some op'" using same_indexD(1) [OF assms(1), of o'] by auto
  with same_index_op [OF assms(1) op(1) op'] op(2)
  show "\<exists>op. dict_get (rg_ops R') o' = Some op \<and> os_project_id op = p" by simp
next
  fix o' op'
  assume op': "dict_get (rg_ops R') o' = Some op' \<and> terminal op'"
  then obtain op where op: "dict_get (rg_ops R) o' = Some op" using same_indexD(1) [OF assms(1), of o'] by auto
  with assms(2) have "terminal op \<Longrightarrow> dict_get (rg_terminal_times R) o' \<noteq> None" unfolding index_ok_def by blast
  with same_index_op [OF assms(1) op] op' same_indexD(3) [OF assms(1), of o']
  show "dict_get (rg_terminal_times R') o' \<noteq> None" by blast
next
  fix o'
  assume "dict_get (rg_terminal_times R') o' \<noteq> None"
  moreover have "dict_get (rg_terminal_times R) o' \<noteq> None \<Longrightarrow> dict_get (rg_ops R) o' \<noteq> None"
    using assms(2) unfolding index_ok_def by blast
  ultimately show "dict_get (rg_ops R') o' \<noteq> None"
    using same_indexD(4) [OF assms(1), of o'] same_indexD(1) [OF assms(1), of o'] by auto
qed (use assms in \<open>simp add: same_index_def index_ok_def dict_ok_def\<close>)

lemma keys_overwrite: "dict_get d k = Some v \<Longrightarrow> map fst (dict_set k w d) = map fst d"
  using dict_get_None [of d k] by (auto simp: keys_dict_set)

lemma same_index_update [index_steps]:
  assumes "\<And>op. os_operation_id (f op) = os_operation_id op \<and> os_project_id (f op) = os_project_id op \<and> os_status (f op) = os_status op"
  shows "same_index R (update_op o' f R)"
proof (cases "dict_get (rg_ops R) o'")
  case (Some op)
  with assms show ?thesis
    by (auto simp: update_op_def same_index_def keys_overwrite dict_simps split: if_splits)
qed (simp add: update_op_def)

lemma same_index_frame [index_steps]:
  "same_index R (write_future f v R)" "same_index R (settle s v R)" "same_index R (fst (create_future R))"
  "same_index R (cancel_task op R)" "same_index R (R\<lparr>rg_queues := qs\<rparr>)" "same_index R (R\<lparr>rg_committing := cs\<rparr>)"
  "same_index R (R\<lparr>rg_queues := qs, rg_next := n\<rparr>)"
  by (auto simp: same_index_def write_future_def settle_def create_future_def cancel_task_def split: option.splits)

lemma broadcast_update:
  "broadcast o' ev data R =
     (case dict_get (rg_ops R) o' of
        None \<Rightarrow> R
      | Some op \<Rightarrow>
          (let r = deliver (message ev data) (os_sse_subscribers op) (rg_queues R)
           in update_op o' (\<lambda>op. op\<lparr>os_sse_subscribers := snd r\<rparr>) (R\<lparr>rg_queues := fst r\<rparr>)))"
  by (auto simp: broadcast_def update_op_def Let_def case_prod_unfold split: option.splits)

lemma same_index_broadcast [index_steps]: "same_index R (broadcast o' ev data R)"
  by (auto simp: broadcast_update Let_def split: option.splits
      intro!: same_index_trans [OF same_index_frame(5) same_index_update])

lemma same_index_transition [index_steps]: "same_index R (transition now o' st err code R)"
proof (cases "dict_get (rg_ops R) o'")
  case (Some op)
  then show ?thesis
    by (auto simp: transition_def Let_def intro!: same_index_trans [OF _ same_index_broadcast])
      (auto simp: same_index_def keys_overwrite dict_simps split: if_splits)
qed (simp add: transition_def)

lemmas index_after = same_index_trans [OF _ same_index_broadcast] same_index_trans [OF _ same_index_transition]
  same_index_trans [OF _ same_index_update] same_index_trans [OF _ same_index_frame(1)]
  same_index_trans [OF _ same_index_frame(2)] same_index_trans [OF _ same_index_frame(4)]

lemma same_index_calls [index_steps]:
  "same_index R (set_operation_budget o' b R)" "same_index R (add_progress o' e R)"
  "same_index R (broadcast_proposal_updated o' js R)" "same_index R (set_result o' res R)"
  "same_index R (set_pr_url now o' url R)" "same_index R (unsubscribe o' i R)"
  "same_index R (bridge_gate o' f R)" "same_index R (bridge_begin o' R)" "same_index R (bridge_escalate o' R)"
  "same_index R (cancel_finish o' R)" "same_index R (on_begin_timeout o' R)" "same_index R (on_escalate_timeout o' R)"
  "same_index R (approve_timeout_begin o' R)" "same_index R (approve_abort o' R)" "same_index R (drive_finish now o' fin R)"
  by (auto simp: set_operation_budget_def add_progress_def broadcast_proposal_updated_def set_result_def
      set_pr_url_def unsubscribe_def bridge_gate_def bridge_begin_def bridge_escalate_def cancel_finish_def
      on_begin_timeout_def on_escalate_timeout_def approve_timeout_begin_def approve_abort_def drive_finish_def Let_def
      split: option.splits drive_end.splits intro!: index_after index_steps)

lemma same_index_begin_future: "same_index R (ensure_begin_future o' R)" "same_index R (ensure_escalate_future o' R)"
  by (auto simp: ensure_begin_future_def ensure_escalate_future_def case_prod_unfold Let_def split: option.splits
      intro!: same_index_trans [OF same_index_frame(3) same_index_update])

lemma same_index_set_findings [index_steps]: "same_index R (set_findings now o' fs R)"
  by (auto simp: set_findings_def Let_def split: option.splits
      intro!: index_after same_index_trans [OF same_index_update same_index_begin_future(1)])

lemma same_index_set_ai_triage [index_steps]: "same_index R (set_ai_triage now o' cs R)"
  by (auto simp: set_ai_triage_def Let_def split: option.splits
      intro!: index_after same_index_trans [OF _ same_index_begin_future(2)] index_steps)

lemma same_index_set_proposals [index_steps]: "same_index R (set_proposals now gid o' ps gen R)"
  by (auto simp: set_proposals_def Let_def case_prod_unfold split: option.splits
      intro!: index_after same_index_trans [OF _ same_index_frame(3)] index_steps)

lemma same_index_subscribe [index_steps]: "same_index R (fst (subscribe o' R))"
  by (auto simp: subscribe_def Let_def split: option.splits
      intro!: same_index_trans [OF same_index_frame(7) same_index_update])

lemma index_okD:
  assumes "index_ok R" and "dict_get (rg_ops R) o' = Some op"
  shows "o' \<noteq> []" "os_operation_id op = o'" "dict_get (rg_by_project R) (os_project_id op) = Some o'"
    "terminal op \<Longrightarrow> dict_get (rg_terminal_times R) o' \<noteq> None"
  using assms unfolding index_ok_def by blast+

lemma index_ok_project:
  "index_ok R \<Longrightarrow> dict_get (rg_by_project R) p = Some o' \<Longrightarrow> \<exists>op. dict_get (rg_ops R) o' = Some op \<and> os_project_id op = p"
  unfolding index_ok_def by blast

lemma index_ok_time:
  "index_ok R \<Longrightarrow> dict_get (rg_terminal_times R) o' \<noteq> None \<Longrightarrow> dict_get (rg_ops R) o' \<noteq> None"
  unfolding index_ok_def by blast

text \<open>Removing an operation from both indexes.\<close>

lemma remove_fields:
  assumes "index_ok R" and "dict_get (rg_ops R) o' = Some op"
  shows "rg_ops (registry_remove o' R) = dict_pop o' (rg_ops R)"
    "rg_by_project (registry_remove o' R) = dict_pop (os_project_id op) (rg_by_project R)"
    "rg_terminal_times (registry_remove o' R) = dict_pop o' (rg_terminal_times R)"
  using assms(2) index_okD(3) [OF assms] by (simp_all add: registry_remove_def Let_def cancel_task_def)

lemma index_ok_remove: "index_ok R \<Longrightarrow> index_ok (registry_remove o' R)"
proof (cases "dict_get (rg_ops R) o'")
  case (Some op)
  assume ok: "index_ok R"
  note fields = remove_fields [OF ok Some]
  have other: "os_project_id op2 \<noteq> os_project_id op" if "dict_get (rg_ops R) o2 = Some op2" "o2 \<noteq> o'" for o2 op2
    using index_okD(3) [OF ok that(1)] index_okD(3) [OF ok Some] that(2) by auto
  show ?thesis
    unfolding index_ok_def fields
  proof (intro conjI allI impI)
    show "dict_ok (dict_pop o' (rg_ops R))" using ok by (auto simp: index_ok_def)
  next
    fix p o2
    assume "dict_get (dict_pop (os_project_id op) (rg_by_project R)) p = Some o2"
    then have p: "p \<noteq> os_project_id op" "dict_get (rg_by_project R) p = Some o2" by (auto simp: dict_simps split: if_splits)
    from index_ok_project [OF ok p(2)] p(1) Some
    show "\<exists>op2. dict_get (dict_pop o' (rg_ops R)) o2 = Some op2 \<and> os_project_id op2 = p" by (auto simp: dict_simps)
  qed (use index_okD [OF ok] index_ok_time [OF ok] other in \<open>auto simp: dict_simps split: if_splits\<close>)
qed (simp add: registry_remove_def)

lemma index_ok_create:
  assumes "index_ok R" and "o' \<noteq> []" and "dict_get (rg_ops R) o' = None"
    and "registry_create o' p scan ty started R = Inr R'"
  shows "index_ok R'"
proof -
  obtain Q where Q: "index_ok Q" "dict_get (rg_by_project Q) p = None" "dict_get (rg_ops Q) o' = None"
    "R' = Q\<lparr>rg_ops := dict_set o' (new_operation o' p scan ty started) (rg_ops Q), rg_by_project := dict_set p o' (rg_by_project Q)\<rparr>"
  proof (cases "dict_get (rg_by_project R) p")
    case None
    with assms that [of R] show thesis by (simp add: registry_create_def Let_def)
  next
    case (Some e)
    obtain existing where e: "dict_get (rg_ops R) e = Some existing" "os_project_id existing = p" "e \<noteq> []"
      using index_ok_project [OF assms(1) Some] index_okD(1) [OF assms(1)] by blast
    have "R' = (registry_remove e R)\<lparr>rg_ops := dict_set o' (new_operation o' p scan ty started) (rg_ops (registry_remove e R)),
        rg_by_project := dict_set p o' (rg_by_project (registry_remove e R))\<rparr>"
      using assms(4) Some e by (auto simp: registry_create_def Let_def split: if_splits)
    moreover have "dict_get (rg_ops (registry_remove e R)) o' = None" "dict_get (rg_by_project (registry_remove e R)) p = None"
      using remove_fields [OF assms(1) e(1)] e(2) assms(3) by (simp_all add: dict_simps)
    ultimately show thesis using that [of "registry_remove e R"] index_ok_remove [OF assms(1)] by blast
  qed
  have time: "dict_get (rg_terminal_times Q) o' = None" using index_ok_time [OF Q(1), of o'] Q(3) by blast
  have project: "os_project_id op \<noteq> p" if "dict_get (rg_ops Q) o2 = Some op" for o2 op
    using index_okD(3) [OF Q(1) that] Q(2) by auto
  have owner: "\<exists>op2. dict_get (rg_ops Q) o2 = Some op2 \<and> os_project_id op2 = q \<and> o2 \<noteq> o'"
    if "dict_get (rg_by_project Q) q = Some o2" for q o2
    using index_ok_project [OF Q(1) that] Q(3) by auto
  have ok: "dict_ok (dict_set o' x (rg_ops Q))" for x using Q(1) by (auto simp: index_ok_def)
  show ?thesis
    unfolding index_ok_def Q(4)
    using index_okD [OF Q(1)] index_ok_time [OF Q(1)] project assms(2) ok
    by (auto simp: dict_simps new_operation_def TERMINAL_STATUSES_def split: if_splits dest!: owner)
qed

lemma index_ok_fold_remove: "index_ok R \<Longrightarrow> index_ok (fold registry_remove os R)"
  by (induction os arbitrary: R) (auto intro: index_ok_remove)

lemma index_ok_shutdown: "index_ok (shutdown R)"
  by (simp add: shutdown_def Let_def index_ok_def)

lemma index_ok_step: "registry_step R R' \<Longrightarrow> index_ok R \<Longrightarrow> index_ok R'"
proof (induction rule: registry_step.induct)
  case (remove_project p R R')
  then show ?case by (auto simp: remove_project_def intro: index_ok_remove split: option.splits if_splits)
next
  case (approve_begin p ids gid R R')
  then show ?case
    by (auto simp: approve_begin_def approve_locked_def conflict_def intro!: same_index_ok [OF same_index_frame(6)]
        split: sum.splits option.splits if_splits)
next
  case (approve_resume R o' gate ids gid R')
  then show ?case
    by (auto simp: approve_locked_def conflict_def intro!: same_index_ok [OF same_index_frame(6)] split: option.splits if_splits)
next
  case (approve_commit o' R R')
  then show ?case
    by (auto simp: approve_commit_def Let_def split: option.splits if_splits
        intro!: same_index_ok [OF same_index_trans [OF same_index_frame(6) same_index_frame(1)]])
next
  case (begin_remediate p R R')
  then show ?case
    by (auto simp: begin_remediate_def conflict_def split: option.splits if_splits
        intro!: same_index_ok [OF same_index_trans [OF same_index_update same_index_frame(1)]])
next
  case (escalate_ai now p ts R R')
  then show ?case
    by (auto simp: escalate_ai_def conflict_def split: option.splits if_splits
        intro!: same_index_ok [OF same_index_trans [OF same_index_frame(2) same_index_transition]])
next
  case (patch_drafts p us js R R')
  then show ?case
    by (auto simp: patch_draft_proposals_def conflict_def broadcast_proposal_updated_def split: option.splits if_splits
        intro!: same_index_ok [OF same_index_trans [OF same_index_update same_index_broadcast]])
next
  case (cancel_begin now p R R')
  then show ?case
    by (auto simp: cancel_begin_def conflict_def split: option.splits if_splits
        intro!: same_index_ok [OF same_index_trans [OF same_index_transition same_index_frame(4)]])
qed (auto simp: reap_def index_ok_shutdown intro: index_ok_create index_ok_fold_remove same_index_ok [OF index_steps(1)]
    dest: same_index_ok [rotated] intro!: index_steps)

section \<open>Futures\<close>

text \<open>
  Futures are allocated, a future has one owner, and the future a handler is about to resolve
  inside the lock is still pending, for one handler per operation.
\<close>

definition slot_ok :: "registry_state \<Rightarrow> bool" where
  "slot_ok R \<longleftrightarrow>
     (\<forall>o' op f. dict_get (rg_ops R) o' = Some op \<longrightarrow>
        Some f \<in> {gate_future op, os_begin_remediate_future op, os_escalate_ai_future op} \<longrightarrow> f < rg_next R) \<and>
     (\<forall>o' op o2 op2 f. dict_get (rg_ops R) o' = Some op \<longrightarrow> dict_get (rg_ops R) o2 = Some op2 \<longrightarrow>
        gate_future op = Some f \<longrightarrow>
        os_begin_remediate_future op2 \<noteq> Some f \<and> os_escalate_ai_future op2 \<noteq> Some f \<and> (gate_future op2 = Some f \<longrightarrow> o2 = o'))"

definition commit_ok :: "registry_state \<Rightarrow> bool" where
  "commit_ok R \<longleftrightarrow>
     distinct (map fst (rg_committing R)) \<and> distinct (map (fst \<circ> snd) (rg_committing R)) \<and>
     (\<forall>o' f ids. (o', f, ids) \<in> set (rg_committing R) \<longrightarrow>
        fut_pending R f \<and>
        (\<forall>o2 op. dict_get (rg_ops R) o2 = Some op \<longrightarrow>
           os_begin_remediate_future op \<noteq> Some f \<and> os_escalate_ai_future op \<noteq> Some f \<and> (gate_future op = Some f \<longrightarrow> o2 = o')))"

definition gates_ok :: "registry_state \<Rightarrow> bool" where
  "gates_ok R \<longleftrightarrow>
     (\<forall>f. dict_get (rg_futures R) f \<noteq> None \<longrightarrow> f < rg_next R) \<and> slot_ok R \<and> commit_ok R"

lemma commit_okD:
  assumes "commit_ok R" and "(o', f, ids) \<in> set (rg_committing R)"
  shows "fut_pending R f" and "dict_get (rg_ops R) o2 = Some op \<Longrightarrow>
      os_begin_remediate_future op \<noteq> Some f \<and> os_escalate_ai_future op \<noteq> Some f \<and> (gate_future op = Some f \<longrightarrow> o2 = o')"
  using assms unfolding commit_ok_def by blast+

lemma slot_okD:
  assumes "slot_ok R" and "dict_get (rg_ops R) o' = Some op"
  shows "Some f \<in> {gate_future op, os_begin_remediate_future op, os_escalate_ai_future op} \<Longrightarrow> f < rg_next R"
    and "dict_get (rg_ops R) o2 = Some op2 \<Longrightarrow> gate_future op = Some f \<Longrightarrow>
      os_begin_remediate_future op2 \<noteq> Some f \<and> os_escalate_ai_future op2 \<noteq> Some f \<and> (gate_future op2 = Some f \<longrightarrow> o2 = o')"
  using assms unfolding slot_ok_def by blast+

text \<open>A future that is done keeps its value.\<close>

definition settled_kept :: "registry_state \<Rightarrow> registry_state \<Rightarrow> bool" where
  "settled_kept R R' \<longleftrightarrow>
     (\<forall>f v. dict_get (rg_futures R) f = Some v \<longrightarrow> v \<noteq> Fut_pending \<longrightarrow> dict_get (rg_futures R') f = Some v)"

definition fut_step :: "registry_state \<Rightarrow> registry_state \<Rightarrow> bool" where
  "fut_step R R' \<longleftrightarrow> rg_committing R' = rg_committing R \<and> (gates_ok R \<longrightarrow> gates_ok R' \<and> settled_kept R R')"

definition uncommitted :: "registry_state \<Rightarrow> nat option \<Rightarrow> bool" where
  "uncommitted R slot \<longleftrightarrow> (\<forall>f. slot = Some f \<longrightarrow> f \<notin> (fst \<circ> snd) ` set (rg_committing R))"

lemma fut_step_refl [simp]: "fut_step R R"
  by (simp add: fut_step_def settled_kept_def)

lemma fut_step_trans: "fut_step A B \<Longrightarrow> fut_step B C \<Longrightarrow> fut_step A C"
  by (auto simp: fut_step_def settled_kept_def)

lemma uncommitted_step: "fut_step R R' \<Longrightarrow> uncommitted R' s = uncommitted R s"
  by (simp add: fut_step_def uncommitted_def)

lemma uncommitted_slots:
  assumes "gates_ok R" and "dict_get (rg_ops R) o' = Some op"
  shows "uncommitted R (os_begin_remediate_future op)" "uncommitted R (os_escalate_ai_future op)"
    "\<not> gate_locked R o' \<Longrightarrow> uncommitted R (gate_future op)"
  using assms unfolding gates_ok_def commit_ok_def uncommitted_def gate_locked_def by force+

text \<open>Fields that do not matter here.\<close>

definition slots_from :: "registry_state \<Rightarrow> registry_state \<Rightarrow> bool" where
  "slots_from R R' \<longleftrightarrow>
     (\<forall>slot\<in>{gate_future, os_begin_remediate_future, os_escalate_ai_future}. \<forall>o' op' f.
        dict_get (rg_ops R') o' = Some op' \<longrightarrow> slot op' = Some f \<longrightarrow>
        (\<exists>op. dict_get (rg_ops R) o' = Some op \<and> slot op = Some f))"

lemma slots_fromE:
  assumes "slots_from R R'" and "dict_get (rg_ops R') o' = Some op'"
  shows "gate_future op' = Some f \<Longrightarrow> \<exists>op. dict_get (rg_ops R) o' = Some op \<and> gate_future op = Some f"
    "os_begin_remediate_future op' = Some f \<Longrightarrow> \<exists>op. dict_get (rg_ops R) o' = Some op \<and> os_begin_remediate_future op = Some f"
    "os_escalate_ai_future op' = Some f \<Longrightarrow> \<exists>op. dict_get (rg_ops R) o' = Some op \<and> os_escalate_ai_future op = Some f"
  using assms unfolding slots_from_def by blast+

lemma fut_step_frame:
  assumes "rg_futures R' = rg_futures R" "rg_committing R' = rg_committing R" "rg_next R \<le> rg_next R'" and src: "slots_from R R'"
  shows "fut_step R R'"
proof -
  have "gates_ok R'" if ok: "gates_ok R"
  proof -
    have ok2: "slot_ok R" "commit_ok R" using ok by (auto simp: gates_ok_def)
    have slots: "slot_ok R'"
      unfolding slot_ok_def
    proof (intro conjI allI impI)
      fix o' op' f
      assume "dict_get (rg_ops R') o' = Some op'" "Some f \<in> {gate_future op', os_begin_remediate_future op', os_escalate_ai_future op'}"
      then have "\<exists>op. dict_get (rg_ops R) o' = Some op \<and> Some f \<in> {gate_future op, os_begin_remediate_future op, os_escalate_ai_future op}"
        using slots_fromE [OF src, of o' op' f] by auto
      with slot_okD(1) [OF ok2(1)] assms(3) show "f < rg_next R'" by (meson less_le_trans)
    next
      fix o' op' o2 op2 f
      assume a: "dict_get (rg_ops R') o' = Some op'" "dict_get (rg_ops R') o2 = Some op2" "gate_future op' = Some f"
      show "os_begin_remediate_future op2 \<noteq> Some f" "os_escalate_ai_future op2 \<noteq> Some f" "gate_future op2 = Some f \<Longrightarrow> o2 = o'"
        using slots_fromE(1) [OF src a(1,3)] slots_fromE [OF src a(2), of f] slot_okD(2) [OF ok2(1), of o' _ o2 _ f] by blast+
    qed
    have "commit_ok R'"
      unfolding commit_ok_def
    proof (intro conjI allI impI)
      fix o' f ids
      assume "(o', f, ids) \<in> set (rg_committing R')"
      then have c: "(o', f, ids) \<in> set (rg_committing R)" by (simp add: assms(2))
      show "fut_pending R' f" using commit_okD(1) [OF ok2(2) c] assms(1) by (simp add: fut_pending_def)
      fix o2 op2
      assume a: "dict_get (rg_ops R') o2 = Some op2"
      show "os_begin_remediate_future op2 \<noteq> Some f" "os_escalate_ai_future op2 \<noteq> Some f" "gate_future op2 = Some f \<Longrightarrow> o2 = o'"
        using slots_fromE [OF src a, of f] commit_okD(2) [OF ok2(2) c] by blast+
    qed (use ok2(2) assms(2) in \<open>simp_all add: commit_ok_def\<close>)
    with slots ok assms(1,3) show ?thesis by (auto simp: gates_ok_def intro: less_le_trans)
  qed
  then show ?thesis using assms(1,2) by (simp add: fut_step_def settled_kept_def)
qed

named_theorems fut_steps \<open>calls that keep the futures in order\<close>

lemma fut_step_update:
  assumes "\<And>op. gate_future (f op) \<in> {None, gate_future op} \<and>
      os_begin_remediate_future (f op) \<in> {None, os_begin_remediate_future op} \<and>
      os_escalate_ai_future (f op) \<in> {None, os_escalate_ai_future op}"
  shows "fut_step R (update_op o' f R)"
proof (cases "dict_get (rg_ops R) o'")
  case (Some op)
  have "gate_future (f op) = Some x \<Longrightarrow> gate_future op = Some x"
    "os_begin_remediate_future (f op) = Some x \<Longrightarrow> os_begin_remediate_future op = Some x"
    "os_escalate_ai_future (f op) = Some x \<Longrightarrow> os_escalate_ai_future op = Some x" for x
    using assms [of op] by auto
  with Some show ?thesis
    by (intro fut_step_frame) (auto simp: slots_from_def update_op_def dict_simps split: if_splits)
qed (simp add: update_op_def)

lemma fut_step_queues [fut_steps]:
  "fut_step R (R\<lparr>rg_queues := qs\<rparr>)" "fut_step R (R\<lparr>rg_queues := qs, rg_next := Suc (rg_next R)\<rparr>)" "fut_step R (cancel_task op R)"
  by (rule fut_step_frame; auto simp: slots_from_def cancel_task_def split: if_splits)+

lemma fut_step_broadcast [fut_steps]: "fut_step R (broadcast o' ev data R)"
  by (auto simp: broadcast_update Let_def gate_future_def split: option.splits
      intro!: fut_step_trans [OF fut_step_queues(1) fut_step_update])

lemma fut_step_transition [fut_steps]: "fut_step R (transition now o' st err code R)"
proof (cases "dict_get (rg_ops R) o'")
  case (Some op)
  then show ?thesis
    unfolding transition_def option.case Let_def Some
    by (intro fut_step_trans [OF fut_step_frame fut_step_broadcast])
      (use Some in \<open>auto simp: slots_from_def dict_simps gate_future_def split: if_splits\<close>)
qed (simp add: transition_def)

lemma fut_step_remove [fut_steps]: "fut_step R (registry_remove o' R)"
  by (rule fut_step_frame)
    (auto simp: slots_from_def registry_remove_def Let_def cancel_task_def dict_simps split: option.splits if_splits)

lemma fut_step_settle:
  assumes "uncommitted R slot"
  shows "v \<noteq> Fut_pending \<Longrightarrow> fut_step R (settle slot v R)"
proof (cases slot)
  case (Some f)
  assume v: "v \<noteq> Fut_pending"
  show ?thesis
  proof (cases "fut_pending R f")
    case True
    have "commit_ok (write_future f v R)" if "commit_ok R"
      using that assms Some
      by (force simp: commit_ok_def write_future_def fut_pending_def uncommitted_def dict_simps)
    moreover have "slot_ok (write_future f v R) = slot_ok R" by (simp add: slot_ok_def write_future_def)
    ultimately show ?thesis
      using True Some
      by (auto simp: fut_step_def gates_ok_def settle_def settled_kept_def fut_pending_def)
        (auto simp: write_future_def dict_simps split: if_splits)
  qed (simp add: settle_def Some)
qed (simp add: settle_def)

lemma settle_pending: "fut_pending R f \<Longrightarrow> write_future f v R = settle (Some f) v R"
  by (simp add: settle_def)

text \<open>A new future in one of the slots of an operation.\<close>

definition fresh_slot :: "(nat \<Rightarrow> op_state \<Rightarrow> op_state) \<Rightarrow> bool" where
  "fresh_slot upd \<longleftrightarrow>
     (\<forall>f op. (gate_future (upd f op), os_begin_remediate_future (upd f op), os_escalate_ai_future (upd f op)) \<in>
        {(Some f, os_begin_remediate_future op, os_escalate_ai_future op),
         (gate_future op, Some f, os_escalate_ai_future op), (gate_future op, os_begin_remediate_future op, Some f)})"

definition assign_future :: "(nat \<Rightarrow> op_state \<Rightarrow> op_state) \<Rightarrow> string \<Rightarrow> registry_state \<Rightarrow> registry_state" where
  "assign_future upd o' R = (let (R, f) = create_future R in update_op o' (upd f) R)"

lemma assign_future_slots:
  assumes "fresh_slot upd" and "slot_ok R" and "dict_get (rg_ops (assign_future upd o' R)) o2 = Some op2"
  obtains op where "dict_get (rg_ops R) o2 = Some op"
    and "\<And>f. gate_future op2 = Some f \<Longrightarrow> f = rg_next R \<and> o2 = o' \<or> gate_future op = Some f"
    and "\<And>f. os_begin_remediate_future op2 = Some f \<Longrightarrow> f = rg_next R \<and> o2 = o' \<or> os_begin_remediate_future op = Some f"
    and "\<And>f. os_escalate_ai_future op2 = Some f \<Longrightarrow> f = rg_next R \<and> o2 = o' \<or> os_escalate_ai_future op = Some f"
    and "gate_future op2 = Some (rg_next R) \<Longrightarrow>
      os_begin_remediate_future op2 \<noteq> Some (rg_next R) \<and> os_escalate_ai_future op2 \<noteq> Some (rg_next R)"
proof -
  obtain op where op: "dict_get (rg_ops R) o2 = Some op" "op2 = op \<or> op2 = upd (rg_next R) op \<and> o2 = o'"
    using assms(3)
    by (auto simp: assign_future_def create_future_def update_op_def dict_simps split: option.splits if_splits)
  have old: "gate_future op \<noteq> Some (rg_next R)" "os_begin_remediate_future op \<noteq> Some (rg_next R)"
    "os_escalate_ai_future op \<noteq> Some (rg_next R)" using slot_okD(1) [OF assms(2) op(1), of "rg_next R"] by auto
  have "(gate_future op2, os_begin_remediate_future op2, os_escalate_ai_future op2) \<in>
      {(gate_future op, os_begin_remediate_future op, os_escalate_ai_future op)} \<union>
      (if o2 = o' then
        {(Some (rg_next R), os_begin_remediate_future op, os_escalate_ai_future op),
         (gate_future op, Some (rg_next R), os_escalate_ai_future op),
         (gate_future op, os_begin_remediate_future op, Some (rg_next R))} else {})"
    using op(2) assms(1) unfolding fresh_slot_def by auto
  with old show thesis by (intro that [OF op(1)]) (auto split: if_splits)
qed

lemma fut_step_assign:
  assumes "fresh_slot upd"
  shows "fut_step R (assign_future upd o' R)"
proof -
  let ?R = "assign_future upd o' R" and ?f = "rg_next R"
  have fields: "rg_futures ?R = dict_set ?f Fut_pending (rg_futures R)" "rg_next ?R = Suc ?f" "rg_committing ?R = rg_committing R"
    by (auto simp: assign_future_def create_future_def update_op_def split: option.splits)
  show ?thesis
  proof (cases "gates_ok R")
    case True
    then have ok: "slot_ok R" "commit_ok R" by (auto simp: gates_ok_def)
    have new: "f \<noteq> ?f" if "dict_get (rg_futures R) f \<noteq> None" for f using True that by (auto simp: gates_ok_def)
    have slot: "slot_ok ?R"
      unfolding slot_ok_def
    proof (intro conjI allI impI)
      fix o2 op2 f
      assume a: "dict_get (rg_ops ?R) o2 = Some op2" "Some f \<in> {gate_future op2, os_begin_remediate_future op2, os_escalate_ai_future op2}"
      from a(2) have "gate_future op2 = Some f \<or> os_begin_remediate_future op2 = Some f \<or> os_escalate_ai_future op2 = Some f" by auto
      then obtain q where q: "dict_get (rg_ops R) o2 = Some q"
        "f = ?f \<or> gate_future q = Some f \<or> os_begin_remediate_future q = Some f \<or> os_escalate_ai_future q = Some f"
        using assign_future_slots [OF assms ok(1) a(1)] by metis
      with slot_okD(1) [OF ok(1) q(1), of f] show "f < rg_next ?R" by (auto simp: fields)
    next
      fix o1 op1 o2 op2 f
      assume a: "dict_get (rg_ops ?R) o1 = Some op1" "dict_get (rg_ops ?R) o2 = Some op2" "gate_future op1 = Some f"
      obtain q1 where q1: "dict_get (rg_ops R) o1 = Some q1" "f = ?f \<and> o1 = o' \<or> gate_future q1 = Some f"
        by (rule assign_future_slots [OF assms ok(1) a(1)]) (use a(3) in blast)
      obtain q2 where q2: "dict_get (rg_ops R) o2 = Some q2"
        "gate_future op2 = Some f \<longrightarrow> f = ?f \<and> o2 = o' \<or> gate_future q2 = Some f"
        "os_begin_remediate_future op2 = Some f \<longrightarrow> f = ?f \<and> o2 = o' \<or> os_begin_remediate_future q2 = Some f"
        "os_escalate_ai_future op2 = Some f \<longrightarrow> f = ?f \<and> o2 = o' \<or> os_escalate_ai_future q2 = Some f"
        "gate_future op2 = Some ?f \<longrightarrow> os_begin_remediate_future op2 \<noteq> Some ?f \<and> os_escalate_ai_future op2 \<noteq> Some ?f"
        by (rule assign_future_slots [OF assms ok(1) a(2)]) blast
      have lt: "Some ?f \<notin> {gate_future q1, gate_future q2, os_begin_remediate_future q2, os_escalate_ai_future q2}"
        using slot_okD(1) [OF ok(1) q1(1), of ?f] slot_okD(1) [OF ok(1) q2(1), of ?f] by auto
      show "os_begin_remediate_future op2 \<noteq> Some f" "os_escalate_ai_future op2 \<noteq> Some f" "gate_future op2 = Some f \<Longrightarrow> o2 = o1"
        using q1(2) q2(2-) lt slot_okD(2) [OF ok(1) q1(1) q2(1), of f] a by auto
    qed
    have "commit_ok ?R"
      unfolding commit_ok_def
    proof (intro conjI allI impI)
      fix o1 f ids
      assume "(o1, f, ids) \<in> set (rg_committing ?R)"
      then have c: "(o1, f, ids) \<in> set (rg_committing R)" by (simp add: fields)
      have p: "fut_pending R f" using commit_okD(1) [OF ok(2) c] .
      then have nf: "f \<noteq> ?f" using new [of f] by (simp add: fut_pending_def)
      show "fut_pending ?R f" using p nf by (simp add: fut_pending_def fields dict_simps)
      fix o2 op2
      assume op2: "dict_get (rg_ops ?R) o2 = Some op2"
      show "os_begin_remediate_future op2 \<noteq> Some f" "os_escalate_ai_future op2 \<noteq> Some f" "gate_future op2 = Some f \<Longrightarrow> o2 = o1"
        by (rule assign_future_slots [OF assms ok(1) op2]; use nf commit_okD(2) [OF ok(2) c] in blast)+
    qed (use ok(2) in \<open>simp_all add: fields commit_ok_def\<close>)
    with slot True show ?thesis
      unfolding fut_step_def by (auto simp: fields gates_ok_def settled_kept_def dict_simps less_SucI split: if_splits)
  qed (simp add: fut_step_def fields)
qed

lemma fut_step_ensure [fut_steps]: "fut_step R (ensure_begin_future o' R)" "fut_step R (ensure_escalate_future o' R)"
proof -
  have "fresh_slot (\<lambda>f op. op\<lparr>os_begin_remediate_future := Some f\<rparr>)" "fresh_slot (\<lambda>f op. op\<lparr>os_escalate_ai_future := Some f\<rparr>)"
    by (simp_all add: fresh_slot_def gate_future_def)
  from this [THEN fut_step_assign, of R o']
  show "fut_step R (ensure_begin_future o' R)" "fut_step R (ensure_escalate_future o' R)"
    by (auto simp: ensure_begin_future_def ensure_escalate_future_def assign_future_def Let_def split: option.splits)
qed

text \<open>Continuing a sequence of calls.\<close>

lemma fut_after:
  "fut_step A R \<Longrightarrow> fut_step A (broadcast o' ev data R)"
  "fut_step A R \<Longrightarrow> fut_step A (transition now o' st err code R)"
  "fut_step A R \<Longrightarrow> fut_step A (ensure_begin_future o' R)"
  "fut_step A R \<Longrightarrow> fut_step A (ensure_escalate_future o' R)"
  "fut_step A R \<Longrightarrow> fut_step A (cancel_task op R)"
  "fut_step A R \<Longrightarrow> fresh_slot upd \<Longrightarrow> fut_step A (assign_future upd o' R)"
  "fut_step A R \<Longrightarrow> uncommitted A slot \<Longrightarrow> v \<noteq> Fut_pending \<Longrightarrow> fut_step A (settle slot v R)"
  by (blast intro: fut_step_trans fut_steps fut_step_assign fut_step_settle uncommitted_step [THEN iffD2])+

lemma fut_after_update:
  assumes "fut_step A R"
    and "\<And>op. gate_future (f op) \<in> {None, gate_future op} \<and>
      os_begin_remediate_future (f op) \<in> {None, os_begin_remediate_future op} \<and>
      os_escalate_ai_future (f op) \<in> {None, os_escalate_ai_future op}"
  shows "fut_step A (update_op o' f R)"
  using assms(1) fut_step_update [of f R o'] assms(2) by (blast intro: fut_step_trans)

lemmas fut_intros = fut_after fut_after_update fut_step_refl

lemma fut_step_calls [fut_steps]:
  "fut_step R (set_operation_budget o' b R)" "fut_step R (add_progress o' e R)"
  "fut_step R (broadcast_proposal_updated o' js R)" "fut_step R (set_result o' res R)"
  "fut_step R (set_pr_url now o' url R)" "fut_step R (unsubscribe o' i R)"
  "fut_step R (bridge_gate o' f R)" "fut_step R (bridge_begin o' R)" "fut_step R (bridge_escalate o' R)"
  "fut_step R (drive_finish now o' fin R)" "fut_step R (set_findings now o' fs R)"
  by (auto simp: set_operation_budget_def add_progress_def broadcast_proposal_updated_def set_result_def
      set_pr_url_def unsubscribe_def bridge_gate_def bridge_begin_def bridge_escalate_def drive_finish_def
      set_findings_def Let_def gate_future_def split: option.splits drive_end.splits if_splits intro!: fut_intros)

lemma fut_step_subscribe [fut_steps]: "fut_step R (fst (subscribe o' R))"
  by (auto simp: subscribe_def Let_def gate_future_def split: option.splits
      intro!: fut_after_update [OF fut_step_queues(2)])

lemma set_proposals_assign:
  "set_proposals now gid o' ps gen R =
     (case dict_get (rg_ops R) o' of
        None \<Rightarrow> R
      | Some op \<Rightarrow>
          broadcast o' PROPOSALS [(''proposals'', J_list (map proposal_json ps)), (''approval_gate_id'', J_str gid)]
           (transition now o' AWAITING_APPROVAL None None
             (assign_future (\<lambda>f op. op\<lparr>os_approval_gate := Some \<lparr>ag_future = f, ag_prompt_generation = gen, ag_gate_id = gid\<rparr>\<rparr>) o'
               (settle (gate_future op) (Fut_ids [])
                 (update_op o' (\<lambda>op. op\<lparr>os_proposals := Some ps\<rparr>)
                   (settle (os_escalate_ai_future op) (Fut_targets []) (settle (os_begin_remediate_future op) Fut_none R)))))))"
  by (auto simp: set_proposals_def assign_future_def Let_def case_prod_unfold split: option.splits)

lemma gate_future_frame [simp]:
  "gate_future (op\<lparr>os_proposals := x\<rparr>) = gate_future op" "gate_future (op\<lparr>os_ai_triage_candidates := y\<rparr>) = gate_future op"
  "gate_future (op\<lparr>os_scan_type := s\<rparr>) = gate_future op" "gate_future (op\<lparr>os_escalate_ai_future := f\<rparr>) = gate_future op"
  "gate_future (op\<lparr>os_approval_gate := None\<rparr>) = None" "gate_future (op\<lparr>os_approval_gate := Some g\<rparr>) = Some (ag_future g)"
  by (simp_all add: gate_future_def)

lemma fut_step_set_ai_triage: "gates_ok R \<Longrightarrow> fut_step R (set_ai_triage now o' cs R)"
  using uncommitted_slots [of R o'] by (auto simp: set_ai_triage_def Let_def split: option.splits intro!: fut_intros)

lemma fut_step_set_proposals: "gates_ok R \<Longrightarrow> \<not> gate_locked R o' \<Longrightarrow> fut_step R (set_proposals now gid o' ps gen R)"
  using uncommitted_slots [of R o']
  by (auto simp: set_proposals_assign fresh_slot_def split: option.splits intro!: fut_intros)

lemma fut_step_cancel_finish: "gates_ok R \<Longrightarrow> \<not> gate_locked R o' \<Longrightarrow> fut_step R (cancel_finish o' R)"
  using uncommitted_slots [of R o'] by (auto simp: cancel_finish_def split: option.splits intro!: fut_intros)

lemma fut_step_resolve_begin:
  assumes "gates_ok R" "dict_get (rg_ops R) o' = Some op" "os_begin_remediate_future op = Some f" "fut_pending R f"
  shows "fut_step R (write_future f Fut_none (update_op o2 (\<lambda>op. op\<lparr>os_scan_type := s\<rparr>) R))"
proof -
  have "fut_pending (update_op o2 (\<lambda>op. op\<lparr>os_scan_type := s\<rparr>) R) f"
    using assms(4) by (simp add: fut_pending_def update_op_def split: option.splits)
  moreover have "uncommitted R (Some f)" using uncommitted_slots(1) [OF assms(1,2)] assms(3) by simp
  ultimately show ?thesis by (auto simp: settle_pending intro!: fut_intros)
qed

lemma fut_step_timeouts:
  "gates_ok R \<Longrightarrow> fut_step R (on_begin_timeout o' R)" "gates_ok R \<Longrightarrow> fut_step R (on_escalate_timeout o' R)"
  using uncommitted_slots [of R o']
  by (auto simp: on_begin_timeout_def on_escalate_timeout_def split: option.splits intro!: fut_intros fut_step_resolve_begin)

text \<open>Entering and leaving the lock.\<close>

lemma gates_ok_enter:
  assumes "gates_ok R" "\<not> gate_locked R o'" "dict_get (rg_ops R) o' = Some op" "gate_future op = Some f" "fut_pending R f"
  shows "gates_ok (R\<lparr>rg_committing := (o', f, ids) # rg_committing R\<rparr>)"
proof -
  let ?R = "R\<lparr>rg_committing := (o', f, ids) # rg_committing R\<rparr>"
  have ok: "slot_ok R" "commit_ok R" using assms(1) by (auto simp: gates_ok_def)
  have lock: "o' \<notin> set (map fst (rg_committing R))" using assms(2) by (simp add: gate_locked_def)
  have other: "(o2, f, ids2) \<notin> set (rg_committing R)" for o2 ids2
  proof
    assume c: "(o2, f, ids2) \<in> set (rg_committing R)"
    from commit_okD(2) [OF ok(2) c assms(3)] assms(4) have "o2 = o'" by blast
    with c lock show False by force
  qed
  then have "f \<notin> set (map (fst \<circ> snd) (rg_committing R))" by auto
  moreover have "fut_pending ?R = fut_pending R" by (simp add: fut_pending_def fun_eq_iff)
  ultimately have "commit_ok ?R"
    using ok(2) lock assms(5) slot_okD(2) [OF ok(1) assms(3) _ assms(4)]
    unfolding commit_ok_def by auto
  moreover have "slot_ok ?R" using ok(1) by (simp add: slot_ok_def)
  ultimately show ?thesis using assms(1) by (simp add: gates_ok_def)
qed

lemma approve_locked_ok:
  assumes "gates_ok R" "\<not> gate_locked R o'" "approve_locked o' gate ids gid R = Inr R'"
  shows "gates_ok R' \<and> settled_kept R R'"
  using assms gates_ok_enter [OF assms(1,2)]
  by (auto simp: approve_locked_def conflict_def settled_kept_def split: option.splits if_splits)

lemma take_committing_Some:
  "take_committing o' cs = Some (x, ds) \<Longrightarrow> \<exists>as bs. cs = as @ (o', x) # bs \<and> ds = as @ bs"
proof (induction o' cs arbitrary: x ds rule: take_committing.induct)
  case (2 o' q y cs)
  show ?case
  proof (cases "q = o'")
    case False
    with 2(2) obtain es where "take_committing o' cs = Some (x, es)" "ds = (q, y) # es" by auto
    with 2(1) [OF False] show ?thesis by (metis append_Cons)
  qed (use 2(2) in \<open>auto intro: exI [of _ "[]"]\<close>)
qed simp

lemma commit_step:
  assumes "gates_ok R" and "take_committing o' (rg_committing R) = Some ((f, ids), cs)"
  shows "gates_ok (R\<lparr>rg_committing := cs\<rparr>)" "fut_pending R f" "uncommitted (R\<lparr>rg_committing := cs\<rparr>) (Some f)"
proof -
  have ok: "slot_ok R" "commit_ok R" using assms(1) by (auto simp: gates_ok_def)
  obtain as bs where cs: "rg_committing R = as @ (o', f, ids) # bs" "cs = as @ bs"
    using take_committing_Some [OF assms(2)] by blast
  show "fut_pending R f" using commit_okD(1) [OF ok(2), of o' f ids] cs(1) by simp
  show "uncommitted (R\<lparr>rg_committing := cs\<rparr>) (Some f)"
    using ok(2) cs by (auto simp: commit_ok_def uncommitted_def)
  have "fut_pending (R\<lparr>rg_committing := cs\<rparr>) = fut_pending R" by (simp add: fut_pending_def fun_eq_iff)
  then have "commit_ok (R\<lparr>rg_committing := cs\<rparr>)" using ok(2) cs unfolding commit_ok_def by auto
  moreover have "slot_ok (R\<lparr>rg_committing := cs\<rparr>)" using ok(1) by (simp add: slot_ok_def)
  ultimately show "gates_ok (R\<lparr>rg_committing := cs\<rparr>)" using assms(1) by (simp add: gates_ok_def)
qed

lemma fut_step_create:
  assumes "registry_create o' p scan ty started R = Inr R'"
  shows "fut_step R R'"
proof -
  have ins: "fut_step Q (Q\<lparr>rg_ops := dict_set o' (new_operation o' p scan ty started) (rg_ops Q), rg_by_project := d\<rparr>)" for Q d
    by (rule fut_step_frame) (auto simp: slots_from_def new_operation_def gate_future_def dict_simps split: if_splits)
  from assms show ?thesis
    by (auto simp: registry_create_def Let_def split: option.splits if_splits
        intro!: ins fut_step_trans [OF fut_step_remove ins])
qed

lemma fut_step_fold_remove: "fut_step R (fold registry_remove os R)"
  by (induction os arbitrary: R) (auto intro: fut_step_trans fut_step_remove)

lemma fut_step_reap: "fut_step R (reap now ttl R)"
  unfolding reap_def by (rule fut_step_fold_remove)

lemma fut_step_shutdown: "fut_step R (shutdown R)"
proof -
  let ?f = "\<lambda>(o' :: string, op) R. (cancel_task op R)\<lparr>rg_queues := send_close (os_sse_subscribers op) (rg_queues R)\<rparr>"
  have fold: "rg_futures (fold ?f xs Q) = rg_futures Q \<and> rg_committing (fold ?f xs Q) = rg_committing Q \<and> rg_next (fold ?f xs Q) = rg_next Q" for xs Q
    by (induction xs arbitrary: Q) (auto simp: cancel_task_def)
  show ?thesis
    unfolding shutdown_def Let_def using fold [of "rg_ops R" R]
    by (intro fut_step_frame) (simp_all add: slots_from_def)
qed

lemma get_by_project_op: "index_ok R \<Longrightarrow> get_by_project R p = Some op \<Longrightarrow> dict_get (rg_ops R) (os_operation_id op) = Some op"
  by (auto simp: get_by_project_def dest: index_okD(2) split: option.splits)

lemma fut_step_ok: "fut_step R R' \<Longrightarrow> gates_ok R \<Longrightarrow> gates_ok R' \<and> settled_kept R R'"
  by (simp add: fut_step_def)

lemma gates_step:
  assumes "registry_step R R'" and "index_ok R" and "gates_ok R"
  shows "gates_ok R' \<and> settled_kept R R'"
  using assms
proof (induction rule: registry_step.induct)
  case (remove_project p R R')
  then have "fut_step R R'" by (auto simp: remove_project_def fut_step_remove split: option.splits if_splits)
  with remove_project show ?case by (simp add: fut_step_def)
next
  case (approve_begin p ids gid R R')
  then obtain o' gate where "\<not> gate_locked R o'" "approve_locked o' gate ids gid R = Inr R'"
    by (auto simp: approve_begin_def split: sum.splits)
  with approve_begin(4) show ?case by (rule approve_locked_ok)
next
  case (approve_commit o' R R')
  show ?case
  proof (cases "take_committing o' (rg_committing R)")
    case (Some a)
    then obtain f ids cs where c: "take_committing o' (rg_committing R) = Some ((f, ids), cs)" by (metis prod.collapse)
    note commit = commit_step [OF approve_commit(3) c]
    have "R' = settle (Some f) (Fut_ids ids) (R\<lparr>rg_committing := cs\<rparr>)"
      using approve_commit(1) c by (auto simp: approve_commit_def Let_def settle_def split: if_splits)
    with fut_step_ok [OF fut_step_settle [OF commit(3)] commit(1)] show ?thesis
      by (auto simp: settled_kept_def)
  qed (use approve_commit in \<open>auto simp: approve_commit_def settled_kept_def\<close>)
next
  case (approve_abort R o')
  show ?case
  proof (cases "take_committing o' (rg_committing R)")
    case (Some a)
    then obtain f ids cs where c: "take_committing o' (rg_committing R) = Some ((f, ids), cs)" by (metis prod.collapse)
    with commit_step(1) [OF approve_abort(2) c] show ?thesis by (simp add: approve_abort_def settled_kept_def)
  qed (use approve_abort in \<open>simp add: approve_abort_def settled_kept_def\<close>)
next
  case (approve_timeout R o')
  then show ?case
    using gates_ok_enter [of R o']
    by (auto simp: approve_timeout_begin_def settled_kept_def gate_future_def split: option.splits if_splits)
next
  case (begin_remediate p R R')
  then have "fut_step R R'"
    using get_by_project_op [of R p]
    by (auto simp: begin_remediate_def conflict_def split: option.splits if_splits intro: fut_step_resolve_begin)
  with begin_remediate show ?case by (simp add: fut_step_def)
next
  case (escalate_ai now p ts R R')
  then have "fut_step R R'"
    using get_by_project_op [of R p] uncommitted_slots(2) [of R]
    by (auto simp: escalate_ai_def conflict_def split: option.splits if_splits intro!: fut_intros)
  with escalate_ai show ?case by (simp add: fut_step_def)
next
  case (patch_drafts p us js R R')
  then have "fut_step R R'"
    by (auto simp: patch_draft_proposals_def conflict_def broadcast_proposal_updated_def split: option.splits if_splits
        intro!: fut_intros)
  with patch_drafts show ?case by (simp add: fut_step_def)
next
  case (cancel_begin now p R R')
  then have "fut_step R R'" by (auto simp: cancel_begin_def conflict_def split: option.splits if_splits intro!: fut_intros)
  with cancel_begin show ?case by (simp add: fut_step_def)
qed ((rule fut_step_ok, (rule fut_steps fut_step_reap fut_step_shutdown | rule fut_step_create fut_step_set_ai_triage
    fut_step_set_proposals fut_step_cancel_finish fut_step_timeouts; assumption), assumption) | (rule approve_locked_ok; assumption))+

section \<open>Queues\<close>

text \<open>Queues stay within their bound, and an operation has each of its subscribers once.\<close>

definition bounded :: "(nat, jobj list) dict \<Rightarrow> bool" where
  "bounded qs \<longleftrightarrow> (\<forall>i q. dict_get qs i = Some q \<longrightarrow> length q \<le> QUEUE_MAXSIZE)"

definition subscribers_ok :: "registry_state \<Rightarrow> bool" where
  "subscribers_ok R \<longleftrightarrow>
     (\<forall>o' op. dict_get (rg_ops R) o' = Some op \<longrightarrow>
        distinct (os_sse_subscribers op) \<and> (\<forall>i\<in>set (os_sse_subscribers op). i < rg_next R))"

definition queue_step :: "registry_state \<Rightarrow> registry_state \<Rightarrow> bool" where
  "queue_step R R' \<longleftrightarrow> (bounded (rg_queues R) \<longrightarrow> bounded (rg_queues R')) \<and> (subscribers_ok R \<longrightarrow> subscribers_ok R')"

lemma queue_step_refl [simp]: "queue_step R R"
  by (simp add: queue_step_def)

lemma queue_step_trans: "queue_step A B \<Longrightarrow> queue_step B C \<Longrightarrow> queue_step A C"
  by (simp add: queue_step_def)

lemma queue_step_update:
  assumes "\<And>op. distinct (os_sse_subscribers op) \<Longrightarrow> distinct (os_sse_subscribers (f op))"
    and "\<And>op. set (os_sse_subscribers (f op)) \<subseteq> set (os_sse_subscribers op)"
  shows "queue_step R (update_op o' f R)"
proof (cases "dict_get (rg_ops R) o'")
  case (Some op)
  with assms [of op] show ?thesis
    by (auto simp: queue_step_def subscribers_ok_def update_op_def dict_simps split: if_splits)
qed (simp add: update_op_def)

lemma queue_step_frame:
  "queue_step R (write_future f v R)" "queue_step R (settle s v R)" "queue_step R (fst (create_future R))"
  "queue_step R (cancel_task op R)" "queue_step R (R\<lparr>rg_committing := cs\<rparr>)"
  by (auto simp: queue_step_def subscribers_ok_def write_future_def settle_def create_future_def
      cancel_task_def less_SucI split: option.splits)

lemma bounded_set: "bounded qs \<Longrightarrow> length q \<le> QUEUE_MAXSIZE \<Longrightarrow> bounded (dict_set i q qs)"
  by (auto simp: bounded_def dict_simps)

lemma bounded_queue_of: "bounded qs \<Longrightarrow> length (queue_of qs i) \<le> QUEUE_MAXSIZE"
  by (auto simp: bounded_def queue_of_def split: option.splits)

lemma deliver_bounded: "bounded qs \<Longrightarrow> bounded (fst (deliver m is qs))"
proof (induction "is" arbitrary: qs)
  case (Cons i "is")
  show ?case
  proof (cases "enqueue m (queue_of qs i)")
    case (Some q)
    have "bounded (dict_set i q qs)"
      using Cons.prems enqueue_bounded [OF bounded_queue_of [OF Cons.prems] Some] by (rule bounded_set)
    from Cons.IH [OF this] Some show ?thesis by (simp add: Let_def case_prod_unfold)
  qed (use Cons in simp)
qed simp

lemma deliver_subset: "set (snd (deliver m is qs)) \<subseteq> set is"
  by (induction m "is" qs rule: deliver.induct) (auto simp: Let_def case_prod_unfold split: option.splits)

lemma deliver_distinct: "distinct is \<Longrightarrow> distinct (snd (deliver m is qs))"
  by (induction m "is" qs rule: deliver.induct)
    (auto simp: Let_def case_prod_unfold split: option.splits dest: subsetD [OF deliver_subset])

lemma queue_step_broadcast: "queue_step R (broadcast o' ev data R)"
proof (cases "dict_get (rg_ops R) o'")
  case (Some op)
  let ?d = "deliver (message ev data) (os_sse_subscribers op) (rg_queues R)"
  have R': "broadcast o' ev data R =
      update_op o' (\<lambda>op. op\<lparr>os_sse_subscribers := snd ?d\<rparr>) (R\<lparr>rg_queues := fst ?d\<rparr>)"
    using Some by (simp add: broadcast_update Let_def)
  have "subscribers_ok R \<Longrightarrow> subscribers_ok (broadcast o' ev data R)"
    using Some deliver_subset [of "message ev data" "os_sse_subscribers op" "rg_queues R"] deliver_distinct [of "os_sse_subscribers op"]
    by (auto simp: R' subscribers_ok_def update_op_def dict_simps split: if_splits)
  moreover have "bounded (rg_queues R) \<Longrightarrow> bounded (rg_queues (broadcast o' ev data R))"
    using Some deliver_bounded [of "rg_queues R" "message ev data" "os_sse_subscribers op"]
    by (simp add: R' update_op_def)
  ultimately show ?thesis by (simp add: queue_step_def)
qed (simp add: broadcast_def)

lemma queue_step_transition: "queue_step R (transition now o' st err code R)"
proof (cases "dict_get (rg_ops R) o'")
  case (Some op)
  then show ?thesis
    by (auto simp: transition_def Let_def intro!: queue_step_trans [OF _ queue_step_broadcast])
      (auto simp: queue_step_def subscribers_ok_def dict_simps split: if_splits)
qed (simp add: transition_def)

lemma bounded_send_close: "bounded qs \<Longrightarrow> bounded (send_close is qs)"
  unfolding send_close_def
  by (induction "is" arbitrary: qs) (simp_all add: Let_def bounded_set)

lemma queue_step_remove: "queue_step R (registry_remove o' R)"
proof (cases "dict_get (rg_ops R) o'")
  case (Some op)
  then show ?thesis
    by (auto simp: registry_remove_def Let_def cancel_task_def queue_step_def subscribers_ok_def dict_simps bounded_send_close
        split: if_splits)
qed (simp add: registry_remove_def)

lemma queue_step_fold_remove: "queue_step R (fold registry_remove os R)"
  by (induction os arbitrary: R) (auto intro: queue_step_trans queue_step_remove)

lemma queue_step_shutdown: "queue_step R (shutdown R)"
proof -
  let ?f = "\<lambda>(o' :: string, op) R. (cancel_task op R)\<lparr>rg_queues := send_close (os_sse_subscribers op) (rg_queues R)\<rparr>"
  have "bounded (rg_queues Q) \<Longrightarrow> bounded (rg_queues (fold ?f xs Q))" for xs Q
    by (induction xs arbitrary: Q) (auto simp: cancel_task_def bounded_send_close)
  then show ?thesis by (simp add: shutdown_def Let_def queue_step_def subscribers_ok_def)
qed

lemma queue_step_subscribe: "queue_step R (fst (subscribe o' R))"
  by (auto simp: subscribe_def Let_def queue_step_def subscribers_ok_def update_op_def dict_simps less_SucI
      intro!: bounded_set split: option.splits if_splits)

lemma queue_step_create:
  assumes "registry_create o' p scan ty started R = Inr R'"
  shows "queue_step R R'"
proof -
  have ins: "queue_step Q (Q\<lparr>rg_ops := dict_set o' (new_operation o' p scan ty started) (rg_ops Q), rg_by_project := d\<rparr>)" for Q d
    by (auto simp: queue_step_def subscribers_ok_def new_operation_def dict_simps split: if_splits)
  from assms show ?thesis
    by (auto simp: registry_create_def Let_def split: option.splits if_splits
        intro!: ins queue_step_trans [OF queue_step_remove ins])
qed

lemmas queue_after = queue_step_trans [OF _ queue_step_broadcast] queue_step_trans [OF _ queue_step_transition]
  queue_step_trans [OF _ queue_step_update] queue_step_trans [OF _ queue_step_frame(1)]
  queue_step_trans [OF _ queue_step_frame(2)] queue_step_trans [OF _ queue_step_frame(3)]
  queue_step_trans [OF _ queue_step_frame(4)] queue_step_trans [OF _ queue_step_frame(5)]

lemma queue_step_ensure: "queue_step R (ensure_begin_future o' R)" "queue_step R (ensure_escalate_future o' R)"
  by (auto simp: ensure_begin_future_def ensure_escalate_future_def case_prod_unfold Let_def split: option.splits intro!: queue_after)

lemmas queue_calls = set_operation_budget_def add_progress_def broadcast_proposal_updated_def set_result_def
  set_pr_url_def unsubscribe_def bridge_gate_def bridge_begin_def bridge_escalate_def drive_finish_def cancel_finish_def
  on_begin_timeout_def on_escalate_timeout_def approve_timeout_begin_def approve_abort_def set_findings_def set_ai_triage_def
  set_proposals_def

lemma queue_step_calls:
  "queue_step R (set_operation_budget o' b R)" "queue_step R (add_progress o' e R)"
  "queue_step R (broadcast_proposal_updated o' js R)" "queue_step R (set_result o' res R)"
  "queue_step R (set_pr_url now o' url R)" "queue_step R (unsubscribe o' i R)"
  "queue_step R (bridge_gate o' f R)" "queue_step R (bridge_begin o' R)" "queue_step R (bridge_escalate o' R)"
  "queue_step R (cancel_finish o' R)" "queue_step R (on_begin_timeout o' R)" "queue_step R (on_escalate_timeout o' R)"
  "queue_step R (approve_timeout_begin o' R)" "queue_step R (approve_abort o' R)" "queue_step R (drive_finish now o' fin R)"
  "queue_step R (set_findings now o' fs R)" "queue_step R (set_ai_triage now o' cs R)"
  "queue_step R (set_proposals now gid o' ps gen R)"
  by (auto simp: queue_calls Let_def case_prod_unfold split: option.splits drive_end.splits if_splits
      intro!: queue_after queue_step_trans [OF _ queue_step_ensure(1)] queue_step_trans [OF _ queue_step_ensure(2)])
    (auto dest: set_remove1_subset [THEN subsetD])

lemma queue_step_step: "registry_step R R' \<Longrightarrow> queue_step R R'"
proof (induction rule: registry_step.induct)
  case (remove_project p R R')
  then show ?case by (auto simp: remove_project_def queue_step_remove split: option.splits if_splits)
next
  case (approve_begin p ids gid R R')
  then show ?case
    by (auto simp: approve_begin_def approve_locked_def conflict_def queue_step_frame split: sum.splits option.splits if_splits)
next
  case (approve_resume R o' gate ids gid R')
  then show ?case by (auto simp: approve_locked_def conflict_def queue_step_frame split: option.splits if_splits)
next
  case (approve_commit o' R R')
  then show ?case
    by (auto simp: approve_commit_def Let_def split: option.splits if_splits
        intro!: queue_step_trans [OF queue_step_frame(5) queue_step_frame(1)])
next
  case (begin_remediate p R R')
  then show ?case
    by (auto simp: begin_remediate_def conflict_def split: option.splits if_splits
        intro!: queue_step_trans [OF queue_step_update queue_step_frame(1)])
next
  case (escalate_ai now p ts R R')
  then show ?case
    by (auto simp: escalate_ai_def conflict_def split: option.splits if_splits
        intro!: queue_step_trans [OF queue_step_frame(2) queue_step_transition])
next
  case (patch_drafts p us js R R')
  then show ?case
    by (auto simp: patch_draft_proposals_def conflict_def broadcast_proposal_updated_def split: option.splits if_splits
        intro!: queue_step_trans [OF queue_step_update queue_step_broadcast])
next
  case (cancel_begin now p R R')
  then show ?case
    by (auto simp: cancel_begin_def conflict_def split: option.splits if_splits
        intro!: queue_step_trans [OF queue_step_transition queue_step_frame(4)])
next
  case (reap R now ttl)
  show ?case unfolding reap_def by (rule queue_step_fold_remove)
qed (rule queue_step_create queue_step_shutdown queue_step_subscribe queue_step_transition queue_step_calls; assumption)+

section \<open>Reachable registries\<close>

definition reachable :: "registry_state \<Rightarrow> bool" where
  "reachable R \<longleftrightarrow> registry_step\<^sup>*\<^sup>* empty_registry R"

lemma registry_invariant:
  assumes "registry_step\<^sup>*\<^sup>* R R'" and "index_ok R \<and> gates_ok R \<and> bounded (rg_queues R) \<and> subscribers_ok R"
  shows "index_ok R' \<and> gates_ok R' \<and> bounded (rg_queues R') \<and> subscribers_ok R' \<and> settled_kept R R'"
  using assms
proof (induction rule: rtranclp_induct)
  case base
  then show ?case by (simp add: settled_kept_def)
next
  case (step R1 R2)
  then have "index_ok R1" "gates_ok R1" by auto
  with index_ok_step [OF step(2)] gates_step [OF step(2)] queue_step_step [OF step(2)] step(3) [OF step(4)]
  show ?case by (auto simp: queue_step_def settled_kept_def)
qed

lemma reachable_ok: "reachable R \<Longrightarrow> index_ok R \<and> gates_ok R \<and> bounded (rg_queues R) \<and> subscribers_ok R"
  unfolding reachable_def
  by (drule registry_invariant)
    (simp_all add: empty_registry_def index_ok_def gates_ok_def slot_ok_def commit_ok_def bounded_def subscribers_ok_def)


text \<open>
  C3. A future is resolved once: whatever runs afterwards, a future that is done keeps its value,
  and no approval handler ever resolves a future that is done already.
\<close>

theorem futures_write_once:
  assumes "registry_step\<^sup>*\<^sup>* empty_registry R" and "registry_step\<^sup>*\<^sup>* R R'"
  shows "(\<forall>f v. dict_get (rg_futures R) f = Some v \<and> v \<noteq> Fut_pending \<longrightarrow> dict_get (rg_futures R') f = Some v) \<and>
    (\<forall>o'. approve_commit o' R' \<noteq> Inl Invalid_state_error)"
proof -
  have ok: "index_ok R \<and> gates_ok R \<and> bounded (rg_queues R) \<and> subscribers_ok R"
    using assms(1) reachable_ok unfolding reachable_def by blast
  from registry_invariant [OF assms(2) ok] have R': "gates_ok R'" "settled_kept R R'" by auto
  have "approve_commit o' R' \<noteq> Inl Invalid_state_error" for o'
  proof (cases "take_committing o' (rg_committing R')")
    case (Some a)
    then obtain f ids cs where c: "take_committing o' (rg_committing R') = Some ((f, ids), cs)" by (metis prod.collapse)
    with commit_step(2) [OF R'(1) c] show ?thesis by (simp add: approve_commit_def Let_def fut_pending_def)
  qed (simp add: approve_commit_def)
  with R'(2) show ?thesis unfolding settled_kept_def by blast
qed

end
