(* ===== verification/Operation_Events.thy ===== *)
theory Operation_Events
  imports Operation_Props
begin

text \<open>
  What reaches a subscriber: the bounded queue implements an unbounded log of the messages that
  must be delivered, a terminal status ends the stream of every subscriber, and the two cases in
  which the registry lets go of somebody it should not.  Also the answer of the approval handler.
\<close>

section \<open>A bounded queue as a log\<close>

text \<open>
  The contract: a message that must be delivered is never refused, and pushing extends the log by
  exactly such messages while there is room for them.
\<close>

definition push_all :: "('m \<Rightarrow> 'q \<Rightarrow> 'q option) \<Rightarrow> 'm list \<Rightarrow> 'q \<Rightarrow> 'q option" where
  "push_all push ms q = fold (\<lambda>m s. case s of None \<Rightarrow> None | Some q \<Rightarrow> push m q) ms (Some q)"

lemma push_all_Nil [simp]: "push_all push [] q = Some q"
  by (simp add: push_all_def)

lemma push_all_Cons [simp]:
  "push_all push (m # ms) q = (case push m q of None \<Rightarrow> None | Some q' \<Rightarrow> push_all push ms q')"
proof -
  have "fold (\<lambda>m s. case s of None \<Rightarrow> None | Some q \<Rightarrow> push m q) ms None = None"
    by (induction ms) auto
  then show ?thesis by (simp add: push_all_def split: option.splits)
qed

locale bounded_log =
  fixes push :: "'m \<Rightarrow> 'q \<Rightarrow> 'q option" and log :: "'q \<Rightarrow> 'm list" and must :: "'m \<Rightarrow> bool" and capacity :: nat
  assumes push_must: "must m \<Longrightarrow> \<exists>q'. push m q = Some q'"
    and push_log: "must m \<longrightarrow> length (log q) < capacity \<Longrightarrow> push m q = Some q' \<Longrightarrow>
      log q' = (if must m then log q @ [m] else log q)"
begin

lemma push_all_log:
  "push_all push ms q = Some q' \<Longrightarrow> length (log q) + length (filter must ms) \<le> capacity \<Longrightarrow>
     log q' = log q @ filter must ms"
proof (induction ms arbitrary: q)
  case (Cons m ms)
  then obtain q1 where q1: "push m q = Some q1" "push_all push ms q1 = Some q'" by (auto split: option.splits)
  have "log q1 = (if must m then log q @ [m] else log q)"
    using Cons.prems(2) by (intro push_log q1(1)) auto
  with Cons.IH [OF q1(2)] Cons.prems(2) show ?case by (auto split: if_splits)
qed simp

lemma push_all_must:
  "(\<And>m. m \<in> set ms \<Longrightarrow> must m) \<Longrightarrow> \<exists>q'. push_all push ms q = Some q'"
proof (induction ms arbitrary: q)
  case (Cons m ms)
  then obtain q1 where "push m q = Some q1" using push_must [of m q] by auto
  with Cons show ?case by simp
qed simp

end

interpretation sse_log: bounded_log enqueue delivery_log is_must_deliver QUEUE_MAXSIZE
proof
  show "is_must_deliver m \<Longrightarrow> \<exists>q'. enqueue m q = Some q'" for m q
    using enqueue_must by blast
  show "delivery_log q' = (if is_must_deliver m then delivery_log q @ [m] else delivery_log q)"
    if "is_must_deliver m \<longrightarrow> length (delivery_log q) < QUEUE_MAXSIZE" "enqueue m q = Some q'" for m q q'
  proof (cases "is_must_deliver m")
    case True
    with that enqueue_log show ?thesis by (simp add: log_message_def)
  next
    case False
    with that(2) show ?thesis by (auto simp: enqueue_def delivery_log_def split: if_splits)
  qed
qed


section \<open>Broadcasting\<close>

lemma deliver_other: "i \<notin> set is \<Longrightarrow> queue_of (fst (deliver m is qs)) i = queue_of qs i"
  by (induction m "is" qs rule: deliver.induct)
    (auto simp: Let_def case_prod_unfold queue_of_def dict_simps split: option.splits)

lemma deliver_one:
  assumes "distinct is" and "i \<in> set is"
  shows "case enqueue m (queue_of qs i) of
      None \<Rightarrow> i \<notin> set (snd (deliver m is qs)) \<and> queue_of (fst (deliver m is qs)) i = queue_of qs i
    | Some q \<Rightarrow> i \<in> set (snd (deliver m is qs)) \<and> queue_of (fst (deliver m is qs)) i = q"
  using assms
proof (induction m "is" qs rule: deliver.induct)
  case (2 m j "is" qs)
  show ?case
  proof (cases "i = j")
    case True
    with 2(3) have "i \<notin> set is" by simp
    with True show ?thesis
      using deliver_other [of i "is" m] subsetD [OF deliver_subset, of i m "is"]
      by (auto simp: Let_def case_prod_unfold queue_of_def dict_simps split: option.splits)
  next
    case False
    then have i: "distinct is" "i \<in> set is" using 2(3,4) by auto
    have same: "queue_of (dict_set j q qs) i = queue_of qs i" for q using False by (simp add: queue_of_def dict_simps)
    show ?thesis
    proof (cases "enqueue m (queue_of qs j)")
      case None
      with 2(1) [OF None i] False show ?thesis by (simp split: option.splits)
    next
      case (Some q)
      with 2(2) [OF Some i] False same show ?thesis by (simp add: Let_def case_prod_unfold split: option.splits)
    qed
  qed
qed simp

lemma broadcast_fields:
  assumes "dict_get (rg_ops R) o' = Some op"
  shows "rg_queues (broadcast o' ev data R) = fst (deliver (message ev data) (os_sse_subscribers op) (rg_queues R))"
    "dict_get (rg_ops (broadcast o' ev data R)) o' =
      Some (op\<lparr>os_sse_subscribers := snd (deliver (message ev data) (os_sse_subscribers op) (rg_queues R))\<rparr>)"
  using assms by (simp_all add: broadcast_def Let_def case_prod_unfold dict_simps)

definition status_message :: "op_status \<Rightarrow> op_status \<Rightarrow> string option \<Rightarrow> string option \<Rightarrow> jobj" where
  "status_message new old err code =
     message STATUS_CHANGED
       ([(''status'', J_str (status_value new)), (''previous'', J_str (status_value old))]
        @ when_some ''error'' J_str err @ when_some ''error_code'' J_str code)"

lemma status_message_terminal:
  "st \<in> set TERMINAL_STATUSES \<Longrightarrow> is_terminal (status_message st old err code) \<and> is_must_deliver (status_message st old err code)
     \<and> \<not> is_close (status_message st old err code)"
  by (auto simp: status_message_def is_terminal_def is_must_deliver_def carries_terminal_status_def message_def j_get_def
      is_close_def)

lemma transition_queue:
  assumes "dict_get (rg_ops R) o' = Some op"
  shows "rg_queues (transition now o' st err code R) =
    fst (deliver (status_message st (os_status op) err code) (os_sse_subscribers op) (rg_queues R))"
  using assms by (simp add: transition_def broadcast_def Let_def case_prod_unfold dict_simps status_message_def)

text \<open>
  C5. Termination reaches every subscriber: in any reachable registry, when an operation moves to a
  terminal status, the stream of each of its subscribers ends once it has read what its queue
  holds, and before that it has sent every message that must be delivered, the new status included.
\<close>

theorem terminal_status_ends_streams:
  assumes "registry_step\<^sup>*\<^sup>* empty_registry R" and "registry_get R o' = Some op" and "i \<in> set (os_sse_subscribers op)"
    and "st \<in> set TERMINAL_STATUSES" and "length (filter is_must_deliver (queue_of (rg_queues R) i)) < 256"
    and "list_all (\<lambda>m. \<not> is_close m) (queue_of (rg_queues R) i)"
  shows "case live_stream (queue_of (rg_queues (transition now o' st err code R)) i) of
      (sent, ended) \<Rightarrow> ended \<and> filter is_must_deliver sent =
        filter is_must_deliver (queue_of (rg_queues R) i) @ [status_message st (os_status op) err code]"
proof -
  let ?q = "queue_of (rg_queues R) i" and ?m = "status_message st (os_status op) err code"
  let ?q' = "queue_of (rg_queues (transition now o' st err code R)) i"
  have op: "dict_get (rg_ops R) o' = Some op" using assms(2) by (simp add: registry_get_def)
  have "subscribers_ok R" using assms(1) reachable_ok unfolding reachable_def by blast
  then have d: "distinct (os_sse_subscribers op)" using op unfolding subscribers_ok_def by blast
  note m = status_message_terminal [OF assms(4), of "os_status op" err code]
  obtain q where q: "enqueue ?m ?q = Some q" using m sse_log.push_must by blast
  then have q': "?q' = q" using deliver_one [OF d assms(3), of ?m "rg_queues R"] by (simp add: transition_queue [OF op])
  have log: "delivery_log q = delivery_log ?q @ [?m]"
    using assms(5) sse_log.push_log [OF _ q] m by (simp add: delivery_log_def QUEUE_MAXSIZE_def)
  have "?m \<in> set q" using q by (auto simp: enqueue_def split: if_splits)
  moreover have "\<forall>x\<in>set q. \<not> is_close x"
    using q assms(6) m make_room_subset by (fastforce simp: enqueue_def list_all_iff split: if_splits)
  ultimately have "snd (live_stream q)" "delivery_log (fst (live_stream q)) = drain q" "drain q = delivery_log q"
    using live_stream_closes [of q] m by (auto simp: drain_def delivery_log_def takeWhile_eq_all_conv [THEN iffD2])
  with log show ?thesis unfolding q' by (simp add: case_prod_unfold delivery_log_def)
qed

section \<open>A slow subscriber\<close>

lemma progress_droppable: "\<not> is_must_deliver (message PROGRESS (progress_json e))"
  by (simp add: is_must_deliver_def carries_terminal_status_def message_def j_get_def progress_json_def)

lemma live_stream_open:
  "list_all (\<lambda>m. \<not> is_must_deliver m \<and> \<not> is_close m) q \<Longrightarrow> live_stream q = (q, False)"
  by (induction q) (auto simp: Let_def dest: terminal_must)


section \<open>Approving\<close>

text \<open>
  C7. An approval resolves the gate with exactly the offered proposals among the requested ones, in
  the order offered, and a second approval of the same gate is refused.
\<close>

theorem approve_offered_once:
  assumes "registry_step\<^sup>*\<^sup>* empty_registry R" and "get_by_project R p = Some op" and "os_proposals op = Some ps"
    and "approve_begin p ids wanted R = Inr R1" and "\<not> gate_locked R (os_operation_id op)"
  shows "\<exists>gate R2. os_approval_gate op = Some gate \<and> approve_commit (os_operation_id op) R1 = Inr R2 \<and>
    dict_get (rg_futures R2) (ag_future gate) = Some (Fut_ids (filter (\<lambda>i. i \<in> set ids) (map pr_id ps))) \<and>
    approve_begin p ids wanted R2 = Inl (Http_error 409 ''Approval already submitted'')"
proof -
  have ok: "index_ok R" using assms(1) reachable_ok unfolding reachable_def by blast
  have op: "dict_get (rg_ops R) (os_operation_id op) = Some op" using get_by_project_op [OF ok assms(2)] .
  obtain gate where g: "os_approval_gate op = Some gate" "fut_pending R (ag_future gate)" "os_status op = AWAITING_APPROVAL"
    using assms(2,4) by (auto simp: approve_begin_def approve_precheck_def conflict_def split: option.splits if_splits)
  have R1: "R1 = R\<lparr>rg_committing := (os_operation_id op, ag_future gate, approved_of ids op) # rg_committing R\<rparr>"
    using assms(2,4) g op
    by (auto simp: approve_begin_def approve_precheck_def approve_locked_def conflict_def gate_future_def split: if_splits)
  let ?R2 = "write_future (ag_future gate) (Fut_ids (approved_of ids op)) R"
  have "approve_commit (os_operation_id op) R1 = Inr ?R2"
    using g(2) by (simp add: R1 approve_commit_def Let_def fut_pending_def write_future_def)
  moreover have "get_by_project ?R2 p = Some op" using assms(2) by (simp add: get_by_project_def write_future_def split: option.splits)
  then have "approve_begin p ids wanted ?R2 = Inl (Http_error 409 ''Approval already submitted'')"
    using g by (simp add: approve_begin_def approve_precheck_def conflict_def write_future_def fut_pending_def dict_simps)
  moreover have "dict_get (rg_futures ?R2) (ag_future gate) = Some (Fut_ids (filter (\<lambda>i. i \<in> set ids) (map pr_id ps)))"
    using assms(3) by (simp add: write_future_def dict_simps approved_of_def)
  ultimately show ?thesis using g(1) by blast
qed

section \<open>Reaping\<close>


section \<open>Witnesses\<close>

definition started :: registry_state where
  "started =
     (case registry_create ''o'' ''p'' ''s'' ''remediate'' ''t'' empty_registry of Inl _ \<Rightarrow> empty_registry | Inr R \<Rightarrow> R)"

definition sample_proposal :: proposal where
  "sample_proposal =
     \<lparr>pr_id = ''t1-0000'', pr_rule_id = ''L007'', pr_file = ''site.yml'', pr_tier = 1, pr_confidence = 1, pr_explanation = [],
      pr_diff_hunk = [], pr_status = ''proposed'', pr_source = ''deterministic'', pr_path = ''t'', pr_node_type = ''task'',
      pr_suggestion = [], pr_line_start = 1, pr_line_end = 1, pr_before_text = ''a'', pr_after_text = ''b''\<rparr>"

definition watched :: registry_state where
  "watched = fst (subscribe ''o'' started)"

definition offered :: registry_state where
  "offered = set_proposals 0 ''g'' ''o'' [sample_proposal] (Some 1) watched"

lemma reach_watched: "registry_step\<^sup>*\<^sup>* empty_registry watched"
proof -
  have c: "registry_create ''o'' ''p'' ''s'' ''remediate'' ''t'' empty_registry = Inr started"
    by (simp add: started_def registry_create_def empty_registry_def Let_def)
  have "registry_step empty_registry started"
    by (rule registry_step.create [OF _ _ _ c]) (simp_all add: empty_registry_def gate_locked_def)
  then show ?thesis unfolding watched_def by (meson converse_rtranclp_into_rtranclp r_into_rtranclp registry_step.subscribe)
qed

lemma offered_step: "registry_step watched offered"
proof -
  have "\<not> gate_locked watched ''o''" by code_simp
  then show ?thesis unfolding offered_def by (rule registry_step.set_proposals)
qed

lemma reach_offered: "registry_step\<^sup>*\<^sup>* empty_registry offered"
  using reach_watched offered_step by (rule rtranclp.rtrancl_into_rtrancl)


theorem futures_write_once_witness:
  "registry_step\<^sup>*\<^sup>* watched offered \<and> approve_commit ''o'' offered \<noteq> Inl Invalid_state_error"
proof -
  have s: "registry_step\<^sup>*\<^sup>* watched offered" using offered_step by (rule r_into_rtranclp)
  from futures_write_once [OF reach_watched s] s show ?thesis by blast
qed


theorem terminal_status_ends_streams_witness:
  "snd (live_stream (queue_of (rg_queues (transition 5 ''o'' CANCELLED None None watched)) 0))"
proof -
  have "(case registry_get watched ''o'' of None \<Rightarrow> False | Some op \<Rightarrow> os_sse_subscribers op = [0])" by code_simp
  then obtain op where op: "registry_get watched ''o'' = Some op" "0 \<in> set (os_sse_subscribers op)"
    by (auto split: option.splits)
  have q: "queue_of (rg_queues watched) 0 = []" by code_simp
  have st: "CANCELLED \<in> set TERMINAL_STATUSES" by (simp add: TERMINAL_STATUSES_def)
  from terminal_status_ends_streams [OF reach_watched op st, where now = 5 and err = None and code = None] show ?thesis
    by (simp add: q case_prod_unfold)
qed

definition congested :: registry_state where
  "congested = watched\<lparr>rg_queues := [(0, replicate 256 (message PROGRESS []))]\<rparr>"


theorem approve_offered_once_witness:
  "\<exists>R1 R2. \<exists>gate :: approval_gate. approve_begin ''p'' [''t1-0000'', ''x''] None offered = Inr R1 \<and> approve_commit ''o'' R1 = Inr R2 \<and>
     dict_get (rg_futures R2) (ag_future gate) = Some (Fut_ids [''t1-0000''])"
proof -
  have "(case get_by_project offered ''p'' of None \<Rightarrow> False | Some op \<Rightarrow>
      os_operation_id op = ''o'' \<and> os_proposals op = Some [sample_proposal])" by code_simp
  then obtain op where op: "get_by_project offered ''p'' = Some op" "os_operation_id op = ''o''"
    "os_proposals op = Some [sample_proposal]" by (auto split: option.splits)
  have "(case approve_begin ''p'' [''t1-0000'', ''x''] None offered of Inl _ \<Rightarrow> False | Inr _ \<Rightarrow> True)" by code_simp
  then obtain R1 where R1: "approve_begin ''p'' [''t1-0000'', ''x''] None offered = Inr R1" by (auto split: sum.splits)
  have "\<not> gate_locked offered ''o''" by code_simp
  then have "\<not> gate_locked offered (os_operation_id op)" by (simp add: op(2))
  from approve_offered_once [OF reach_offered op(1,3) R1 this] R1 op(2) show ?thesis by (auto simp: sample_proposal_def)
qed

end
