(* ===== verification/Yaml_Text.thy ===== *)
theory Yaml_Text
  imports Prelude
begin

text \<open>
  Text surgery on YAML fragments: the indentation helpers of \<open>graph/content_graph.py\<close>
  (\<open>_detect_indent\<close>, \<open>_reindent\<close>) and the line splicing at the heart of
  \<open>splice_modifications\<close> of \<open>remediation/graph_engine.py\<close>, with a single-pass reference
  for the latter.
\<close>

section \<open>Indentation\<close>

definition leading :: "string \<Rightarrow> nat" where
  "leading l = length l - length (lstrip l)"

fun first_indent :: "string list \<Rightarrow> nat" where
  "first_indent [] = 0"
| "first_indent (l # ls) = (if lstrip l \<noteq> [] then leading l else first_indent ls)"

definition detect_indent :: "string \<Rightarrow> nat" where
  "detect_indent t = first_indent (splitlines t)"

definition shift_line :: "int \<Rightarrow> string \<Rightarrow> string" where
  "shift_line delta l =
     (if strip l = [] then l
      else if delta > 0 then replicate (nat delta) SP @ l
      else drop (min (nat (- delta)) (leading l)) l)"

definition reindent :: "string \<Rightarrow> int \<Rightarrow> string" where
  "reindent t target =
     (let delta = target - int (detect_indent t)
      in if delta = 0 then t else concat (map (shift_line delta) (splitlines_keep t)))"

section \<open>Splicing lines\<close>

text \<open>A final line without a newline gets one.\<close>

definition ensure_newline :: "string list \<Rightarrow> string list" where
  "ensure_newline ls =
     (if ls \<noteq> [] \<and> \<not> endswith [LF] (last ls) then butlast ls @ [last ls @ [LF]] else ls)"

text \<open>\<open>lines[line_start - 1 : line_end] = new_lines\<close>, for \<open>1 \<le> line_start \<le> line_end\<close>.\<close>

definition splice_one :: "nat \<Rightarrow> nat \<Rightarrow> string list \<Rightarrow> string list \<Rightarrow> string list" where
  "splice_one line_start line_end new_lines lines =
     take (line_start - 1) lines @ new_lines @ drop line_end lines"

record edit =
  ed_start :: nat
  ed_end :: nat
  ed_text :: string
  ed_rules :: "string list"

definition edit_lines :: "edit \<Rightarrow> string list" where
  "edit_lines e = ensure_newline (splitlines_keep (ed_text e))"

definition sort_edits :: "edit list \<Rightarrow> edit list" where
  "sort_edits es = sort_key (\<lambda>e. - int (ed_start e)) es"

fun splice_all :: "edit list \<Rightarrow> string list \<Rightarrow> string list" where
  "splice_all [] lines = lines"
| "splice_all (e # es) lines = splice_all es (splice_one (ed_start e) (ed_end e) (edit_lines e) lines)"

section \<open>Properties of the indentation helpers\<close>

lemma lstrip_eq_Nil: "lstrip l = [] \<longleftrightarrow> list_all is_space l"
  by (simp add: lstrip_def dropWhile_eq_Nil_conv list_all_iff)

lemma list_all_dropWhile: "list_all P (dropWhile P xs) \<longleftrightarrow> list_all P xs"
  by (induction xs) auto

lemma strip_eq_Nil: "strip l = [] \<longleftrightarrow> list_all is_space l"
  by (simp add: strip_def rstrip_def lstrip_def dropWhile_eq_Nil_conv flip: list_all_iff)
    (simp add: list_all_dropWhile)

lemma leading_takeWhile: "leading l = length (takeWhile is_space l)"
proof -
  have "length l = length (takeWhile is_space l) + length (dropWhile is_space l)"
    by (metis length_append takeWhile_dropWhile_id)
  then show ?thesis by (simp add: leading_def lstrip_def)
qed

lemma is_space_SP [simp]: "is_space SP" and not_is_break_SP [simp]: "\<not> is_break SP"
  by (simp_all add: is_space_def is_break_def code_of_def)

lemma is_space_if_break: "is_break c \<Longrightarrow> is_space c"
  by (auto simp: is_space_def is_break_def Let_def)

text \<open>
  The shape of \<open>splitlines(keepends=True)\<close>: every line but the last ends with a boundary,
  boundaries occur only at the end, and no line starts with the LF of a CR LF pair.
\<close>

abbreviation solid :: "string \<Rightarrow> bool" where
  "solid s \<equiv> list_all (\<lambda>c. \<not> is_break c) s"

definition line_end_ok :: "string \<Rightarrow> bool" where
  "line_end_ok b \<longleftrightarrow> (\<exists>c. is_break c \<and> b = [c]) \<or> b = [CR, LF]"

definition ended :: "string \<Rightarrow> string \<Rightarrow> bool" where
  "ended nxt l \<longleftrightarrow> (\<exists>p b. l = p @ b \<and> solid p \<and> line_end_ok b \<and> \<not> (b = [CR] \<and> take 1 nxt = [LF]))"

fun well_split :: "string list \<Rightarrow> bool" where
  "well_split [] = True"
| "well_split [l] = (l \<noteq> [] \<and> (solid l \<or> ended [] l))"
| "well_split (l # m # ls) = (ended m l \<and> well_split (m # ls))"

lemma ended_break: "is_break c \<Longrightarrow> \<not> (c = CR \<and> take 1 m = [LF]) \<Longrightarrow> ended m [c]"
  unfolding ended_def line_end_ok_def by (rule exI [of _ "[]"]) auto

lemma ended_CRLF: "ended m [CR, LF]"
  unfolding ended_def line_end_ok_def by (rule exI [of _ "[]"]) auto

lemma ended_append: "solid p \<Longrightarrow> ended m l \<Longrightarrow> ended m (p @ l)"
proof -
  assume p: "solid p" and "ended m l"
  then obtain q b where "l = q @ b" "solid q" "line_end_ok b" "\<not> (b = [CR] \<and> take 1 m = [LF])"
    by (auto simp: ended_def)
  with p show ?thesis unfolding ended_def by (intro exI [of _ "p @ q"] exI [of _ b]) simp
qed

lemma ended_nonempty: "ended m l \<Longrightarrow> l \<noteq> []"
  by (auto simp: ended_def line_end_ok_def)

lemma splitlines_keep_append_solid:
  "solid p \<Longrightarrow> p \<noteq> [] \<Longrightarrow> splitlines_keep (p @ s) =
     (case splitlines_keep s of [] \<Rightarrow> [p] | l # ls \<Rightarrow> (p @ l) # ls)"
proof (induction p)
  case (Cons c p)
  then show ?case
    by (cases "p = []"; cases "splitlines_keep s") (auto simp: splitlines_keep_char)
qed simp

lemma splitlines_keep_ended:
  assumes "ended s l"
  shows "splitlines_keep (l @ s) = l # splitlines_keep s"
proof -
  from assms obtain p b where l: "l = p @ b" "solid p" "line_end_ok b" "\<not> (b = [CR] \<and> take 1 s = [LF])"
    by (auto simp: ended_def)
  have b: "splitlines_keep (b @ s) = b # splitlines_keep s"
    using l(3,4) by (auto simp: line_end_ok_def splitlines_keep_break split: if_splits)
  show ?thesis
    using splitlines_keep_append_solid [OF l(2), of "b @ s"] b l(1) by (cases "p = []") auto
qed

lemma take_1_concat: "l \<noteq> [] \<Longrightarrow> take 1 (concat (l # ls)) = take 1 l"
  by (cases l) auto

lemma ended_cong: "take 1 m = take 1 m' \<Longrightarrow> ended m l = ended m' l"
  by (simp add: ended_def)

lemma well_split_nonempty: "well_split ls \<Longrightarrow> l \<in> set ls \<Longrightarrow> l \<noteq> []"
  by (induction ls rule: well_split.induct) (auto dest: ended_nonempty)

lemma splitlines_keep_concat: "well_split ls \<Longrightarrow> splitlines_keep (concat ls) = ls"
proof (induction ls rule: well_split.induct)
  case (2 l)
  then show ?case
    using splitlines_keep_append_solid [of l "[]"] splitlines_keep_ended [of "[]" l] by auto
next
  case (3 l m ls)
  then have "ended (concat (m # ls)) l"
    using well_split_nonempty [of "m # ls" m] ended_cong [OF take_1_concat] by auto
  from splitlines_keep_ended [OF this] 3 show ?case by simp
qed simp

lemma well_split_splitlines_keep: "well_split (splitlines_keep s)"
proof (induction s rule: splitlines_keep_induct)
  case (Break c cs)
  show ?case
  proof (cases "splitlines_keep cs")
    case (Cons m ls)
    have "m \<noteq> []" using Cons splitlines_keep_nonempty [of cs] by auto
    then have "take 1 cs = take 1 m"
      using Cons concat_splitlines_keep [of cs] take_1_concat by metis
    then show ?thesis using Break Cons by (auto simp: splitlines_keep_break intro: ended_break)
  qed (use Break in \<open>auto simp: splitlines_keep_break intro: ended_break\<close>)
next
  case (CRLF cs)
  show ?case
    using CRLF by (cases "splitlines_keep cs") (auto simp: splitlines_keep_break ended_CRLF)
next
  case (Char c cs)
  have "ended m (c # l)" if "ended m l" for m l
    using ended_append [of "[c]" m l] that Char.hyps by simp
  then have "well_split ((c # l) # ls)" if "well_split (l # ls)" for l ls
    using that Char.hyps by (cases ls) auto
  then show ?case using Char by (cases "splitlines_keep cs") (auto simp: splitlines_keep_char)
qed simp

text \<open>Shifting keeps the shape, and moves the indentation of every line that has content.\<close>

lemma length_takeWhile_less: "x \<in> set p \<Longrightarrow> \<not> P x \<Longrightarrow> length (takeWhile P p) < length p"
  by (induction p) auto

lemma ended_content:
  assumes "solid l \<or> ended m l" and "\<not> list_all is_space l"
  obtains p b where "l = p @ b" "solid p" "leading l < length p" "b = [] \<or> ended m b"
    "leading p = leading l"
proof -
  have *: "leading (p @ b) = leading p \<and> leading p < length p"
    if "\<not> list_all is_space (p @ b)" "list_all is_space b" for p b
  proof -
    have "\<exists>x\<in>set p. \<not> is_space x" using that by (auto simp: list_all_iff)
    then show ?thesis
      by (auto simp: leading_takeWhile takeWhile_append1 intro: length_takeWhile_less)
  qed
  from assms(1) show thesis
  proof
    assume "solid l"
    with * [of l "[]"] assms(2) show thesis by (intro that [of l "[]"]) auto
  next
    assume "ended m l"
    then obtain p b where l: "l = p @ b" "solid p" "line_end_ok b" "\<not> (b = [CR] \<and> take 1 m = [LF])"
      by (auto simp: ended_def)
    have "list_all is_space b" using l(3) by (auto simp: line_end_ok_def is_space_if_break)
    moreover have "ended m b" unfolding ended_def using l(3,4)
      by - (rule exI [of _ "[]"], rule exI [of _ b], simp)
    moreover have "leading l = leading p \<and> leading p < length p"
      using * [of p b] assms(2) l(1) \<open>list_all is_space b\<close> by blast
    ultimately show thesis by (intro that [of p b]) (use l in auto)
  qed
qed

lemma content_line:
  assumes "well_split ls" and "l \<in> set ls"
  shows "\<exists>m. solid l \<or> ended m l"
  using assms by (induction ls rule: well_split.induct) auto

lemma leading_drop: "k \<le> leading l \<Longrightarrow> leading (drop k l) = leading l - k"
  by (induction l arbitrary: k) (auto simp: leading_takeWhile drop_Cons' split: if_splits)

lemma leading_replicate: "leading (replicate n SP @ l) = n + leading l"
  by (induction n) (auto simp: leading_takeWhile)

lemma drop_leading: "drop (leading l) l = lstrip l"
  by (simp add: leading_takeWhile lstrip_def dropWhile_eq_drop)

lemma lstrip_drop: "k \<le> leading l \<Longrightarrow> lstrip (drop k l) = lstrip l"
  by (metis drop_leading leading_drop drop_drop le_add_diff_inverse2)

lemma lstrip_replicate: "lstrip (replicate n SP @ l) = lstrip l"
  by (induction n) (auto simp: lstrip_def)

lemma lstrip_shift_line: "lstrip (shift_line d l) = lstrip l"
  by (simp add: shift_line_def lstrip_replicate lstrip_drop)

lemma shift_line_blank [simp]: "list_all is_space l \<Longrightarrow> shift_line d l = l"
  by (simp add: shift_line_def strip_eq_Nil)

lemma blank_shift_line [simp]: "list_all is_space (shift_line d l) = list_all is_space l"
  using lstrip_shift_line [of d l] by (metis lstrip_eq_Nil)

lemma shift_line_eq_Nil [simp]: "shift_line d l = [] \<longleftrightarrow> l = []"
proof
  assume s: "shift_line d l = []"
  have "list_all is_space (shift_line d l)" unfolding s by simp
  then have "list_all is_space l" by (simp only: blank_shift_line)
  with s show "l = []" by simp
qed simp

lemma leading_shift_line:
  "\<not> list_all is_space l \<Longrightarrow> int (leading (shift_line d l)) = max 0 (int (leading l) + d)"
  by (auto simp: shift_line_def strip_eq_Nil leading_replicate leading_drop min_def)

lemma shift_line_content:
  assumes "solid l \<or> ended m l" and "\<not> list_all is_space l"
  shows "take 1 (shift_line d l) \<noteq> [LF]"
    and "solid l \<Longrightarrow> solid (shift_line d l)"
    and "ended m l \<Longrightarrow> ended m (shift_line d l)"
proof -
  obtain p b where l: "l = p @ b" "solid p" "leading l < length p" "b = [] \<or> ended m b"
    using ended_content [OF assms] by metis
  obtain q where q: "shift_line d l = q @ b" "solid q" "q \<noteq> []"
  proof (cases "d > 0")
    case True
    then show thesis
      using that [of "replicate (nat d) SP @ p"] l assms(2) by (auto simp: shift_line_def strip_eq_Nil list_all_iff)
  next
    case False
    let ?k = "min (nat (- d)) (leading l)"
    have "?k < length p" using l(3) by auto
    moreover have "solid (drop ?k p)" using l(2) by (auto simp: list_all_iff dest: in_set_dropD)
    ultimately show thesis
      using that [of "drop ?k p"] False l assms(2) by (auto simp: shift_line_def strip_eq_Nil)
  qed
  show "take 1 (shift_line d l) \<noteq> [LF]" using q by (cases q) auto
  show "solid (shift_line d l)" if "solid l" using that q l(1) by simp
  show "ended m (shift_line d l)" if "ended m l"
  proof (cases "b = []")
    case True
    then have "solid l" using l by simp
    moreover have "\<not> solid l" using that by (auto simp: ended_def line_end_ok_def)
    ultimately show ?thesis by simp
  next
    case False
    then show ?thesis using q l(4) ended_append by auto
  qed
qed

lemma ended_shift_line:
  assumes "ended m l" and "solid m \<or> ended n m"
  shows "ended (shift_line d m) (shift_line d l)"
proof -
  have m: "take 1 (shift_line d m) = take 1 m \<or> take 1 (shift_line d m) \<noteq> [LF]"
    using shift_line_content(1) [OF assms(2)] by (cases "list_all is_space m") auto
  have "ended m (shift_line d l)"
    using shift_line_content(3) [of l m] assms(1) by (cases "list_all is_space l") auto
  with m show ?thesis unfolding ended_def by metis
qed

lemma well_split_shift: "well_split ls \<Longrightarrow> well_split (map (shift_line d) ls)"
proof (induction ls rule: well_split.induct)
  case (2 l)
  then show ?case
    using shift_line_content [of l "[]" d]
    by (cases "list_all is_space l") auto
next
  case (3 l m ls)
  then show ?case
    using content_line [of "m # ls" m] ended_shift_line [of m l _ d] by auto
qed simp

lemma splitlines_keep_shift:
  "splitlines_keep (concat (map (shift_line d) (splitlines_keep t))) = map (shift_line d) (splitlines_keep t)"
  by (rule splitlines_keep_concat) (rule well_split_shift, rule well_split_splitlines_keep)

lemma chop_content:
  assumes "solid l \<or> ended m l"
  defines "c \<equiv> takeWhile (\<lambda>c. \<not> is_break c) l"
  shows "list_all is_space c = list_all is_space l"
    and "\<not> list_all is_space l \<Longrightarrow> leading c = leading l"
proof -
  have pre: "list_all is_space c" if "list_all is_space l"
    using that by (auto simp: c_def list_all_iff dest: set_takeWhileD)
  have "\<not> list_all is_space c \<and> leading c = leading l" if ns: "\<not> list_all is_space l"
  proof -
    obtain p b where l: "l = p @ b" "solid p" "leading l < length p" "b = [] \<or> ended m b"
      "leading p = leading l"
      by (rule ended_content [OF assms(1) ns])
    have c: "c = p @ takeWhile (\<lambda>c. \<not> is_break c) b"
      unfolding c_def l(1) using l(2) by (simp add: list_all_iff takeWhile_append2)
    obtain x where "x \<in> set p" "\<not> is_space x"
      using l(3,5) by (metis leading_takeWhile nat_neq_iff takeWhile_eq_all_conv)
    then show ?thesis
      using l(5) by (auto simp: c leading_takeWhile takeWhile_append1 list_all_iff)
  qed
  then show "list_all is_space c = list_all is_space l"
    and "\<not> list_all is_space l \<Longrightarrow> leading c = leading l" using pre by blast+
qed

lemma first_indent_chop:
  "well_split ls \<Longrightarrow> first_indent (map (takeWhile (\<lambda>c. \<not> is_break c)) ls) = first_indent ls"
proof (induction ls rule: well_split.induct)
  case (2 l)
  then show ?case using chop_content [of l "[]"] by (auto simp: lstrip_eq_Nil)
next
  case (3 l m ls)
  then show ?case using chop_content [of l m] by (auto simp: lstrip_eq_Nil)
qed simp

lemma detect_indent_keep: "detect_indent t = first_indent (splitlines_keep t)"
  by (simp add: detect_indent_def splitlines_def first_indent_chop well_split_splitlines_keep)

lemma first_indent_shift:
  "\<not> list_all (list_all is_space) ls \<Longrightarrow>
     int (first_indent (map (shift_line d) ls)) = max 0 (int (first_indent ls) + d)"
  by (induction ls) (auto simp: lstrip_eq_Nil leading_shift_line)

lemma first_indent_blank: "list_all (list_all is_space) ls \<Longrightarrow> first_indent ls = 0"
  by (induction ls) (auto simp: lstrip_eq_Nil)

lemma blank_lines: "list_all (list_all is_space) (splitlines_keep t) \<longleftrightarrow> list_all is_space t"
proof -
  have "list_all is_space (concat ls) \<longleftrightarrow> list_all (list_all is_space) ls" for ls
    by (induction ls) auto
  from this [of "splitlines_keep t"] show ?thesis by simp
qed

lemma shift_line_inverse: "0 < d \<Longrightarrow> shift_line (- d) (shift_line d l) = l"
proof (cases "list_all is_space l")
  case False
  assume "0 < d"
  with False show ?thesis
    using blank_shift_line [of d l]
    by (simp add: shift_line_def strip_eq_Nil leading_replicate)
qed simp

lemma reindent_blank: "list_all is_space t \<Longrightarrow> reindent t n = t"
proof -
  assume "list_all is_space t"
  then have "list_all (list_all is_space) (splitlines_keep t)" by (simp add: blank_lines)
  then have "map (shift_line d) (splitlines_keep t) = splitlines_keep t" for d
    by (auto simp: list_all_iff map_idI)
  then show ?thesis by (simp add: reindent_def Let_def)
qed

lemma detect_indent_reindent:
  "\<not> list_all is_space t \<Longrightarrow> int (detect_indent (reindent t n)) = max 0 n"
  by (auto simp: reindent_def Let_def detect_indent_keep splitlines_keep_shift first_indent_shift blank_lines)

lemma splitlines_keep_reindent:
  "splitlines_keep (reindent t n) =
     map (shift_line (n - int (detect_indent t))) (splitlines_keep t) \<or>
   reindent t n = t"
  by (simp add: reindent_def Let_def splitlines_keep_shift)



section \<open>Bottom-up splicing is a single pass over the file\<close>

text \<open>The reference: walk down the file once, copying the gaps and emitting each edit in place.\<close>

fun weave :: "nat \<Rightarrow> edit list \<Rightarrow> string list \<Rightarrow> string list" where
  "weave p [] lines = drop p lines"
| "weave p (e # es) lines =
     take (ed_start e - 1 - p) (drop p lines) @ edit_lines e @ weave (ed_end e) es lines"

definition edit_in_range :: "nat \<Rightarrow> edit \<Rightarrow> bool" where
  "edit_in_range n e \<longleftrightarrow> 1 \<le> ed_start e \<and> ed_start e \<le> ed_end e \<and> ed_end e \<le> n"

definition apart :: "edit \<Rightarrow> edit \<Rightarrow> bool" where
  "apart a b \<longleftrightarrow> ed_end a < ed_start b \<or> ed_end b < ed_start a"

fun ascending :: "nat \<Rightarrow> nat \<Rightarrow> edit list \<Rightarrow> bool" where
  "ascending n p [] = True"
| "ascending n p (e # es) = (p < ed_start e \<and> edit_in_range n e \<and> ascending n (ed_end e) es)"

lemma splice_all_append: "splice_all (es @ fs) lines = splice_all fs (splice_all es lines)"
  by (induction es arbitrary: lines) auto

lemma splice_all_weave:
  "ascending (length lines) p es \<Longrightarrow> splice_all (rev es) lines = take p lines @ weave p es lines"
proof (induction es arbitrary: p)
  case (Cons e es)
  then have IH: "splice_all (rev es) lines = take (ed_end e) lines @ weave (ed_end e) es lines"
    and e: "p < ed_start e" "ed_start e \<le> ed_end e" "ed_end e \<le> length lines"
    by (auto simp: edit_in_range_def)
  have "take (ed_start e - 1) lines = take p lines @ take (ed_start e - 1 - p) (drop p lines)"
    using e by (metis Suc_leI Suc_diff_1 le_add_diff_inverse less_Suc_eq_le not_gr_zero not_less_zero take_add)
  then show ?case using e by (simp add: splice_all_append splice_one_def IH min_def)
qed simp

lemma sorted_wrt_insort_key:
  "sorted_wrt R xs \<Longrightarrow> (\<And>y. y \<in> set xs \<Longrightarrow> R x y \<and> R y x) \<Longrightarrow> sorted_wrt R (insort_key f x xs)"
  by (induction xs) (auto simp: set_insort_key)

lemma sorted_wrt_sort_key:
  "sorted_wrt R xs \<Longrightarrow> (\<And>x y. R x y \<Longrightarrow> R y x) \<Longrightarrow> sorted_wrt R (sort_key f xs)"
proof (induction xs)
  case (Cons x xs)
  then have "sorted_wrt R (sort_key f xs)" by simp
  then show ?case using Cons.prems by (auto intro!: sorted_wrt_insort_key)
qed simp

lemma ascending_sorted:
  "sorted_wrt (\<lambda>a b. ed_end a < ed_start b) es \<Longrightarrow> \<forall>e\<in>set es. edit_in_range n e \<Longrightarrow>
     \<forall>e\<in>set es. p < ed_start e \<Longrightarrow> ascending n p es"
  by (induction es arbitrary: p) auto

lemma sorted_wrt_descending:
  "sorted_wrt apart es \<Longrightarrow> sorted_wrt (\<lambda>a b. ed_start b \<le> ed_start a) es \<Longrightarrow>
     \<forall>e\<in>set es. edit_in_range n e \<Longrightarrow> sorted_wrt (\<lambda>a b. ed_end b < ed_start a) es"
  by (induction es) (fastforce simp: apart_def edit_in_range_def)+

lemma sort_edits_ascending:
  assumes "sorted_wrt apart es" and "\<forall>e\<in>set es. edit_in_range n e"
  shows "ascending n 0 (rev (sort_edits es))"
proof (rule ascending_sorted)
  let ?D = "sort_edits es"
  have "sorted_wrt apart ?D"
    unfolding sort_edits_def using assms(1) by (rule sorted_wrt_sort_key) (auto simp: apart_def)
  moreover have "sorted_wrt (\<lambda>a b. ed_start b \<le> ed_start a) ?D"
    using sorted_sort_key [of "\<lambda>e. - int (ed_start e)" es] by (simp add: sort_edits_def sorted_map)
  moreover have "set ?D = set es" by (simp add: sort_edits_def)
  ultimately have "sorted_wrt (\<lambda>a b. ed_end b < ed_start a) ?D"
    using assms(2) by (intro sorted_wrt_descending) auto
  then show "sorted_wrt (\<lambda>a b. ed_end a < ed_start b) (rev ?D)" by (simp add: sorted_wrt_rev)
qed (use assms(2) in \<open>auto simp: sort_edits_def edit_in_range_def\<close>)

text \<open>
  C22. For edits that lie inside the file and do not overlap, in whatever order they were
  collected, the in-place bottom-up splicing of the source yields exactly the file in which
  every edited span is replaced by its new lines and every other line is kept: the top-down
  single pass \<^const>\<open>weave\<close> over the edits in ascending order.
\<close>

theorem splice_bottom_up_correct:
  assumes "sorted_wrt apart edits" and "\<forall>e\<in>set edits. edit_in_range (length lines) e"
  shows "splice_all (sort_edits edits) lines = weave 0 (rev (sort_edits edits)) lines"
  using splice_all_weave [OF sort_edits_ascending [OF assms]] by simp

definition sample_edits :: "edit list" where
  "sample_edits =
     [\<lparr>ed_start = 1, ed_end = 1, ed_text = ''x'', ed_rules = []\<rparr>,
      \<lparr>ed_start = 3, ed_end = 4, ed_text = ''y'', ed_rules = []\<rparr>]"

theorem splice_bottom_up_correct_witness:
  "sorted_wrt apart sample_edits \<and>
   list_all (edit_in_range (length [''a'', ''b'', ''c'', ''d'', ''e''])) sample_edits \<and>
   splice_all (sort_edits sample_edits) [''a'', ''b'', ''c'', ''d'', ''e''] =
     [''x'' @ [LF], ''b'', ''y'' @ [LF], ''e'']"
proof -
  have s: "sorted_wrt apart sample_edits"
    "\<forall>e\<in>set sample_edits. edit_in_range (length [''a'', ''b'', ''c'', ''d'', ''e'']) e"
    by (simp_all add: sample_edits_def apart_def edit_in_range_def)
  have "weave 0 (rev (sort_edits sample_edits)) [''a'', ''b'', ''c'', ''d'', ''e''] =
     [''x'' @ [LF], ''b'', ''y'' @ [LF], ''e'']" by code_simp
  with s splice_bottom_up_correct [OF s] show ?thesis by (simp add: list_all_iff)
qed

end
