(* ===== verification/Content_Graph.thy ===== *)
theory Content_Graph
  imports Violations Yaml_Text
begin

text \<open>
  The data model of \<open>graph/content_graph.py\<close>: node and edge kinds, identities, progression
  snapshots, ledger records, nodes and the graph, with the node operations (\<open>record_state\<close>,
  \<open>update_from_yaml\<close>, \<open>apply_yaml\<close>, \<open>apply_transform\<close>) and the approval operations
  (\<open>approve_pending\<close>, \<open>approve_node\<close>, \<open>reject_node\<close>).  The ledger operations and the graph
  traversals have theories of their own.

  Third-party code is a parameter: the record \<open>yaml_lib\<close> holds PyYAML's \<open>safe_load\<close>, ruamel's
  round-trip loader and dumper, SHA-256, the clock and difflib.  Mapping keys of parsed YAML
  are strings (a task with a non-string key makes \<open>_apply_parsed_fields\<close> raise).
\<close>

section \<open>Kinds\<close>

datatype node_type = NT_Playbook | NT_Play | NT_Role | NT_Taskfile | NT_Task | NT_Handler | NT_Block
  | NT_Module | NT_Module_utils | NT_Filter_plugin | NT_Action_plugin | NT_Lookup_plugin
  | NT_Vars_file | NT_Collection | NT_Rulebook | NT_Ruleset

fun node_type_value :: "node_type \<Rightarrow> string" where
  "node_type_value NT_Playbook = ''playbook''"
| "node_type_value NT_Play = ''play''"
| "node_type_value NT_Role = ''role''"
| "node_type_value NT_Taskfile = ''taskfile''"
| "node_type_value NT_Task = ''task''"
| "node_type_value NT_Handler = ''handler''"
| "node_type_value NT_Block = ''block''"
| "node_type_value NT_Module = ''module''"
| "node_type_value NT_Module_utils = ''module_utils''"
| "node_type_value NT_Filter_plugin = ''filter_plugin''"
| "node_type_value NT_Action_plugin = ''action_plugin''"
| "node_type_value NT_Lookup_plugin = ''lookup_plugin''"
| "node_type_value NT_Vars_file = ''vars_file''"
| "node_type_value NT_Collection = ''collection''"
| "node_type_value NT_Rulebook = ''rulebook''"
| "node_type_value NT_Ruleset = ''ruleset''"

datatype edge_type = ET_Import | ET_Include | ET_Notify | ET_Listen | ET_Dependency | ET_Data_flow
  | ET_Rescue | ET_Always | ET_Invokes | ET_Py_imports | ET_Vars_include | ET_Contains

datatype node_scope = NS_Owned | NS_Referenced

record node_identity =
  id_path :: string
  id_type :: node_type

definition rfind :: "char \<Rightarrow> string \<Rightarrow> int" where
  "rfind c s = int (length s) - 1 - int (length (takeWhile (\<lambda>x. x \<noteq> c) (rev s)))"

definition parent_path :: "node_identity \<Rightarrow> string option" where
  "parent_path i =
     (let sep = rfind (CHR ''/'') (id_path i)
      in if sep \<le> 0 then None else Some (take (nat sep) (id_path i)))"

section \<open>Progression snapshots and ledger records\<close>

record node_state =
  ns_id :: string
  ns_pass :: int
  ns_phase :: string
  ns_yaml :: string
  ns_hash :: string
  ns_time :: string
  ns_approved :: bool
  ns_source :: string

datatype vstatus = V_open | V_fixed | V_pending_review | V_proposed | V_declined | V_ai_abstained

type_synonym vkey = "string \<times> string"

record violation_record =
  vr_key :: vkey
  vr_violation :: violation
  vr_status :: vstatus
  vr_fixed_by :: "string option"
  vr_fixed_in_pass :: "int option"
  vr_discovered_in_pass :: int
  vr_ai_reason :: "string option"
  vr_ai_suggestion :: "string option"

type_synonym ledger = "(vkey, violation_record) dict"

definition violation_key :: "violation \<Rightarrow> vkey" where
  "violation_key v = (vget_str v ''path'', normalize_rule_id (vget_str v ''rule_id''))"

section \<open>YAML values and the library\<close>

text \<open>
  What \<open>yaml.safe_load\<close> returns.  A float is carried as its \<open>repr\<close>; \<open>YOther\<close> stands for dates
  and timestamps, carried as their \<open>str\<close>.
\<close>

datatype yval = YNull | YBool bool | YInt int | YFloat string | YStr string | YOther string
  | YList "yval list" | YMap "(string \<times> yval) list"

type_synonym ydict = "(string, yval) dict"

text \<open>The shapes \<open>apply_transform\<close> distinguishes in what ruamel loads.\<close>

datatype ('m, 's) yaml_doc = Doc_seq_one 's 'm | Doc_map 'm | Doc_other

record ('m, 's) yaml_lib =
  lib_hash :: "string \<Rightarrow> string"
  lib_now :: string
  lib_safe_load :: "string \<Rightarrow> yval option"
  lib_repr :: "yval \<Rightarrow> string"
  lib_load :: "string \<Rightarrow> ('m, 's) yaml_doc option"
  lib_dump_map :: "'m \<Rightarrow> string"
  lib_dump_seq :: "'s \<Rightarrow> 'm \<Rightarrow> string"
  lib_diff :: "string list \<Rightarrow> string list \<Rightarrow> string \<Rightarrow> string \<Rightarrow> string"

fun y_str :: "('m, 's) yaml_lib \<Rightarrow> yval \<Rightarrow> string" where
  "y_str L YNull = ''None''"
| "y_str L (YBool b) = (if b then ''True'' else ''False'')"
| "y_str L (YInt i) = show_int i"
| "y_str L (YFloat s) = s"
| "y_str L (YStr s) = s"
| "y_str L (YOther s) = s"
| "y_str L v = lib_repr L v"

fun y_truthy :: "yval \<Rightarrow> bool" where
  "y_truthy YNull = False"
| "y_truthy (YBool b) = b"
| "y_truthy (YInt i) = (i \<noteq> 0)"
| "y_truthy (YFloat s) = (s \<noteq> ''0.0'' \<and> s \<noteq> ''-0.0'')"
| "y_truthy (YStr s) = (s \<noteq> [])"
| "y_truthy (YOther s) = True"
| "y_truthy (YList xs) = (xs \<noteq> [])"
| "y_truthy (YMap kvs) = (kvs \<noteq> [])"

definition yget :: "ydict \<Rightarrow> string \<Rightarrow> yval" where
  "yget d k = (case dict_get d k of Some v \<Rightarrow> v | None \<Rightarrow> YNull)"

section \<open>Nodes and the graph\<close>

datatype when_expr = When_none | When_str string | When_list "string list"

record task_fields =
  tf_name :: "string option"
  tf_module :: string
  tf_module_options :: ydict
  tf_options :: ydict
  tf_variables :: ydict
  tf_become :: "ydict option"
  tf_when :: when_expr
  tf_tags :: "string list"
  tf_loop :: yval
  tf_loop_control :: "ydict option"
  tf_register :: "string option"
  tf_set_facts :: ydict
  tf_notify :: "string list"
  tf_listen :: "string list"
  tf_environment :: "ydict option"
  tf_no_log :: "bool option"
  tf_ignore_errors :: "bool option"
  tf_changed_when :: yval
  tf_failed_when :: yval
  tf_delegate_to :: "string option"

record content_node =
  cn_identity :: node_identity
  cn_file_path :: string
  cn_line_start :: int
  cn_line_end :: int
  cn_fields :: task_fields
  cn_yaml :: string
  cn_indent :: int
  cn_scope :: node_scope
  cn_state :: "node_state option"
  cn_progression :: "node_state list"
  cn_ledger :: ledger

abbreviation node_id :: "content_node \<Rightarrow> string" where
  "node_id n \<equiv> id_path (cn_identity n)"

abbreviation node_kind :: "content_node \<Rightarrow> node_type" where
  "node_kind n \<equiv> id_type (cn_identity n)"

record edge_attrs =
  ea_type :: edge_type
  ea_conditional :: bool
  ea_dynamic :: bool
  ea_position :: int
  ea_when :: string
  ea_tags :: "string list"

type_synonym edge = "string \<times> string \<times> edge_attrs"

text \<open>A vertex without payload (\<open>None\<close>) is one that only an edge introduced.\<close>

record content_graph =
  cg_nodes :: "(string, content_node option) dict"
  cg_edges :: "edge list"
  cg_dirty :: "string list"

definition effective_module_options :: "task_fields \<Rightarrow> ydict" where
  "effective_module_options tf =
     (let task_args = (case dict_get (tf_options tf) ''args'' of Some (YMap kvs) \<Rightarrow> kvs | _ \<Rightarrow> [])
      in fold (\<lambda>(k, v). dict_set k v) (tf_module_options tf) task_args)"

subsection \<open>Graph accessors\<close>

definition empty_graph :: content_graph where
  "empty_graph = \<lparr>cg_nodes = [], cg_edges = [], cg_dirty = []\<rparr>"

definition add_node :: "content_node \<Rightarrow> content_graph \<Rightarrow> content_graph" where
  "add_node n g = g\<lparr>cg_nodes := dict_set (node_id n) (Some n) (cg_nodes g)\<rparr>"

definition get_node :: "content_graph \<Rightarrow> string \<Rightarrow> content_node option" where
  "get_node g nid = (case dict_get (cg_nodes g) nid of None \<Rightarrow> None | Some p \<Rightarrow> p)"

definition graph_nodes :: "content_graph \<Rightarrow> content_node list" where
  "graph_nodes g = concat (map (\<lambda>(_, p). case p of None \<Rightarrow> [] | Some n \<Rightarrow> [n]) (cg_nodes g))"

definition nodes_of_type :: "content_graph \<Rightarrow> node_type \<Rightarrow> content_node list" where
  "nodes_of_type g ty = filter (\<lambda>n. node_kind n = ty) (graph_nodes g)"

definition node_count :: "content_graph \<Rightarrow> nat" where
  "node_count g = length (cg_nodes g)"

definition clear_dirty :: "content_graph \<Rightarrow> content_graph" where
  "clear_dirty g = g\<lparr>cg_dirty := []\<rparr>"

definition mark_dirty :: "string \<Rightarrow> content_graph \<Rightarrow> content_graph" where
  "mark_dirty nid g = g\<lparr>cg_dirty := (if nid \<in> set (cg_dirty g) then cg_dirty g else cg_dirty g @ [nid])\<rparr>"

text \<open>Mutating the payload object of one vertex in place.\<close>

definition map_node :: "string \<Rightarrow> (content_node \<Rightarrow> content_node) \<Rightarrow> content_graph \<Rightarrow> content_graph" where
  "map_node nid f g =
     g\<lparr>cg_nodes := dict_map (\<lambda>k p. if k = nid then map_option f p else p) (cg_nodes g)\<rparr>"

definition map_all_nodes :: "(content_node \<Rightarrow> content_node) \<Rightarrow> content_graph \<Rightarrow> content_graph" where
  "map_all_nodes f g = g\<lparr>cg_nodes := dict_map (\<lambda>_ p. map_option f p) (cg_nodes g)\<rparr>"

definition ensure_vertex :: "string \<Rightarrow> content_graph \<Rightarrow> content_graph" where
  "ensure_vertex nid g =
     (case dict_get (cg_nodes g) nid of Some _ \<Rightarrow> g | None \<Rightarrow> g\<lparr>cg_nodes := dict_set nid None (cg_nodes g)\<rparr>)"

definition add_edge :: "string \<Rightarrow> string \<Rightarrow> edge_attrs \<Rightarrow> content_graph \<Rightarrow> content_graph" where
  "add_edge src tgt a g =
     (let g = ensure_vertex tgt (ensure_vertex src g) in g\<lparr>cg_edges := cg_edges g @ [(src, tgt, a)]\<rparr>)"

section \<open>Node operations\<close>

definition MAX_PROGRESSION :: nat where
  "MAX_PROGRESSION = 20"

definition new_state :: "('m, 's) yaml_lib \<Rightarrow> int \<Rightarrow> string \<Rightarrow> string \<Rightarrow> content_node \<Rightarrow> node_state" where
  "new_state L pass phase source n =
     \<lparr>ns_id = node_id n @ ''@'' @ show_nat (length (cn_progression n)), ns_pass = pass,
      ns_phase = phase, ns_yaml = cn_yaml n, ns_hash = lib_hash L (cn_yaml n),
      ns_time = lib_now L, ns_approved = False, ns_source = source\<rparr>"

definition record_state :: "('m, 's) yaml_lib \<Rightarrow> int \<Rightarrow> string \<Rightarrow> string \<Rightarrow> content_node \<Rightarrow> content_node" where
  "record_state L pass phase source n =
     (let ns = new_state L pass phase source n;
          kept = (if length (cn_progression n) \<ge> MAX_PROGRESSION then tl (cn_progression n)
                  else cn_progression n)
      in n\<lparr>cn_progression := kept @ [ns], cn_state := Some ns\<rparr>)"

subsection \<open>Typed fields from YAML\<close>

fun as_str_list :: "('m, 's) yaml_lib \<Rightarrow> yval \<Rightarrow> string list" where
  "as_str_list L (YStr s) = [s]"
| "as_str_list L (YList xs) = map (y_str L) xs"
| "as_str_list L _ = []"

definition TASK_META_KEYS :: "string list" where
  "TASK_META_KEYS =
     [''name'', ''when'', ''changed_when'', ''failed_when'', ''register'', ''notify'', ''listen'',
      ''become'', ''become_user'', ''become_method'', ''become_flags'', ''delegate_to'',
      ''run_once'', ''connection'', ''ignore_errors'', ''ignore_unreachable'', ''no_log'',
      ''tags'', ''environment'', ''vars'', ''args'', ''loop'', ''loop_control'', ''with_items'',
      ''with_dict'', ''with_fileglob'', ''with_subelements'', ''with_sequence'',
      ''with_nested'', ''with_first_found'', ''block'', ''rescue'', ''always'',
      ''any_errors_fatal'', ''max_fail_percentage'', ''check_mode'', ''diff'', ''throttle'',
      ''timeout'', ''retries'', ''delay'', ''until'', ''debugger'', ''module_defaults'',
      ''collections'', ''action'', ''local_action'']"

fun as_dict :: "yval \<Rightarrow> ydict option" where
  "as_dict (YMap kvs) = Some kvs"
| "as_dict _ = None"

fun as_str :: "yval \<Rightarrow> string option" where
  "as_str (YStr s) = Some s"
| "as_str _ = None"

fun as_bool :: "yval \<Rightarrow> bool option" where
  "as_bool (YBool b) = Some b"
| "as_bool _ = None"

definition parse_yaml_for_update :: "('m, 's) yaml_lib \<Rightarrow> string \<Rightarrow> ydict option" where
  "parse_yaml_for_update L t =
     (case lib_safe_load L t of
        None \<Rightarrow> None
      | Some (YList [YMap kvs]) \<Rightarrow> Some kvs
      | Some (YMap kvs) \<Rightarrow> Some kvs
      | Some _ \<Rightarrow> None)"

definition parsed_module :: "ydict \<Rightarrow> string option" where
  "parsed_module parsed = List.find (\<lambda>k. k \<notin> set TASK_META_KEYS) (map fst parsed)"

fun parsed_module_options :: "yval \<Rightarrow> ydict" where
  "parsed_module_options YNull = []"
| "parsed_module_options (YMap kvs) = kvs"
| "parsed_module_options v = [(''_raw'', v)]"

fun parsed_when :: "('m, 's) yaml_lib \<Rightarrow> yval \<Rightarrow> when_expr" where
  "parsed_when L (YStr s) = When_str s"
| "parsed_when L (YList xs) = When_list (map (y_str L) xs)"
| "parsed_when L _ = When_none"

definition parsed_become :: "ydict \<Rightarrow> ydict option" where
  "parsed_become parsed =
     (let given = filter (\<lambda>(k, v). v \<noteq> YNull)
            (map (\<lambda>k. (k, yget parsed k)) [''become'', ''become_user'', ''become_method'', ''become_flags''])
      in if given = [] then None else Some given)"

definition parsed_loop :: "ydict \<Rightarrow> yval" where
  "parsed_loop parsed =
     (if y_truthy (yget parsed ''loop'') then yget parsed ''loop''
      else (case List.find (\<lambda>(k, v). startswith ''with_'' k) parsed of Some (_, v) \<Rightarrow> v | None \<Rightarrow> YNull))"

definition SET_FACT_MODULES :: "string list" where
  "SET_FACT_MODULES = [''ansible.builtin.set_fact'', ''ansible.legacy.set_fact'', ''set_fact'']"

definition BLOCK_KEYS :: "string list" where
  "BLOCK_KEYS = [''block'', ''rescue'', ''always'']"

definition apply_parsed_fields :: "('m, 's) yaml_lib \<Rightarrow> ydict \<Rightarrow> task_fields \<Rightarrow> task_fields" where
  "apply_parsed_fields L parsed tf =
     (let module_key = parsed_module parsed;
          opts = (case module_key of Some m \<Rightarrow> parsed_module_options (yget parsed m)
                  | None \<Rightarrow> tf_module_options tf)
      in \<lparr>tf_name = as_str (yget parsed ''name''),
          tf_module = (case module_key of Some m \<Rightarrow> m | None \<Rightarrow> tf_module tf),
          tf_module_options = opts,
          tf_options = filter (\<lambda>(k, v). \<not> (k = ''name'' \<or> Some k = module_key \<or> k \<in> set BLOCK_KEYS)) parsed,
          tf_variables = (case as_dict (yget parsed ''vars'') of Some d \<Rightarrow> d | None \<Rightarrow> []),
          tf_become = parsed_become parsed,
          tf_when = parsed_when L (yget parsed ''when''),
          tf_tags = as_str_list L (yget parsed ''tags''),
          tf_loop = parsed_loop parsed,
          tf_loop_control = as_dict (yget parsed ''loop_control''),
          tf_register = as_str (yget parsed ''register''),
          tf_set_facts =
            (case module_key of
               Some m \<Rightarrow> (if m \<in> set SET_FACT_MODULES then filter (\<lambda>(k, v). k \<noteq> ''cacheable'') opts else [])
             | None \<Rightarrow> []),
          tf_notify = as_str_list L (yget parsed ''notify''),
          tf_listen = as_str_list L (yget parsed ''listen''),
          tf_environment = as_dict (yget parsed ''environment''),
          tf_no_log = as_bool (yget parsed ''no_log''),
          tf_ignore_errors = as_bool (yget parsed ''ignore_errors''),
          tf_changed_when = yget parsed ''changed_when'',
          tf_failed_when = yget parsed ''failed_when'',
          tf_delegate_to = as_str (yget parsed ''delegate_to'')\<rparr>)"

definition update_from_yaml :: "('m, 's) yaml_lib \<Rightarrow> string \<Rightarrow> content_node \<Rightarrow> content_node" where
  "update_from_yaml L t n =
     (let n = n\<lparr>cn_yaml := t\<rparr>
      in case parse_yaml_for_update L t of
           None \<Rightarrow> n
         | Some parsed \<Rightarrow> n\<lparr>cn_fields := apply_parsed_fields L parsed (cn_fields n)\<rparr>)"

section \<open>Changing content\<close>

definition apply_yaml :: "('m, 's) yaml_lib \<Rightarrow> string \<Rightarrow> string \<Rightarrow> content_graph \<Rightarrow> content_graph \<times> bool" where
  "apply_yaml L nid yaml_content g =
     (case get_node g nid of
        None \<Rightarrow> (g, False)
      | Some n \<Rightarrow>
          (let t = (if int (detect_indent yaml_content) \<noteq> cn_indent n then reindent yaml_content (cn_indent n)
                    else yaml_content)
           in if t = cn_yaml n then (g, False)
              else (mark_dirty nid (map_node nid (update_from_yaml L t) g), True)))"

text \<open>
  A transform gets the parsed mapping and the violation, mutates the mapping and says whether
  it applied; the wrapper sequence, when there is one, holds the mutated mapping.
\<close>

type_synonym 'm transform = "'m \<Rightarrow> violation \<Rightarrow> 'm \<times> bool"

definition run_transform :: "('m, 's) yaml_lib \<Rightarrow> 'm transform \<Rightarrow> violation \<Rightarrow> string \<Rightarrow> string option" where
  "run_transform L f v t =
     (case lib_load L t of
        None \<Rightarrow> None
      | Some Doc_other \<Rightarrow> None
      | Some (Doc_seq_one s m) \<Rightarrow> (let (m', applied) = f m v in if applied then Some (lib_dump_seq L s m') else None)
      | Some (Doc_map m) \<Rightarrow> (let (m', applied) = f m v in if applied then Some (lib_dump_map L m') else None))"

definition apply_transform ::
  "('m, 's) yaml_lib \<Rightarrow> string \<Rightarrow> 'm transform \<Rightarrow> violation \<Rightarrow> content_graph \<Rightarrow> content_graph \<times> bool" where
  "apply_transform L nid f v g =
     (case get_node g nid of
        None \<Rightarrow> (g, False)
      | Some n \<Rightarrow>
          (if cn_yaml n = [] then (g, False)
           else case run_transform L f v (cn_yaml n) of
                  None \<Rightarrow> (g, False)
                | Some new_text \<Rightarrow>
                    (let new_text = (if cn_indent n \<noteq> 0 \<and> int (detect_indent new_text) \<noteq> cn_indent n
                                     then reindent new_text (cn_indent n) else new_text)
                     in (mark_dirty nid (map_node nid (update_from_yaml L new_text) g), True))))"

section \<open>Accessor laws and node well-formedness\<close>

named_theorems graph_simps \<open>how the accessors see an updated graph\<close>

lemma get_node_map_node [graph_simps]:
  "get_node (map_node nid f g) k = (if k = nid then map_option f (get_node g k) else get_node g k)"
  by (auto simp: get_node_def map_node_def dict_simps split: option.splits)

lemma get_node_map_all_nodes [graph_simps]: "get_node (map_all_nodes f g) k = map_option f (get_node g k)"
  by (auto simp: get_node_def map_all_nodes_def dict_simps split: option.splits)

lemma get_node_mark_dirty [graph_simps]: "get_node (mark_dirty nid g) k = get_node g k"
  by (simp add: get_node_def mark_dirty_def)

lemma get_node_clear_dirty [graph_simps]: "get_node (clear_dirty g) k = get_node g k"
  by (simp add: get_node_def clear_dirty_def)

lemma get_node_add_node [graph_simps]:
  "get_node (add_node n g) k = (if k = node_id n then Some n else get_node g k)"
  by (auto simp: get_node_def add_node_def dict_simps)

lemma get_node_empty [graph_simps]: "get_node empty_graph k = None"
  by (simp add: get_node_def empty_graph_def)

lemma get_node_ensure_vertex [graph_simps]: "get_node (ensure_vertex nid g) k = get_node g k"
  by (auto simp: get_node_def ensure_vertex_def dict_simps split: option.splits)

lemma get_node_add_edge [graph_simps]: "get_node (add_edge a b e g) k = get_node g k"
  by (simp add: add_edge_def Let_def) (simp add: get_node_def [of "content_graph.cg_edges_update _ _"]
    graph_simps flip: get_node_def)

lemma keys_map_node [graph_simps]: "map fst (cg_nodes (map_node nid f g)) = map fst (cg_nodes g)"
  by (simp add: map_node_def)

lemma keys_map_all_nodes [graph_simps]: "map fst (cg_nodes (map_all_nodes f g)) = map fst (cg_nodes g)"
  by (simp add: map_all_nodes_def)

lemma edges_map_node [graph_simps]: "cg_edges (map_node nid f g) = cg_edges g"
  by (simp add: map_node_def)

lemma edges_map_all_nodes [graph_simps]: "cg_edges (map_all_nodes f g) = cg_edges g"
  by (simp add: map_all_nodes_def)

lemma dirty_map_node [graph_simps]: "cg_dirty (map_node nid f g) = cg_dirty g"
  by (simp add: map_node_def)

lemma dirty_map_all_nodes [graph_simps]: "cg_dirty (map_all_nodes f g) = cg_dirty g"
  by (simp add: map_all_nodes_def)

lemma mark_dirty_simps [graph_simps]:
  "cg_nodes (mark_dirty nid g) = cg_nodes g" "cg_edges (mark_dirty nid g) = cg_edges g"
  "set (cg_dirty (mark_dirty nid g)) = insert nid (set (cg_dirty g))"
  by (auto simp: mark_dirty_def)

lemma clear_dirty_simps [graph_simps]:
  "cg_nodes (clear_dirty g) = cg_nodes g" "cg_edges (clear_dirty g) = cg_edges g"
  "cg_dirty (clear_dirty g) = []"
  by (auto simp: clear_dirty_def)

lemma get_node_eq: "get_node g nid = Some n \<longleftrightarrow> dict_get (cg_nodes g) nid = Some (Some n)"
  by (auto simp: get_node_def split: option.splits)

lemma graph_nodes_get_node:
  assumes "dict_ok (cg_nodes g)"
  shows "n \<in> set (graph_nodes g) \<longleftrightarrow> (\<exists>nid. get_node g nid = Some n)"
proof -
  have "n \<in> set (graph_nodes g) \<longleftrightarrow> (\<exists>nid. (nid, Some n) \<in> set (cg_nodes g))"
    by (force simp: graph_nodes_def split: option.splits)
  also have "\<dots> \<longleftrightarrow> (\<exists>nid. get_node g nid = Some n)"
    using assms by (auto simp: get_node_eq dict_ok_def map_of_eq_Some_iff)
  finally show ?thesis .
qed

text \<open>Parts of a node no operation of the pipeline writes: where it is and what it is.\<close>

definition same_place :: "content_node \<Rightarrow> content_node \<Rightarrow> bool" where
  "same_place n n' \<longleftrightarrow> cn_identity n' = cn_identity n \<and> cn_file_path n' = cn_file_path n \<and>
     cn_line_start n' = cn_line_start n \<and> cn_line_end n' = cn_line_end n \<and>
     cn_indent n' = cn_indent n \<and> cn_scope n' = cn_scope n"

lemma same_place_refl [simp]: "same_place n n"
  by (simp add: same_place_def)

lemma same_place_trans: "same_place a b \<Longrightarrow> same_place b c \<Longrightarrow> same_place a c"
  by (simp add: same_place_def)

lemma same_place_update [simp]: "same_place n (update_from_yaml L t n)"
  by (simp add: same_place_def update_from_yaml_def Let_def split: option.splits)

lemma same_place_record_state [simp]: "same_place n (record_state L p ph s n)"
  by (simp add: same_place_def record_state_def Let_def)

lemma update_from_yaml_simps [simp]:
  "cn_yaml (update_from_yaml L t n) = t"
  "cn_progression (update_from_yaml L t n) = cn_progression n"
  "cn_state (update_from_yaml L t n) = cn_state n"
  "cn_ledger (update_from_yaml L t n) = cn_ledger n"
  "cn_identity (update_from_yaml L t n) = cn_identity n"
  "cn_indent (update_from_yaml L t n) = cn_indent n"
  "cn_file_path (update_from_yaml L t n) = cn_file_path n"
  "cn_line_start (update_from_yaml L t n) = cn_line_start n"
  "cn_line_end (update_from_yaml L t n) = cn_line_end n"
  "cn_scope (update_from_yaml L t n) = cn_scope n"
  by (simp_all add: update_from_yaml_def Let_def split: option.splits)

lemma record_state_simps [simp]:
  "cn_yaml (record_state L p ph s n) = cn_yaml n"
  "cn_ledger (record_state L p ph s n) = cn_ledger n"
  "cn_identity (record_state L p ph s n) = cn_identity n"
  by (simp_all add: record_state_def Let_def)

text \<open>
  The progression of a node is bounded, its snapshots carry the digest of their text, and the
  current state is one of them.
\<close>

definition progression_ok :: "('m, 's) yaml_lib \<Rightarrow> content_node \<Rightarrow> bool" where
  "progression_ok L n \<longleftrightarrow>
     length (cn_progression n) \<le> MAX_PROGRESSION \<and>
     (\<forall>s\<in>set (cn_progression n). ns_hash s = lib_hash L (ns_yaml s)) \<and>
     (case cn_state n of None \<Rightarrow> cn_progression n = [] | Some s \<Rightarrow> s \<in> set (cn_progression n))"

lemma progression_ok_update [simp]: "progression_ok L (update_from_yaml L' t n) = progression_ok L n"
  by (cases "cn_state n") (simp_all add: progression_ok_def)

lemma progression_ok_record_state: "progression_ok L n \<Longrightarrow> progression_ok L (record_state L p ph s n)"
  by (auto simp: progression_ok_def record_state_def Let_def new_state_def MAX_PROGRESSION_def
      dest: list.set_sel(2) [rotated])

section \<open>A small instance\<close>

definition sample_lib :: "(unit, unit) yaml_lib" where
  "sample_lib =
     \<lparr>lib_hash = (\<lambda>s. s), lib_now = ''t'', lib_safe_load = (\<lambda>s. Some YNull), lib_repr = (\<lambda>_. ''[]''),
      lib_load = (\<lambda>s. Some (Doc_map ())), lib_dump_map = (\<lambda>_. ''a: 2''), lib_dump_seq = (\<lambda>_ _. ''- a: 2''),
      lib_diff = (\<lambda>_ _ _ _. [])\<rparr>"

definition empty_fields :: task_fields where
  "empty_fields =
     \<lparr>tf_name = None, tf_module = [], tf_module_options = [], tf_options = [], tf_variables = [],
      tf_become = None, tf_when = When_none, tf_tags = [], tf_loop = YNull, tf_loop_control = None,
      tf_register = None, tf_set_facts = [], tf_notify = [], tf_listen = [], tf_environment = None,
      tf_no_log = None, tf_ignore_errors = None, tf_changed_when = YNull, tf_failed_when = YNull,
      tf_delegate_to = None\<rparr>"

definition sample_node :: "string \<Rightarrow> node_type \<Rightarrow> content_node" where
  "sample_node nid ty =
     \<lparr>cn_identity = \<lparr>id_path = nid, id_type = ty\<rparr>, cn_file_path = ''site.yml'', cn_line_start = 1,
      cn_line_end = 1, cn_fields = empty_fields, cn_yaml = ''a: 1'', cn_indent = 2, cn_scope = NS_Owned,
      cn_state = None, cn_progression = [], cn_ledger = []\<rparr>"

end
