(* ===== verification/Ledger.thy ===== *)
theory Ledger
  imports Content_Graph "HOL-Library.Sublist"
begin

text \<open>
  The violation ledger and the approval tracking of \<open>ContentGraph\<close>
  (\<open>graph/content_graph.py\<close>): registering, resolving, abstaining, approving and declining
  violations, querying them, and approving or rejecting progression entries.  The properties
  are the lifecycle of a ledger record and what a rejection restores.
\<close>

section \<open>Ledger operations on one node\<close>

definition fresh_record :: "int \<Rightarrow> violation \<Rightarrow> violation_record" where
  "fresh_record pass v =
     \<lparr>vr_key = violation_key v, vr_violation = v, vr_status = V_open, vr_fixed_by = None,
      vr_fixed_in_pass = None, vr_discovered_in_pass = pass, vr_ai_reason = None,
      vr_ai_suggestion = None\<rparr>"

definition reregister :: "violation \<Rightarrow> violation_record \<Rightarrow> violation_record" where
  "reregister v r =
     (if vr_status r = V_ai_abstained then r\<lparr>vr_violation := v\<rparr>
      else if vr_status r = V_declined then r\<lparr>vr_violation := v\<rparr>
      else if vr_status r \<in> {V_fixed, V_pending_review, V_proposed}
      then r\<lparr>vr_status := V_open, vr_violation := v, vr_fixed_by := None, vr_fixed_in_pass := None\<rparr>
      else r\<lparr>vr_violation := v\<rparr>)"

definition register_one :: "int \<Rightarrow> violation \<Rightarrow> ledger \<Rightarrow> ledger" where
  "register_one pass v led =
     (case dict_get led (violation_key v) of
        None \<Rightarrow> dict_set (violation_key v) (fresh_record pass v) led
      | Some r \<Rightarrow> dict_set (violation_key v) (reregister v r) led)"

definition resolve_record :: "string list \<Rightarrow> string \<Rightarrow> int \<Rightarrow> vstatus \<Rightarrow> violation_record \<Rightarrow> violation_record" where
  "resolve_record remaining fixed_by pass status r =
     (if vr_status r \<noteq> V_open then r
      else if snd (vr_key r) \<notin> set remaining
      then r\<lparr>vr_status := status, vr_fixed_by := Some fixed_by, vr_fixed_in_pass := Some pass\<rparr>
      else r)"

definition abstain_record ::
  "string list \<Rightarrow> (string, string \<times> string) dict option \<Rightarrow> violation_record \<Rightarrow> violation_record" where
  "abstain_record rule_ids reasons r =
     (if vr_status r \<noteq> V_open then r
      else if snd (vr_key r) \<in> set rule_ids
      then (let r = r\<lparr>vr_status := V_ai_abstained\<rparr>
            in case reasons of
                 None \<Rightarrow> r
               | Some d \<Rightarrow>
                   (case dict_get d (snd (vr_key r)) of
                      None \<Rightarrow> r
                    | Some (reason, suggestion) \<Rightarrow>
                        r\<lparr>vr_ai_reason := Some reason, vr_ai_suggestion := Some suggestion\<rparr>))
      else r)"

definition transition_record :: "vstatus \<Rightarrow> vstatus \<Rightarrow> bool \<Rightarrow> violation_record \<Rightarrow> violation_record" where
  "transition_record from_status to_status clear r =
     (if vr_status r = from_status
      then (let r = r\<lparr>vr_status := to_status\<rparr>
            in if clear then r\<lparr>vr_fixed_by := None, vr_fixed_in_pass := None\<rparr> else r)
      else r)"

definition decline_record :: "violation_record \<Rightarrow> violation_record" where
  "decline_record r =
     (if vr_status r = V_open
      then r\<lparr>vr_status := V_declined, vr_fixed_by := None, vr_fixed_in_pass := None\<rparr> else r)"

section \<open>Ledger operations of the graph\<close>

definition map_ledger :: "(ledger \<Rightarrow> ledger) \<Rightarrow> content_node \<Rightarrow> content_node" where
  "map_ledger f n = n\<lparr>cn_ledger := f (cn_ledger n)\<rparr>"

definition map_records :: "(violation_record \<Rightarrow> violation_record) \<Rightarrow> content_node \<Rightarrow> content_node" where
  "map_records f = map_ledger (dict_map (\<lambda>_. f))"

definition count_records :: "content_graph \<Rightarrow> string \<Rightarrow> (violation_record \<Rightarrow> bool) \<Rightarrow> nat" where
  "count_records g nid P =
     (case get_node g nid of None \<Rightarrow> 0 | Some n \<Rightarrow> length (filter P (map snd (cn_ledger n))))"

fun register_violations :: "violation list \<Rightarrow> int \<Rightarrow> content_graph \<Rightarrow> content_graph" where
  "register_violations [] pass g = g"
| "register_violations (v # vs) pass g =
     register_violations vs pass (map_node (vget_str v ''path'') (map_ledger (register_one pass v)) g)"

definition resolve_violations ::
  "string \<Rightarrow> string list \<Rightarrow> string \<Rightarrow> int \<Rightarrow> vstatus \<Rightarrow> content_graph \<Rightarrow> content_graph \<times> nat" where
  "resolve_violations nid remaining fixed_by pass status g =
     (map_node nid (map_records (resolve_record remaining fixed_by pass status)) g,
      count_records g nid (\<lambda>r. vr_status r = V_open \<and> snd (vr_key r) \<notin> set remaining))"

definition abstain_violations ::
  "string \<Rightarrow> string list \<Rightarrow> (string, string \<times> string) dict option \<Rightarrow> content_graph \<Rightarrow> content_graph \<times> nat" where
  "abstain_violations nid rule_ids reasons g =
     (map_node nid (map_records (abstain_record rule_ids reasons)) g,
      count_records g nid (\<lambda>r. vr_status r = V_open \<and> snd (vr_key r) \<in> set rule_ids))"

definition transition_violations ::
  "string \<Rightarrow> vstatus \<Rightarrow> vstatus \<Rightarrow> bool \<Rightarrow> content_graph \<Rightarrow> content_graph \<times> nat" where
  "transition_violations nid from_status to_status clear g =
     (map_node nid (map_records (transition_record from_status to_status clear)) g,
      count_records g nid (\<lambda>r. vr_status r = from_status))"

definition approve_pending_review :: "string \<Rightarrow> content_graph \<Rightarrow> content_graph \<times> nat" where
  "approve_pending_review nid g = transition_violations nid V_pending_review V_fixed False g"

definition decline_pending_review :: "string \<Rightarrow> content_graph \<Rightarrow> content_graph \<times> nat" where
  "decline_pending_review nid g = transition_violations nid V_pending_review V_declined True g"

definition approve_proposed :: "string \<Rightarrow> content_graph \<Rightarrow> content_graph \<times> nat" where
  "approve_proposed nid g = transition_violations nid V_proposed V_fixed False g"

definition decline_proposed :: "string \<Rightarrow> content_graph \<Rightarrow> content_graph \<times> nat" where
  "decline_proposed nid g = transition_violations nid V_proposed V_declined True g"

definition decline_at :: "vkey \<Rightarrow> ledger \<Rightarrow> ledger" where
  "decline_at k led = dict_map (\<lambda>k' r. if k' = k then decline_record r else r) led"

fun decline_open_violations :: "violation list \<Rightarrow> content_graph \<Rightarrow> content_graph \<times> nat" where
  "decline_open_violations [] g = (g, 0)"
| "decline_open_violations (v # vs) g =
     (let nid = vget_str v ''path'';
          hit = (case get_node g nid of
                   None \<Rightarrow> False
                 | Some n \<Rightarrow> (case dict_get (cn_ledger n) (violation_key v) of
                                None \<Rightarrow> False | Some r \<Rightarrow> vr_status r = V_open));
          (g', c) = decline_open_violations vs (map_node nid (map_ledger (decline_at (violation_key v))) g)
      in (g', (if hit then 1 else 0) + c))"

subsection \<open>Queries\<close>

fun status_resolution :: "vstatus \<Rightarrow> remediation_resolution option" where
  "status_resolution V_ai_abstained = Some AI_ABSTAINED"
| "status_resolution V_proposed = Some AI_PROPOSED"
| "status_resolution V_declined = Some USER_REJECTED"
| "status_resolution _ = None"

fun some_text :: "string option \<Rightarrow> bool" where
  "some_text None = False"
| "some_text (Some s) = (s \<noteq> [])"

definition report_record :: "violation_record \<Rightarrow> violation" where
  "report_record r =
     (let d = vr_violation r;
          d = (case status_resolution (vr_status r) of
                 Some m \<Rightarrow> (if vr_status r = V_proposed \<and> vr_fixed_by r = Some ''deterministic'' then d
                            else stamp m d)
               | None \<Rightarrow> d);
          d = (if some_text (vr_ai_reason r) then dict_set ''ai_reason'' (VStr (the (vr_ai_reason r))) d else d)
      in if some_text (vr_ai_suggestion r)
         then dict_set ''ai_suggestion'' (VStr (the (vr_ai_suggestion r))) d else d)"

definition query_records :: "vstatus option \<Rightarrow> string option \<Rightarrow> content_graph \<Rightarrow> violation_record list" where
  "query_records status fixed_by g =
     filter (\<lambda>r. (case status of None \<Rightarrow> True | Some s \<Rightarrow> vr_status r = s) \<and>
                 (case fixed_by of None \<Rightarrow> True | Some b \<Rightarrow> vr_fixed_by r = Some b))
       (concat (map (\<lambda>n. map snd (cn_ledger n)) (graph_nodes g)))"

definition query_violations :: "vstatus option \<Rightarrow> string option \<Rightarrow> content_graph \<Rightarrow> violation list" where
  "query_violations status fixed_by g = map report_record (query_records status fixed_by g)"

definition collect_violations :: "content_graph \<Rightarrow> violation list" where
  "collect_violations g = query_violations (Some V_open) None g"

section \<open>Approval tracking\<close>

definition approvable :: "string option \<Rightarrow> node_state \<Rightarrow> bool" where
  "approvable source_filter s \<longleftrightarrow>
     \<not> ns_approved s \<and>
     (case source_filter of None \<Rightarrow> True | Some f \<Rightarrow> ns_source s = [] \<or> ns_source s = f)"

definition approve_entry :: "string option \<Rightarrow> node_state \<Rightarrow> node_state" where
  "approve_entry source_filter s = (if approvable source_filter s then s\<lparr>ns_approved := True\<rparr> else s)"

definition last_approved :: "node_state list \<Rightarrow> node_state option" where
  "last_approved prog = List.find ns_approved (rev prog)"

definition approve_entries :: "string option \<Rightarrow> content_node \<Rightarrow> content_node" where
  "approve_entries source_filter n =
     (let prog = map (approve_entry source_filter) (cn_progression n)
      in n\<lparr>cn_progression := prog,
           cn_state := (if prog = [] then cn_state n
                        else Some (case last_approved prog of Some s \<Rightarrow> s | None \<Rightarrow> last prog))\<rparr>)"

definition count_approvable :: "string option \<Rightarrow> content_node \<Rightarrow> nat" where
  "count_approvable source_filter n = length (filter (approvable source_filter) (cn_progression n))"

text \<open>\<open>approve_pending(node_id)\<close> and \<open>approve_pending()\<close>; an empty \<open>node_id\<close> is the latter.\<close>

definition approve_pending :: "string option \<Rightarrow> string option \<Rightarrow> content_graph \<Rightarrow> content_graph \<times> nat" where
  "approve_pending nid source_filter g =
     (case nid of
        Some (c # cs) \<Rightarrow>
          (map_node (c # cs) (approve_entries source_filter) g,
           (case get_node g (c # cs) of None \<Rightarrow> 0 | Some n \<Rightarrow> count_approvable source_filter n))
      | _ \<Rightarrow> (map_all_nodes (approve_entries source_filter) g,
              sum_list (map (count_approvable source_filter) (graph_nodes g))))"

definition approve_node :: "string \<Rightarrow> content_graph \<Rightarrow> content_graph \<times> bool" where
  "approve_node nid g =
     (let (g, a) = approve_pending (Some nid) None g;
          (g, p) = approve_pending_review nid g
      in (g, a > 0 \<or> p > 0))"

definition first_unapproved :: "node_state list \<Rightarrow> nat option" where
  "first_unapproved prog =
     (let i = length (takeWhile ns_approved prog) in if i < length prog then Some i else None)"

definition truncate_node :: "('m, 's) yaml_lib \<Rightarrow> nat \<Rightarrow> content_node \<Rightarrow> content_node" where
  "truncate_node L i n =
     (let prog = (if i = 0 then [hd (cn_progression n)] else take i (cn_progression n));
          restored = last prog
      in update_from_yaml L (ns_yaml restored) (n\<lparr>cn_progression := prog, cn_state := Some restored\<rparr>))"

definition reject_node :: "('m, 's) yaml_lib \<Rightarrow> string \<Rightarrow> content_graph \<Rightarrow> content_graph \<times> bool" where
  "reject_node L nid g =
     (case get_node g nid of
        None \<Rightarrow> (g, False)
      | Some n \<Rightarrow>
          (let (g', c) = decline_pending_review nid g
           in case first_unapproved (cn_progression n) of
                None \<Rightarrow> (g', c > 0)
              | Some i \<Rightarrow> (map_node nid (truncate_node L i) g', True)))"

record step_diff =
  sd_node :: string
  sd_pass :: int
  sd_phase :: string
  sd_source :: string
  sd_diff :: string

definition collect_step_diffs :: "('m, 's) yaml_lib \<Rightarrow> content_graph \<Rightarrow> step_diff list" where
  "collect_step_diffs L g =
     concat (map (\<lambda>n.
       map (\<lambda>(prev, curr).
              \<lparr>sd_node = node_id n, sd_pass = ns_pass curr, sd_phase = ns_phase curr,
               sd_source = ns_source curr,
               sd_diff = lib_diff L (splitlines_keep (ns_yaml prev)) (splitlines_keep (ns_yaml curr))
                           (''pass'' @ show_int (ns_pass prev) @ ''/'' @ node_id n)
                           (''pass'' @ show_int (ns_pass curr) @ ''/'' @ node_id n)\<rparr>)
         (filter (\<lambda>(prev, curr). ns_hash prev \<noteq> ns_hash curr)
            (zip (cn_progression n) (tl (cn_progression n))))) (graph_nodes g))"

section \<open>The lifecycle of a ledger record\<close>

text \<open>
  The status diagram of \<open>ViolationRecord\<close>, with the regression edges of
  \<open>register_violations\<close> and the triage edge of \<open>decline_open_violations\<close>.
\<close>

inductive lifecycle :: "vstatus \<Rightarrow> vstatus \<Rightarrow> bool" where
  same: "lifecycle s s"
| resolved: "s \<in> {V_fixed, V_pending_review, V_proposed} \<Longrightarrow> lifecycle V_open s"
| abstained: "lifecycle V_open V_ai_abstained"
| triaged: "lifecycle V_open V_declined"
| decided: "s \<in> {V_pending_review, V_proposed} \<Longrightarrow> t \<in> {V_fixed, V_declined} \<Longrightarrow> lifecycle s t"
| regressed: "s \<in> {V_fixed, V_pending_review, V_proposed} \<Longrightarrow> lifecycle s V_open"

inductive_cases lifecycle_declinedE: "lifecycle V_declined s"
inductive_cases lifecycle_abstainedE: "lifecycle V_ai_abstained s"

text \<open>A record carries an attribution exactly while something resolved it.\<close>

definition attribution_ok :: "violation_record \<Rightarrow> bool" where
  "attribution_ok r \<longleftrightarrow>
     (vr_fixed_by r \<noteq> None) = (vr_status r \<in> {V_fixed, V_pending_review, V_proposed}) \<and>
     (vr_fixed_in_pass r \<noteq> None) = (vr_status r \<in> {V_fixed, V_pending_review, V_proposed})"

definition record_step :: "violation_record \<Rightarrow> violation_record \<Rightarrow> bool" where
  "record_step r r' \<longleftrightarrow> vr_key r' = vr_key r \<and> vr_discovered_in_pass r' = vr_discovered_in_pass r \<and>
     lifecycle (vr_status r) (vr_status r') \<and> (attribution_ok r \<longrightarrow> attribution_ok r')"

lemma record_step_refl [simp]: "record_step r r"
  by (simp add: record_step_def lifecycle.same)

lemma record_step_reregister: "record_step r (reregister v r)"
  by (auto simp: record_step_def reregister_def attribution_ok_def intro: lifecycle.intros)

lemma record_step_resolve:
  "status \<in> {V_fixed, V_pending_review, V_proposed} \<Longrightarrow> record_step r (resolve_record rem b p status r)"
  by (auto simp: record_step_def resolve_record_def attribution_ok_def intro: lifecycle.intros)

lemma record_step_abstain: "record_step r (abstain_record ids reasons r)"
  by (auto simp: record_step_def abstain_record_def attribution_ok_def Let_def
      intro: lifecycle.intros split: option.splits prod.splits)

lemma record_step_approve:
  "s \<in> {V_pending_review, V_proposed} \<Longrightarrow> record_step r (transition_record s V_fixed False r)"
  by (auto simp: record_step_def transition_record_def attribution_ok_def intro: lifecycle.intros)

lemma record_step_decline:
  "s \<in> {V_pending_review, V_proposed} \<Longrightarrow> record_step r (transition_record s V_declined True r)"
  by (auto simp: record_step_def transition_record_def attribution_ok_def intro: lifecycle.intros)

lemma record_step_decline_record: "record_step r (decline_record r)"
  by (auto simp: record_step_def decline_record_def attribution_ok_def intro: lifecycle.intros)

text \<open>Over several steps.\<close>

definition record_evolves :: "violation_record \<Rightarrow> violation_record \<Rightarrow> bool" where
  "record_evolves r r' \<longleftrightarrow> record_step\<^sup>*\<^sup>* r r'"

lemma record_evolves_sticky:
  assumes "record_evolves r r'" and "vr_status r \<in> {V_declined, V_ai_abstained}"
  shows "vr_status r' = vr_status r"
  using assms unfolding record_evolves_def
  by (induction rule: rtranclp_induct)
    (auto simp: record_step_def elim: lifecycle_declinedE lifecycle_abstainedE)

lemma record_evolves_frame:
  "record_evolves r r' \<Longrightarrow> vr_key r' = vr_key r \<and> vr_discovered_in_pass r' = vr_discovered_in_pass r \<and>
     (attribution_ok r \<longrightarrow> attribution_ok r')"
  unfolding record_evolves_def
  by (induction rule: rtranclp_induct) (auto simp: record_step_def)

lemma record_evolves_step: "record_step r r' \<Longrightarrow> record_evolves r r'"
  by (simp add: record_evolves_def)

lemma record_evolves_trans: "record_evolves a b \<Longrightarrow> record_evolves b c \<Longrightarrow> record_evolves a c"
  by (simp add: record_evolves_def)

subsection \<open>Ledgers\<close>

definition ledger_ok :: "string \<Rightarrow> ledger \<Rightarrow> bool" where
  "ledger_ok nid led \<longleftrightarrow> dict_ok led \<and>
     (\<forall>k r. dict_get led k = Some r \<longrightarrow> vr_key r = k \<and> fst k = nid \<and> attribution_ok r)"

definition ledger_evolves :: "ledger \<Rightarrow> ledger \<Rightarrow> bool" where
  "ledger_evolves led led' \<longleftrightarrow>
     (\<forall>k r. dict_get led k = Some r \<longrightarrow> (\<exists>r'. dict_get led' k = Some r' \<and> record_evolves r r'))"

lemma ledger_evolves_refl [simp]: "ledger_evolves led led"
  by (auto simp: ledger_evolves_def record_evolves_def)

lemma ledger_evolves_trans: "ledger_evolves a b \<Longrightarrow> ledger_evolves b c \<Longrightarrow> ledger_evolves a c"
  unfolding ledger_evolves_def using record_evolves_trans by metis

lemma ledger_dict_map:
  assumes "\<And>k r. record_step r (f k r)"
  shows "ledger_evolves led (dict_map f led)" and "ledger_ok nid led \<Longrightarrow> ledger_ok nid (dict_map f led)"
  using assms by (auto simp: ledger_evolves_def ledger_ok_def dict_simps record_evolves_step)
    (auto simp: record_step_def)

lemma attribution_fresh [simp]: "attribution_ok (fresh_record p v)"
  by (simp add: attribution_ok_def fresh_record_def)

lemma vr_key_fresh [simp]: "vr_key (fresh_record p v) = violation_key v"
  by (simp add: fresh_record_def)

lemma ledger_ok_set:
  "ledger_ok nid led \<Longrightarrow> vr_key r = k \<Longrightarrow> fst k = nid \<Longrightarrow> attribution_ok r \<Longrightarrow>
     ledger_ok nid (dict_set k r led)"
  by (simp add: ledger_ok_def dict_simps del: split_paired_All)

lemma ledger_register_one:
  "ledger_evolves led (register_one p v led)"
  "ledger_ok nid led \<Longrightarrow> vget_str v ''path'' = nid \<Longrightarrow> ledger_ok nid (register_one p v led)"
proof -
  show "ledger_evolves led (register_one p v led)"
    using record_evolves_step [OF record_step_reregister, of _ v]
    by (auto simp: ledger_evolves_def register_one_def dict_simps record_evolves_def split: option.splits)
  assume ok: "ledger_ok nid led" and nid: "vget_str v ''path'' = nid"
  have key: "fst (violation_key v) = nid" using nid by (simp add: violation_key_def)
  have rereg: "vr_key (reregister v r) = vr_key r \<and> (attribution_ok r \<longrightarrow> attribution_ok (reregister v r))" for r
    using record_step_reregister [of r v] by (simp add: record_step_def)
  show "ledger_ok nid (register_one p v led)"
  proof (cases "dict_get led (violation_key v)")
    case None
    then show ?thesis using ok key by (simp add: register_one_def ledger_ok_set)
  next
    case (Some r)
    with ok have "vr_key r = violation_key v" "attribution_ok r" by (auto simp: ledger_ok_def simp del: split_paired_All)
    with Some rereg [of r] key ok show ?thesis by (simp add: register_one_def ledger_ok_set)
  qed
qed

section \<open>Graph operations respect the lifecycle\<close>

definition graph_ok :: "('m, 's) yaml_lib \<Rightarrow> content_graph \<Rightarrow> bool" where
  "graph_ok L g \<longleftrightarrow> dict_ok (cg_nodes g) \<and>
     (\<forall>nid n. get_node g nid = Some n \<longrightarrow>
        node_id n = nid \<and> ledger_ok nid (cn_ledger n) \<and> progression_ok L n)"

definition graph_evolves :: "content_graph \<Rightarrow> content_graph \<Rightarrow> bool" where
  "graph_evolves g g' \<longleftrightarrow>
     map fst (cg_nodes g') = map fst (cg_nodes g) \<and> cg_edges g' = cg_edges g \<and>
     (\<forall>nid n. get_node g nid = Some n \<longrightarrow>
        (\<exists>n'. get_node g' nid = Some n' \<and> same_place n n' \<and> ledger_evolves (cn_ledger n) (cn_ledger n')))"

lemma graph_evolves_refl [simp]: "graph_evolves g g"
  by (auto simp: graph_evolves_def)

lemma graph_evolves_trans [trans]:
  assumes "graph_evolves a b" and "graph_evolves b c"
  shows "graph_evolves a c"
  unfolding graph_evolves_def
proof (intro conjI allI impI)
  fix nid n
  assume "get_node a nid = Some n"
  then obtain n' where n': "get_node b nid = Some n'" "same_place n n'"
    "ledger_evolves (cn_ledger n) (cn_ledger n')" using assms(1) by (auto simp: graph_evolves_def)
  then obtain n'' where "get_node c nid = Some n''" "same_place n' n''"
    "ledger_evolves (cn_ledger n') (cn_ledger n'')" using assms(2) by (auto simp: graph_evolves_def)
  then show "\<exists>n'. get_node c nid = Some n' \<and> same_place n n' \<and> ledger_evolves (cn_ledger n) (cn_ledger n')"
    using n' same_place_trans ledger_evolves_trans by blast
qed (use assms in \<open>auto simp: graph_evolves_def\<close>)

lemma evolves_record:
  assumes "graph_evolves g g'" and "get_node g nid = Some n" and "dict_get (cn_ledger n) k = Some r"
  obtains n' r' where "get_node g' nid = Some n'" and "dict_get (cn_ledger n') k = Some r'" and "record_evolves r r'"
  using assms unfolding graph_evolves_def ledger_evolves_def by blast

lemma evolves_sticky:
  assumes "graph_evolves g g'" and "get_node g nid = Some n" and "dict_get (cn_ledger n) k = Some r"
    and "vr_status r \<in> {V_declined, V_ai_abstained}"
  shows "\<exists>n' r'. get_node g' nid = Some n' \<and> dict_get (cn_ledger n') k = Some r' \<and> vr_status r' = vr_status r"
  using evolves_record [OF assms(1-3)] record_evolves_sticky assms(4) by metis

text \<open>
  The contract every operation on the graph keeps: well-formed graphs stay well-formed, no
  vertex, edge or ledger record disappears, nodes stay where they are and records follow the
  lifecycle.
\<close>

definition safe_step :: "('m, 's) yaml_lib \<Rightarrow> content_graph \<Rightarrow> content_graph \<Rightarrow> bool" where
  "safe_step L g g' \<longleftrightarrow> graph_evolves g g' \<and> (graph_ok L g \<longrightarrow> graph_ok L g')"

lemma safe_step_refl [simp]: "safe_step L g g"
  by (simp add: safe_step_def)

lemma safe_step_trans [trans]: "safe_step L a b \<Longrightarrow> safe_step L b c \<Longrightarrow> safe_step L a c"
  by (auto simp: safe_step_def intro: graph_evolves_trans)

locale graph_operation =
  fixes L :: "('m, 's) yaml_lib"
    and op :: "'x \<Rightarrow> content_graph \<Rightarrow> content_graph"
  assumes step: "safe_step L g (op x g)"
begin

lemma fold_step: "safe_step L g (fold op xs g)"
  by (induction xs arbitrary: g) (auto intro: safe_step_trans step)

lemma sticky:
  assumes "get_node g nid = Some n" and "dict_get (cn_ledger n) k = Some r"
    and "vr_status r \<in> {V_declined, V_ai_abstained}"
  obtains n' r' where "get_node (op x g) nid = Some n'" "dict_get (cn_ledger n') k = Some r'"
    "vr_status r' = vr_status r"
  using evolves_sticky [OF _ assms] step [of g x] that unfolding safe_step_def by blast

end

text \<open>Changing one payload (or all of them) is safe when the change of the payload is.\<close>

definition safe_payload :: "('m, 's) yaml_lib \<Rightarrow> string \<Rightarrow> content_node \<Rightarrow> content_node \<Rightarrow> bool" where
  "safe_payload L nid n n' \<longleftrightarrow> same_place n n' \<and> ledger_evolves (cn_ledger n) (cn_ledger n') \<and>
     (ledger_ok nid (cn_ledger n) \<longrightarrow> ledger_ok nid (cn_ledger n')) \<and>
     (progression_ok L n \<longrightarrow> progression_ok L n')"

lemma safe_payload_refl [simp]: "safe_payload L nid n n"
  by (simp add: safe_payload_def)

lemma safe_step_map_node:
  assumes "\<And>n. get_node g nid = Some n \<Longrightarrow> safe_payload L nid n (f n)"
  shows "safe_step L g (map_node nid f g)"
  unfolding safe_step_def graph_evolves_def graph_ok_def
  using assms by (auto simp: graph_simps safe_payload_def same_place_def graph_ok_def dict_ok_def)

lemma safe_step_map_all_nodes:
  assumes "\<And>nid n. get_node g nid = Some n \<Longrightarrow> safe_payload L nid n (f n)"
  shows "safe_step L g (map_all_nodes f g)"
  unfolding safe_step_def graph_evolves_def graph_ok_def
  using assms by (auto simp: graph_simps safe_payload_def same_place_def graph_ok_def dict_ok_def)

lemma graph_ok_dirty [simp]:
  "graph_ok L (mark_dirty nid g) = graph_ok L g" "graph_ok L (clear_dirty g) = graph_ok L g"
  by (simp_all add: graph_ok_def graph_simps)

lemma graph_evolves_dirty [simp]:
  "graph_evolves g (mark_dirty nid g') = graph_evolves g g'"
  "graph_evolves g (clear_dirty g') = graph_evolves g g'"
  by (simp_all add: graph_evolves_def graph_simps)

lemma safe_step_dirty [simp]:
  "safe_step L g (mark_dirty nid g') = safe_step L g g'"
  "safe_step L g (clear_dirty g') = safe_step L g g'"
  by (simp_all add: safe_step_def)

lemma safe_payload_map_records:
  assumes "\<And>r. record_step r (f r)"
  shows "safe_payload L nid n (map_records f n)"
  using ledger_dict_map [of "\<lambda>_. f"] assms
  by (cases "cn_state n")
    (auto simp: safe_payload_def map_records_def map_ledger_def same_place_def progression_ok_def)

lemma safe_payload_record_state [simp]: "safe_payload L nid n (record_state L p ph s n)"
  by (simp add: safe_payload_def progression_ok_record_state)

lemma safe_payload_update [simp]: "safe_payload L nid n (update_from_yaml L' t n)"
  by (simp add: safe_payload_def)

lemma safe_payload_register:
  "vget_str v ''path'' = nid \<Longrightarrow> safe_payload L nid n (map_ledger (register_one p v) n)"
  using ledger_register_one
  by (cases "cn_state n") (auto simp: safe_payload_def map_ledger_def same_place_def progression_ok_def)

lemma safe_payload_decline_at: "safe_payload L nid n (map_ledger (decline_at k) n)"
proof -
  have "record_step r (if k' = k then decline_record r else r)" for k' r
    by (simp add: record_step_decline_record)
  from ledger_dict_map [of "\<lambda>k' r. if k' = k then decline_record r else r", OF this] show ?thesis
    by (cases "cn_state n")
      (auto simp: safe_payload_def map_ledger_def decline_at_def same_place_def progression_ok_def)
qed

lemma find_in_set: "List.find P xs = Some x \<Longrightarrow> x \<in> set xs \<and> P x"
  by (auto simp: find_Some_iff)

lemma approve_entry_simps [simp]:
  "ns_hash (approve_entry f s) = ns_hash s" "ns_yaml (approve_entry f s) = ns_yaml s"
  "ns_source (approve_entry f s) = ns_source s" "ns_id (approve_entry f s) = ns_id s"
  by (simp_all add: approve_entry_def)

lemma safe_payload_approve [simp]: "safe_payload L nid n (approve_entries f n)"
proof -
  let ?prog = "map (approve_entry f) (cn_progression n)"
  have "(case last_approved ?prog of Some s \<Rightarrow> s | None \<Rightarrow> last ?prog) \<in> set ?prog" if "?prog \<noteq> []"
    using find_in_set [of ns_approved "rev ?prog"] last_in_set [of ?prog] that
    by (auto simp: last_approved_def split: option.splits)
  then show ?thesis
    by (cases "cn_state n")
      (auto simp: safe_payload_def same_place_def progression_ok_def approve_entries_def Let_def)
qed

lemma hd_or_take:
  assumes "xs \<noteq> []"
  shows "(if i = 0 then [hd xs] else take i xs) \<noteq> [] \<and> set (if i = 0 then [hd xs] else take i xs) \<subseteq> set xs \<and>
    length (if i = 0 then [hd xs] else take i xs) \<le> length xs"
  using assms set_take_subset [of i xs] by (cases xs) auto

lemma safe_payload_truncate:
  assumes "cn_progression n \<noteq> []"
  shows "safe_payload L nid n (truncate_node L i n)"
  using hd_or_take [OF assms, of i]
  by (auto simp: safe_payload_def truncate_node_def Let_def same_place_def progression_ok_def)

named_theorems safe_ops \<open>the operations of the graph that keep the contract\<close>

lemma safe_register [safe_ops]: "safe_step L g (register_violations vs p g)"
proof (induction vs arbitrary: g)
  case (Cons v vs)
  have "safe_step L g (map_node (vget_str v ''path'') (map_ledger (register_one p v)) g)"
    by (rule safe_step_map_node) (simp add: safe_payload_register)
  then show ?case using safe_step_trans [OF _ Cons] by simp
qed simp

lemma safe_resolve [safe_ops]:
  "status \<in> {V_fixed, V_pending_review, V_proposed} \<Longrightarrow>
     safe_step L g (fst (resolve_violations nid rem b p status g))"
  unfolding resolve_violations_def fst_conv
  by (intro safe_step_map_node safe_payload_map_records record_step_resolve)

lemma safe_abstain [safe_ops]: "safe_step L g (fst (abstain_violations nid ids reasons g))"
  unfolding abstain_violations_def fst_conv
  by (intro safe_step_map_node safe_payload_map_records record_step_abstain)

lemma safe_decisions [safe_ops]:
  "safe_step L g (fst (approve_pending_review nid g))"
  "safe_step L g (fst (decline_pending_review nid g))"
  "safe_step L g (fst (approve_proposed nid g))"
  "safe_step L g (fst (decline_proposed nid g))"
  unfolding approve_pending_review_def decline_pending_review_def approve_proposed_def
    decline_proposed_def transition_violations_def fst_conv
  by (intro safe_step_map_node safe_payload_map_records record_step_approve record_step_decline; simp)+

lemma safe_decline_open [safe_ops]: "safe_step L g (fst (decline_open_violations vs g))"
proof (induction vs arbitrary: g)
  case (Cons v vs)
  have "safe_step L g (map_node (vget_str v ''path'') (map_ledger (decline_at (violation_key v))) g)"
    by (rule safe_step_map_node) (rule safe_payload_decline_at)
  then show ?case using safe_step_trans [OF _ Cons] by (simp add: Let_def case_prod_unfold)
qed simp

lemma safe_record_state [safe_ops]: "safe_step L g (map_node nid (record_state L p ph s) g)"
  by (rule safe_step_map_node) simp

lemma safe_update [safe_ops]: "safe_step L g (map_node nid (update_from_yaml L t) g)"
  by (rule safe_step_map_node) simp

lemma safe_apply_yaml [safe_ops]: "safe_step L g (fst (apply_yaml L nid t g))"
  by (simp add: apply_yaml_def Let_def safe_update split: option.splits)

lemma safe_apply_transform [safe_ops]: "safe_step L g (fst (apply_transform L nid f v g))"
  by (simp add: apply_transform_def Let_def safe_update split: option.splits)

lemma safe_approve_pending [safe_ops]: "safe_step L g (fst (approve_pending nid f g))"
  by (auto simp: approve_pending_def safe_step_map_all_nodes safe_step_map_node split: option.splits list.splits)

lemma safe_approve_node [safe_ops]: "safe_step L g (fst (approve_node nid g))"
  using safe_step_trans [OF safe_approve_pending safe_decisions(1)]
  by (simp add: approve_node_def Let_def case_prod_unfold)

lemma cn_progression_map_records [simp]: "cn_progression (map_records f n) = cn_progression n"
  by (simp add: map_records_def map_ledger_def)

lemma get_node_decline_pending_review [graph_simps]:
  "get_node (fst (decline_pending_review nid g)) k =
     (if k = nid then map_option (map_records (transition_record V_pending_review V_declined True)) (get_node g k)
      else get_node g k)"
  by (simp add: decline_pending_review_def transition_violations_def graph_simps)

lemma first_unapproved_nonempty: "first_unapproved prog = Some i \<Longrightarrow> prog \<noteq> [] \<and> i < length prog"
  by (auto simp: first_unapproved_def Let_def split: if_splits)

lemma safe_reject_node [safe_ops]: "safe_step L g (fst (reject_node L nid g))"
proof (cases "get_node g nid")
  case (Some n)
  let ?g = "fst (decline_pending_review nid g)"
  have d: "safe_step L g ?g" by (rule safe_decisions)
  show ?thesis
  proof (cases "first_unapproved (cn_progression n)")
    case None
    then show ?thesis using Some d by (simp add: reject_node_def case_prod_unfold Let_def)
  next
    case (Some i)
    then have "safe_step L ?g (map_node nid (truncate_node L i) ?g)"
      using \<open>get_node g nid = Some n\<close> first_unapproved_nonempty
      by (intro safe_step_map_node safe_payload_truncate) (auto simp: graph_simps)
    then show ?thesis
      using Some \<open>get_node g nid = Some n\<close> safe_step_trans [OF d] by (simp add: reject_node_def case_prod_unfold Let_def)
  qed
qed (simp add: reject_node_def)

section \<open>Histories of operations\<close>

text \<open>
  Every call the engine, the gates and the scanner make on the graph, as one step.
\<close>

inductive graph_call :: "('m, 's) yaml_lib \<Rightarrow> content_graph \<Rightarrow> content_graph \<Rightarrow> bool" for L where
  "graph_call L g (register_violations vs p g)"
| "status \<in> {V_fixed, V_pending_review, V_proposed} \<Longrightarrow>
     graph_call L g (fst (resolve_violations nid rem b p status g))"
| "graph_call L g (fst (abstain_violations nid ids reasons g))"
| "graph_call L g (fst (approve_pending_review nid g))"
| "graph_call L g (fst (decline_pending_review nid g))"
| "graph_call L g (fst (approve_proposed nid g))"
| "graph_call L g (fst (decline_proposed nid g))"
| "graph_call L g (fst (decline_open_violations vs g))"
| "graph_call L g (map_node nid (record_state L p ph s) g)"
| "graph_call L g (fst (apply_yaml L nid t g))"
| "graph_call L g (fst (apply_transform L nid f v g))"
| "graph_call L g (fst (approve_pending node_opt filter_opt g))"
| "graph_call L g (fst (approve_node nid g))"
| "graph_call L g (fst (reject_node L nid g))"
| "graph_call L g (clear_dirty g)"

lemma graph_call_safe: "graph_call L g g' \<Longrightarrow> safe_step L g g'"
  by (induction rule: graph_call.induct) (auto intro: safe_ops)

lemma graph_calls_safe: "(graph_call L)\<^sup>*\<^sup>* g g' \<Longrightarrow> safe_step L g g'"
  by (induction rule: rtranclp_induct) (auto intro: safe_step_trans graph_call_safe)

interpretation snapshots: graph_operation L "\<lambda>nid. map_node nid (record_state L p ph s)" for L p ph s
  by unfold_locales (rule safe_record_state)

interpretation declining: graph_operation L "\<lambda>vs g. fst (decline_open_violations vs g)" for L
  by unfold_locales (rule safe_decline_open)

interpretation rejecting: graph_operation L "\<lambda>nid g. fst (reject_node L nid g)" for L
  by unfold_locales (rule safe_reject_node)

text \<open>
  C16. Whatever sequence of calls is made on a content graph, a well-formed graph stays
  well-formed (ledgers keyed by node and rule with an attribution exactly on resolved records,
  progressions bounded and hashed) and nothing is lost: vertices and edges are the same, every
  node keeps its identity, file, line span, indentation and scope, and every ledger record is
  still there, under the same key, having moved only along the documented status diagram.
\<close>

theorem graph_history_safe:
  assumes "(graph_call L)\<^sup>*\<^sup>* g g'" and "graph_ok L g"
  shows "graph_ok L g' \<and> graph_evolves g g'"
  using graph_calls_safe [OF assms(1)] assms(2) by (simp add: safe_step_def)

text \<open>
  C15. A decision is sticky: once a violation is declined by the user, or given up by the AI, no
  later call on the graph (rescans that report it again included) changes its status.
\<close>

theorem declined_is_sticky:
  assumes "(graph_call L)\<^sup>*\<^sup>* g g'" and "get_node g nid = Some n"
    and "dict_get (cn_ledger n) k = Some r" and "vr_status r \<in> {V_declined, V_ai_abstained}"
  shows "\<exists>n' r'. get_node g' nid = Some n' \<and> dict_get (cn_ledger n') k = Some r' \<and> vr_status r' = vr_status r"
  using graph_calls_safe [OF assms(1)] by (intro evolves_sticky [OF _ assms(2-4)]) (simp add: safe_step_def)

section \<open>What the single calls do\<close>

lemma map_snd_dict_map: "map snd (dict_map (\<lambda>_. f) d) = map f (map snd d)"
  by (simp add: dict_map_def case_prod_unfold)

definition ledger_records :: "content_graph \<Rightarrow> string \<Rightarrow> violation_record list" where
  "ledger_records g nid = (case get_node g nid of None \<Rightarrow> [] | Some n \<Rightarrow> map snd (cn_ledger n))"

lemma ledger_records_map_node:
  "ledger_records (map_node nid (map_records f) g) k =
     (if k = nid then map f (ledger_records g k) else ledger_records g k)"
  by (auto simp: ledger_records_def graph_simps map_records_def map_ledger_def map_snd_dict_map
      split: option.splits)

lemma count_records_eq: "count_records g nid P = length (filter P (ledger_records g nid))"
  by (simp add: count_records_def ledger_records_def split: option.splits)

text \<open>
  C17. \<open>resolve_violations\<close> moves exactly the open records of the node whose rule the rescan no
  longer reports: they get the target status with attribution and pass, the returned number is
  how many moved, the open records left are those still reported, and every other record and
  every other node is unchanged.
\<close>

theorem resolve_violations_exact:
  assumes "resolve_violations nid remaining b p status g = (g', c)" and "status \<noteq> V_open"
  shows "ledger_records g' nid = map (resolve_record remaining b p status) (ledger_records g nid)
    \<and> (\<forall>k. k \<noteq> nid \<longrightarrow> get_node g' k = get_node g k)
    \<and> c = length (filter (\<lambda>r. vr_status r = V_open \<and> snd (vr_key r) \<notin> set remaining) (ledger_records g nid))
    \<and> filter (\<lambda>r. vr_status r = V_open) (ledger_records g' nid) =
        filter (\<lambda>r. vr_status r = V_open \<and> snd (vr_key r) \<in> set remaining) (ledger_records g nid)
    \<and> length (filter (\<lambda>r. vr_status r = status) (ledger_records g' nid)) =
        length (filter (\<lambda>r. vr_status r = status) (ledger_records g nid)) + c"
proof -
  have g': "g' = map_node nid (map_records (resolve_record remaining b p status)) g"
    and c: "c = length (filter (\<lambda>r. vr_status r = V_open \<and> snd (vr_key r) \<notin> set remaining) (ledger_records g nid))"
    using assms(1) by (auto simp: resolve_violations_def count_records_eq)
  let ?f = "resolve_record remaining b p status"
  have op: "filter (\<lambda>r. vr_status r = V_open) (map ?f rs) =
      filter (\<lambda>r. vr_status r = V_open \<and> snd (vr_key r) \<in> set remaining) rs" for rs
    using assms(2) by (induction rs) (auto simp: resolve_record_def)
  have st: "length (filter (\<lambda>r. vr_status r = status) (map ?f rs)) =
      length (filter (\<lambda>r. vr_status r = status) rs) +
      length (filter (\<lambda>r. vr_status r = V_open \<and> snd (vr_key r) \<notin> set remaining) rs)" for rs
    using assms(2) by (induction rs) (auto simp: resolve_record_def)
  show ?thesis
    using op st c by (simp add: g' ledger_records_map_node graph_simps)
qed

text \<open>
  The six status queries split the ledger: every record is reported by exactly the query for
  its status, so together they report each violation of the unfiltered query once.
\<close>

theorem query_violations_partition:
  "mset (query_violations None b g) =
     mset (query_violations (Some V_open) b g) + mset (query_violations (Some V_fixed) b g)
     + mset (query_violations (Some V_pending_review) b g) + mset (query_violations (Some V_proposed) b g)
     + mset (query_violations (Some V_declined) b g) + mset (query_violations (Some V_ai_abstained) b g)"
proof -
  have "mset (map report_record (filter (\<lambda>r. P r) rs)) =
      mset (map report_record (filter (\<lambda>r. vr_status r = V_open \<and> P r) rs))
      + mset (map report_record (filter (\<lambda>r. vr_status r = V_fixed \<and> P r) rs))
      + mset (map report_record (filter (\<lambda>r. vr_status r = V_pending_review \<and> P r) rs))
      + mset (map report_record (filter (\<lambda>r. vr_status r = V_proposed \<and> P r) rs))
      + mset (map report_record (filter (\<lambda>r. vr_status r = V_declined \<and> P r) rs))
      + mset (map report_record (filter (\<lambda>r. vr_status r = V_ai_abstained \<and> P r) rs))" for P rs
  proof (induction rs)
    case (Cons r rs)
    then show ?case by (cases "vr_status r") auto
  qed simp
  from this [of "\<lambda>r. case b of None \<Rightarrow> True | Some b \<Rightarrow> vr_fixed_by r = Some b"] show ?thesis
    unfolding query_violations_def query_records_def by simp
qed

text \<open>
  C18. \<open>apply_yaml\<close> reports a change exactly when it makes one: on \<open>False\<close> the graph is untouched;
  on \<open>True\<close> the node exists, its text differs from before, the node is dirty, all other nodes
  are untouched, the new text has the lines of the argument up to indentation, and text with
  content sits at the node's own indentation.  Applying the same text again is a no-op.
\<close>

theorem apply_yaml_correct:
  assumes "apply_yaml L nid t g = (g', changed)"
  shows "(\<not> changed \<longrightarrow> g' = g) \<and>
    (changed \<longrightarrow> (\<exists>n n'. get_node g nid = Some n \<and> get_node g' nid = Some n' \<and>
       cn_yaml n' \<noteq> cn_yaml n \<and> nid \<in> set (cg_dirty g') \<and> set (cg_dirty g') = insert nid (set (cg_dirty g)) \<and>
       (\<forall>k. k \<noteq> nid \<longrightarrow> get_node g' k = get_node g k) \<and>
       map lstrip (splitlines_keep (cn_yaml n')) = map lstrip (splitlines_keep t) \<and>
       (\<not> list_all is_space t \<and> 0 \<le> cn_indent n \<longrightarrow> int (detect_indent (cn_yaml n')) = cn_indent n))) \<and>
    apply_yaml L nid t g' = (g', False)"
proof (cases "get_node g nid")
  case None
  then show ?thesis using assms by (auto simp: apply_yaml_def)
next
  case (Some n)
  define t' where "t' = (if int (detect_indent t) \<noteq> cn_indent n then reindent t (cn_indent n) else t)"
  have g': "(g', changed) = (if t' = cn_yaml n then (g, False)
      else (mark_dirty nid (map_node nid (update_from_yaml L t') g), True))"
    using assms Some unfolding apply_yaml_def t'_def Let_def by (simp only: option.case)
  have lines: "map lstrip (splitlines_keep t') = map lstrip (splitlines_keep t)"
    using splitlines_keep_reindent [of t "cn_indent n"] by (auto simp: t'_def lstrip_shift_line)
  have col: "int (detect_indent t') = cn_indent n" if "\<not> list_all is_space t" "0 \<le> cn_indent n"
    using detect_indent_reindent [OF that(1), of "cn_indent n"] that(2) by (simp add: t'_def)
  show ?thesis
  proof (cases "t' = cn_yaml n")
    case True
    with g' Some show ?thesis by (simp add: apply_yaml_def t'_def [symmetric] Let_def)
  next
    case False
    with g' have g'': "g' = mark_dirty nid (map_node nid (update_from_yaml L t') g)" and ch: "changed" by auto
    have "apply_yaml L nid t g' = (g', False)"
      using Some by (simp add: apply_yaml_def g'' graph_simps Let_def) (simp add: t'_def)
    moreover have "get_node g' nid = Some (update_from_yaml L t' n)"
      using Some by (simp add: g'' graph_simps)
    ultimately show ?thesis
      using Some False lines col ch by (auto simp: g'' graph_simps)
  qed
qed


text \<open>
  C20. \<open>approve_pending\<close> with a source filter, over the whole graph: in every node exactly the
  pending entries whose source is empty or the filter become approved, nothing else of any
  entry changes, the node text is untouched, the current state is the last approved entry when
  there is one, and the result counts the entries approved.
\<close>

theorem approve_pending_exact:
  assumes "approve_pending None (Some f) g = (g', c)" and "get_node g nid = Some n"
  shows "\<exists>n'. get_node g' nid = Some n' \<and> cn_yaml n' = cn_yaml n \<and>
      cn_progression n' =
        map (\<lambda>s. s\<lparr>ns_approved := ns_approved s \<or> ns_source s = [] \<or> ns_source s = f\<rparr>) (cn_progression n) \<and>
      (\<forall>s. last_approved (cn_progression n') = Some s \<longrightarrow> cn_state n' = Some s) \<and>
      c = sum_list (map (\<lambda>m. length (filter (\<lambda>s. \<not> ns_approved s \<and> (ns_source s = [] \<or> ns_source s = f))
            (cn_progression m))) (graph_nodes g))"
proof -
  have g': "g' = map_all_nodes (approve_entries (Some f)) g"
    and c: "c = sum_list (map (count_approvable (Some f)) (graph_nodes g))"
    using assms(1) by (auto simp: approve_pending_def)
  have e: "approve_entry (Some f) s = s\<lparr>ns_approved := ns_approved s \<or> ns_source s = [] \<or> ns_source s = f\<rparr>" for s
    by (auto simp: approve_entry_def approvable_def)
  have a: "approvable (Some f) = (\<lambda>s. \<not> ns_approved s \<and> (ns_source s = [] \<or> ns_source s = f))"
    by (simp add: fun_eq_iff approvable_def)
  have st: "cn_state (approve_entries (Some f) n) = Some s"
    if "last_approved (cn_progression (approve_entries (Some f) n)) = Some s" for s
    using that by (auto simp: approve_entries_def Let_def last_approved_def)
  show ?thesis
    using assms(2) st
    by (intro exI [of _ "approve_entries (Some f) n"])
      (simp add: g' c graph_simps approve_entries_def Let_def e a count_approvable_def [abs_def])
qed

subsection \<open>Snapshot identifiers\<close>

definition ids_aligned :: "content_node \<Rightarrow> bool" where
  "ids_aligned n \<longleftrightarrow>
     map ns_id (cn_progression n) =
     map (\<lambda>i. node_id n @ ''@'' @ show_nat i) [0..<length (cn_progression n)]"

text \<open>
  Below the progression cap snapshot identifiers are unique: they number the entries, taking
  a snapshot or rejecting a node keeps the numbering, and so no two entries share one.
\<close>

theorem snapshot_ids_unique:
  assumes "ids_aligned n" and "length (cn_progression n) < MAX_PROGRESSION"
  shows "ids_aligned (record_state L p ph s n) \<and> distinct (map ns_id (cn_progression (record_state L p ph s n)))
    \<and> ns_id (new_state L p ph s n) \<notin> ns_id ` set (cn_progression n)
    \<and> (cn_progression n \<noteq> [] \<longrightarrow> ids_aligned (truncate_node L' i n))"
proof (intro conjI impI)
  have al: "ids_aligned (record_state L p ph s n)"
    using assms by (simp add: ids_aligned_def record_state_def Let_def new_state_def)
  have dist: "distinct (map ns_id (cn_progression m))" if "ids_aligned m" for m
    using that by (simp add: ids_aligned_def distinct_map inj_on_def)
  show "ids_aligned (record_state L p ph s n)" by (rule al)
  show "distinct (map ns_id (cn_progression (record_state L p ph s n)))" by (rule dist [OF al])
  then show "ns_id (new_state L p ph s n) \<notin> ns_id ` set (cn_progression n)"
    using assms(2) by (simp add: record_state_def Let_def)
  assume ne: "cn_progression n \<noteq> []"
  have "map ns_id (take j (cn_progression n)) =
      map (\<lambda>i. node_id n @ ''@'' @ show_nat i) [0..<length (take j (cn_progression n))]" for j
    using arg_cong [where f = "take j", OF assms(1) [unfolded ids_aligned_def]]
    by (cases "j \<le> length (cn_progression n)") (simp_all add: take_map take_upt)
  from this [of i] this [of 1] show "ids_aligned (truncate_node L' i n)"
    using ne by (cases "cn_progression n") (auto simp: ids_aligned_def truncate_node_def Let_def)
qed

text \<open>
  C21. At the cap they are not: once a node has \<open>MAX_PROGRESSION\<close> entries every further snapshot
  gets the same number, and the baseline has been dropped from the front.
\<close>

theorem snapshot_ids_collide_at_cap:
  assumes "length (cn_progression n) = MAX_PROGRESSION"
    and "n' = record_state L p2 ph2 s2 (record_state L p1 ph1 s1 n)"
  shows "\<not> distinct (map ns_id (cn_progression n')) \<and> cn_progression n' =
    drop 2 (cn_progression n) @ [new_state L p1 ph1 s1 n, new_state L p2 ph2 s2 (record_state L p1 ph1 s1 n)]"
proof -
  obtain a b rest where prog: "cn_progression n = a # b # rest"
    using assms(1) by (cases "cn_progression n"; cases "tl (cn_progression n)") (auto simp: MAX_PROGRESSION_def)
  have "cn_progression n' =
      drop 2 (cn_progression n) @ [new_state L p1 ph1 s1 n, new_state L p2 ph2 s2 (record_state L p1 ph1 s1 n)]"
    using assms prog by (simp add: record_state_def Let_def numeral_2_eq_2)
  moreover have "ns_id (new_state L p1 ph1 s1 n) = ns_id (new_state L p2 ph2 s2 (record_state L p1 ph1 s1 n))"
    using assms(1) prog by (simp add: new_state_def record_state_def Let_def)
  ultimately show ?thesis by simp
qed

section \<open>Witnesses\<close>

definition sample_graph :: content_graph where
  "sample_graph =
     map_node ''t'' (record_state sample_lib 0 ''scanned'' [])
       (register_violations [sample_violation ''L007'' ''t'']  0 (add_node (sample_node ''t'' NT_Task) empty_graph))"

lemma graph_ok_sample: "graph_ok sample_lib sample_graph"
proof -
  have "graph_ok sample_lib (add_node (sample_node ''t'' NT_Task) empty_graph)"
    by (auto simp: graph_ok_def graph_simps add_node_def empty_graph_def dict_ok_def get_node_def
        sample_node_def ledger_ok_def progression_ok_def split: if_splits)
  then show ?thesis
    using safe_register safe_record_state unfolding sample_graph_def safe_step_def by blast
qed

lemma sample_calls:
  "(graph_call sample_lib)\<^sup>*\<^sup>* sample_graph (fst (apply_yaml sample_lib ''t'' ''a: 2'' sample_graph))"
  by (rule r_into_rtranclp) (rule graph_call.intros)

theorem graph_history_safe_witness:
  "(graph_call sample_lib)\<^sup>*\<^sup>* sample_graph (fst (apply_yaml sample_lib ''t'' ''a: 2'' sample_graph)) \<and>
   graph_ok sample_lib sample_graph \<and>
   graph_ok sample_lib (fst (apply_yaml sample_lib ''t'' ''a: 2'' sample_graph))"
  using graph_history_safe [OF sample_calls graph_ok_sample] sample_calls graph_ok_sample by blast

definition sample_declined :: content_graph where
  "sample_declined = fst (decline_open_violations [sample_violation ''L007'' ''t''] sample_graph)"

theorem declined_is_sticky_witness:
  "\<exists>n' r'. get_node (register_violations [sample_violation ''L007'' ''t''] 3 sample_declined) ''t'' = Some n' \<and>
     dict_get (cn_ledger n') (''t'', ''L007'') = Some r' \<and> vr_status r' = V_declined"
proof -
  have calls: "(graph_call sample_lib)\<^sup>*\<^sup>* sample_declined
      (register_violations [sample_violation ''L007'' ''t''] 3 sample_declined)"
    by (rule r_into_rtranclp) (rule graph_call.intros)
  obtain n r where nr: "get_node sample_declined ''t'' = Some n"
    "dict_get (cn_ledger n) (''t'', ''L007'') = Some r" "vr_status r = V_declined"
  proof -
    have "(case get_node sample_declined ''t'' of None \<Rightarrow> False | Some n \<Rightarrow>
        (case dict_get (cn_ledger n) (''t'', ''L007'') of None \<Rightarrow> False | Some r \<Rightarrow> vr_status r = V_declined))"
      by code_simp
    then show thesis using that by (auto split: option.splits)
  qed
  from declined_is_sticky [OF calls nr(1,2)] nr(3) show ?thesis by simp
qed

theorem resolve_violations_exact_witness:
  "(V_fixed \<noteq> V_open) \<and>
   snd (resolve_violations ''t'' [] ''deterministic'' 1 V_fixed sample_graph) = 1 \<and>
   filter (\<lambda>r. vr_status r = V_open)
     (ledger_records (fst (resolve_violations ''t'' [] ''deterministic'' 1 V_fixed sample_graph)) ''t'') = []"
proof -
  obtain g c where gc: "resolve_violations ''t'' [] ''deterministic'' 1 V_fixed sample_graph = (g, c)"
    by fastforce
  have "length (filter (\<lambda>r. vr_status r = V_open \<and> snd (vr_key r) \<notin> set []) (ledger_records sample_graph ''t'')) = 1"
    by code_simp
  then have "c = 1" "filter (\<lambda>r. vr_status r = V_open) (ledger_records g ''t'') = []"
    using resolve_violations_exact [OF gc, THEN conjunct2] by simp_all
  with gc show ?thesis by simp
qed

theorem apply_yaml_correct_witness:
  "snd (apply_yaml sample_lib ''t'' ''a: 2'' sample_graph) \<and>
   apply_yaml sample_lib ''t'' ''a: 2'' (fst (apply_yaml sample_lib ''t'' ''a: 2'' sample_graph)) =
     (fst (apply_yaml sample_lib ''t'' ''a: 2'' sample_graph), False)"
proof -
  obtain g b where gb: "apply_yaml sample_lib ''t'' ''a: 2'' sample_graph = (g, b)" by fastforce
  have "snd (apply_yaml sample_lib ''t'' ''a: 2'' sample_graph)" by code_simp
  with apply_yaml_correct [OF gb] gb show ?thesis by simp
qed


theorem approve_pending_exact_witness:
  "\<exists>n'. get_node (fst (approve_pending None (Some ''deterministic'') sample_graph)) ''t'' = Some n' \<and>
     map ns_approved (cn_progression n') = [True]"
proof -
  obtain g c where gc: "approve_pending None (Some ''deterministic'') sample_graph = (g, c)" by fastforce
  have "(case get_node sample_graph ''t'' of None \<Rightarrow> False | Some n \<Rightarrow>
      map ns_source (cn_progression n) = [[]])" by code_simp
  then obtain n s where n: "get_node sample_graph ''t'' = Some n" "cn_progression n = [s]" "ns_source s = []"
    by (auto split: option.splits)
  from approve_pending_exact [OF gc n(1)] n gc show ?thesis by auto
qed

theorem snapshot_ids_unique_witness:
  "ids_aligned (sample_node ''t'' NT_Task) \<and> length (cn_progression (sample_node ''t'' NT_Task)) < MAX_PROGRESSION \<and>
   ids_aligned (record_state sample_lib 0 ''scanned'' [] (sample_node ''t'' NT_Task))"
proof -
  have "ids_aligned (sample_node ''t'' NT_Task)" "length (cn_progression (sample_node ''t'' NT_Task)) < MAX_PROGRESSION"
    by (simp_all add: ids_aligned_def sample_node_def MAX_PROGRESSION_def)
  with snapshot_ids_unique [OF this, of sample_lib 0 "''scanned''" "[]" sample_lib 0] show ?thesis by blast
qed

definition full_node :: content_node where
  "full_node = (sample_node ''t'' NT_Task)
     \<lparr>cn_progression := replicate 20 (new_state sample_lib 0 ''scanned'' [] (sample_node ''t'' NT_Task))\<rparr>"

theorem snapshot_ids_collide_at_cap_witness:
  "length (cn_progression full_node) = MAX_PROGRESSION \<and>
   \<not> distinct (map ns_id (cn_progression
      (record_state sample_lib 2 ''scanned'' [] (record_state sample_lib 1 ''transformed'' [] full_node))))"
proof -
  have l: "length (cn_progression full_node) = MAX_PROGRESSION" by (simp add: full_node_def MAX_PROGRESSION_def)
  from snapshot_ids_collide_at_cap [OF l refl, THEN conjunct1] l show ?thesis by blast
qed

end
