(* ===== verification/Traversal.thy ===== *)
theory Traversal
  imports Content_Graph "HOL-Library.List_Lexorder" "HOL-Library.Char_ord"
begin

text \<open>
  The edge queries and traversals of \<open>ContentGraph\<close> (\<open>graph/content_graph.py\<close>).  The worklist
  loops of the source run over generic \<open>explore\<close> functions on an adjacency table, proved to
  compute reachability; each query instantiates them with the successor function of the code.
\<close>

section \<open>Edge queries\<close>

text \<open>
  \<open>MultiDiGraph\<close> reports the edges at a vertex grouped by neighbour, neighbours and parallel
  edges in insertion order.
\<close>

definition in_edges :: "content_graph \<Rightarrow> string \<Rightarrow> edge list" where
  "in_edges g nid =
     (let es = filter (\<lambda>(_, t, _). t = nid) (cg_edges g)
      in concat (map (\<lambda>s. filter (\<lambda>(s', _, _). s' = s) es) (nub (map fst es))))"

definition out_edges :: "content_graph \<Rightarrow> string \<Rightarrow> edge list" where
  "out_edges g nid =
     (let es = filter (\<lambda>(s, _, _). s = nid) (cg_edges g)
      in concat (map (\<lambda>t. filter (\<lambda>(_, t', _). t' = t) es) (nub (map (fst \<circ> snd) es))))"

abbreviation has_vertex :: "content_graph \<Rightarrow> string \<Rightarrow> bool" where
  "has_vertex g nid \<equiv> nid \<in> fst ` set (cg_nodes g)"

definition edges_from :: "content_graph \<Rightarrow> string \<Rightarrow> edge_type option \<Rightarrow> (string \<times> edge_attrs) list" where
  "edges_from g nid ty =
     (if \<not> has_vertex g nid then []
      else map snd (filter (\<lambda>(_, _, a). case ty of None \<Rightarrow> True | Some e \<Rightarrow> ea_type a = e) (out_edges g nid)))"

definition has_edge_from :: "content_graph \<Rightarrow> string \<Rightarrow> edge_type \<Rightarrow> bool" where
  "has_edge_from g nid ty =
     (if \<not> has_vertex g nid then False else list_ex (\<lambda>(_, _, a). ea_type a = ty) (out_edges g nid))"

definition edges_to :: "content_graph \<Rightarrow> string \<Rightarrow> edge_type option \<Rightarrow> (string \<times> edge_attrs) list" where
  "edges_to g nid ty =
     (if \<not> has_vertex g nid then []
      else map (\<lambda>(s, _, a). (s, a))
             (filter (\<lambda>(_, _, a). case ty of None \<Rightarrow> True | Some e \<Rightarrow> ea_type a = e) (in_edges g nid)))"

definition edge_count :: "content_graph \<Rightarrow> nat" where
  "edge_count g = length (cg_edges g)"

definition kind_in :: "content_graph \<Rightarrow> string \<Rightarrow> node_type list \<Rightarrow> bool" where
  "kind_in g nid kinds = (case get_node g nid of None \<Rightarrow> False | Some n \<Rightarrow> node_kind n \<in> set kinds)"

definition is_positional_edge :: "content_graph \<Rightarrow> string \<Rightarrow> string \<Rightarrow> edge_type \<Rightarrow> bool" where
  "is_positional_edge g src tgt ty =
     (if ty \<in> {ET_Contains, ET_Include, ET_Import} then True
      else if ty \<noteq> ET_Dependency then False
      else kind_in g src [NT_Play, NT_Role] \<and> kind_in g tgt [NT_Role])"

lemma set_in_edges [simp]: "set (in_edges g nid) = {e \<in> set (cg_edges g). fst (snd e) = nid}"
  by (auto simp: in_edges_def Let_def)

lemma set_out_edges [simp]: "set (out_edges g nid) = {e \<in> set (cg_edges g). fst e = nid}"
  by (auto simp: out_edges_def Let_def)

section \<open>Worklists\<close>

definition table :: "'n list \<Rightarrow> ('n \<Rightarrow> 'n list) \<Rightarrow> ('n \<times> 'n) list" where
  "table vs f = concat (map (\<lambda>v. map (Pair v) (f v)) vs)"

definition row :: "('n \<times> 'n) list \<Rightarrow> 'n \<Rightarrow> 'n list" where
  "row adj v = map snd (filter (\<lambda>p. fst p = v) adj)"

text \<open>
  The stack is a list with its top at the head.  \<open>explore\<close> marks a vertex when it pushes it;
  \<open>explore_pop\<close> when it pops it.
\<close>

fun push_new :: "'n list \<Rightarrow> 'n list \<Rightarrow> 'n list \<Rightarrow> 'n list \<times> 'n list" where
  "push_new [] seen stack = (seen, stack)"
| "push_new (x # xs) seen stack =
     (if x \<in> set seen then push_new xs seen stack else push_new xs (seen @ [x]) (x # stack))"

lemma set_push_new:
  "set (fst (push_new xs seen stack)) = set seen \<union> set xs"
  "set (snd (push_new xs seen stack)) = set stack \<union> (set xs - set seen)"
  by (induction xs arbitrary: seen stack) auto

lemma push_new_none: "set xs \<subseteq> set seen \<Longrightarrow> push_new xs seen stack = (seen, stack)"
  by (induction xs) auto

abbreviation vertices_of :: "('n \<times> 'n) list \<Rightarrow> 'n set" where
  "vertices_of adj \<equiv> snd ` set adj"

lemma set_row: "set (row adj v) = {w. (v, w) \<in> set adj}"
  by (auto simp: row_def image_iff)

function explore :: "('n \<times> 'n) list \<Rightarrow> 'n list \<Rightarrow> 'n list \<Rightarrow> 'n list" where
  "explore adj seen [] = seen"
| "explore adj seen (x # stack) =
     (let (seen', stack') = push_new (row adj x) seen stack in explore adj seen' stack')"
  by pat_completeness auto
termination
proof (relation "measures [\<lambda>(adj, seen, stack). card (vertices_of adj - set seen), \<lambda>(adj, seen, stack). length stack]",
    goal_cases)
  case (2 adj seen x stack p seen' stack')
  have p: "push_new (row adj x) seen stack = (seen', stack')" using 2 by simp
  show ?case
  proof (cases "set (row adj x) \<subseteq> set seen")
    case True
    then show ?thesis using p push_new_none [of "row adj x" seen stack] by simp
  next
    case False
    then obtain y where "y \<in> set (row adj x)" "y \<notin> set seen" by blast
    moreover have "set seen' = set seen \<union> set (row adj x)"
      using set_push_new(1) [of "row adj x" seen stack] p by simp
    ultimately have "vertices_of adj - set seen' \<subset> vertices_of adj - set seen"
      by (force simp: set_row)
    then have "card (vertices_of adj - set seen') < card (vertices_of adj - set seen)"
      by (intro psubset_card_mono) auto
    then show ?thesis by simp
  qed
qed simp

function explore_pop :: "('n \<times> 'n) list \<Rightarrow> 'n list \<Rightarrow> 'n list \<Rightarrow> 'n list" where
  "explore_pop adj seen [] = seen"
| "explore_pop adj seen (x # stack) =
     (if x \<in> set seen then explore_pop adj seen stack
      else explore_pop adj (seen @ [x]) (rev (row adj x) @ stack))"
  by pat_completeness auto
termination
proof (relation "measures [\<lambda>(adj, seen, stack). card (fst ` set adj - set seen), \<lambda>(adj, seen, stack). length stack]",
    goal_cases)
  case (3 adj seen x stack)
  show ?case
  proof (cases "x \<in> fst ` set adj")
    case True
    then have "fst ` set adj - set (seen @ [x]) \<subset> fst ` set adj - set seen" using 3 by auto
    then have "card (fst ` set adj - set (seen @ [x])) < card (fst ` set adj - set seen)"
      by (intro psubset_card_mono) auto
    then show ?thesis by simp
  next
    case False
    then have "row adj x = []" by (auto simp: row_def filter_empty_conv)
    moreover have "fst ` set adj - set (seen @ [x]) = fst ` set adj - set seen" using False by auto
    ultimately show ?thesis by simp
  qed
qed simp_all

lemma closed_trancl:
  assumes "\<And>v. v \<in> insert n S \<Longrightarrow> {w. (v, w) \<in> E} \<subseteq> S" and "(n, m) \<in> E\<^sup>+"
  shows "m \<in> S"
  using assms(2) by (induction rule: trancl_induct) (use assms(1) in auto)

lemma explore_reaches:
  assumes "set stack \<subseteq> insert n (set seen)" and "set seen \<subseteq> {m. (n, m) \<in> (set adj)\<^sup>+}"
    and "\<And>v. v \<in> insert n (set seen) - set stack \<Longrightarrow> set (row adj v) \<subseteq> set seen"
  shows "set (explore adj seen stack) = {m. (n, m) \<in> (set adj)\<^sup>+}"
  using assms
proof (induction adj seen stack rule: explore.induct)
  case (1 adj seen)
  then show ?case using closed_trancl [of n "set seen" "set adj"] by (auto simp: set_row)
next
  case (2 adj seen x stack)
  obtain seen' stack' where p: "push_new (row adj x) seen stack = (seen', stack')" by fastforce
  have s: "set seen' = set seen \<union> set (row adj x)" "set stack' = set stack \<union> (set (row adj x) - set seen)"
    using set_push_new [of "row adj x" seen stack] p by auto
  have x: "x = n \<or> (n, x) \<in> (set adj)\<^sup>+" using 2(2,3) by auto
  have "set (explore adj seen' stack') = {m. (n, m) \<in> (set adj)\<^sup>+}"
  proof (rule "2.IH" [OF p [symmetric] refl])
    show "set seen' \<subseteq> {m. (n, m) \<in> (set adj)\<^sup>+}"
      using 2(3) x by (auto simp: s set_row intro: trancl_into_trancl)
    show "set (row adj v) \<subseteq> set seen'" if "v \<in> insert n (set seen') - set stack'" for v
      using that 2(4) [of v] by (cases "v = x") (auto simp: s)
  qed (use 2(2) in \<open>auto simp: s\<close>)
  then show ?case using p by simp
qed

lemma explore_pop_reaches:
  assumes "set seen \<union> set stack \<subseteq> {m. (n, m) \<in> (set adj)\<^sup>*}" and "n \<in> set seen \<union> set stack"
    and "\<And>v. v \<in> set seen \<Longrightarrow> set (row adj v) \<subseteq> set seen \<union> set stack"
  shows "set (explore_pop adj seen stack) = {m. (n, m) \<in> (set adj)\<^sup>*}"
  using assms
proof (induction adj seen stack rule: explore_pop.induct)
  case (1 adj seen)
  have "m \<in> set seen" if "(n, m) \<in> (set adj)\<^sup>*" for m
    using that by (induction rule: rtrancl_induct) (use 1 in \<open>auto simp: set_row\<close>)
  with 1 show ?case by auto
next
  case (2 adj seen x stack)
  show ?case
  proof (cases "x \<in> set seen")
    case True
    have "set (explore_pop adj seen stack) = {m. (n, m) \<in> (set adj)\<^sup>*}"
      by (rule "2.IH"(1) [OF True]) (use 2(3-) True in auto)
    with True show ?thesis by simp
  next
    case False
    have "set (explore_pop adj (seen @ [x]) (rev (row adj x) @ stack)) = {m. (n, m) \<in> (set adj)\<^sup>*}"
    proof (rule "2.IH"(2) [OF False])
      show "set (seen @ [x]) \<union> set (rev (row adj x) @ stack) \<subseteq> {m. (n, m) \<in> (set adj)\<^sup>*}"
        using 2(3) by (auto simp: set_row intro: rtrancl_into_rtrancl)
      show "set (row adj v) \<subseteq> set (seen @ [x]) \<union> set (rev (row adj x) @ stack)" if "v \<in> set (seen @ [x])" for v
        using that 2(5) [of v] by auto
    qed (use 2(4) in auto)
    with False show ?thesis by simp
  qed
qed

lemma set_table: "set (table vs f) = {(v, w). v \<in> set vs \<and> w \<in> set (f v)}"
  by (auto simp: table_def)

section \<open>Queries\<close>

abbreviation vertices :: "content_graph \<Rightarrow> string list" where
  "vertices g \<equiv> map fst (cg_nodes g)"

definition positional_parents :: "content_graph \<Rightarrow> string \<Rightarrow> string list" where
  "positional_parents g nid =
     map fst (filter (\<lambda>(src, _, a). is_positional_edge g src nid (ea_type a)) (in_edges g nid))"

definition positional_ancestor_ids :: "content_graph \<Rightarrow> string \<Rightarrow> string list" where
  "positional_ancestor_ids g nid = explore (table (vertices g) (positional_parents g)) [] [nid]"

definition contained :: "content_graph \<Rightarrow> string \<Rightarrow> string list" where
  "contained g nid = map fst (edges_from g nid (Some ET_Contains))"

definition structural_descendants :: "content_graph \<Rightarrow> string \<Rightarrow> string list" where
  "structural_descendants g nid =
     (if \<not> has_vertex g nid then [] else explore (table (vertices g) (contained g)) [] [nid])"

definition play_scope_targets :: "content_graph \<Rightarrow> string \<Rightarrow> string list" where
  "play_scope_targets g current =
     concat (map (\<lambda>ty. map fst (edges_from g current (Some ty))) [ET_Contains, ET_Include, ET_Import]) @
     (if kind_in g current [NT_Play, NT_Role]
      then filter (\<lambda>tgt. kind_in g tgt [NT_Role]) (map fst (edges_from g current (Some ET_Dependency)))
      else [])"

definition play_scoped_node_ids :: "content_graph \<Rightarrow> string \<Rightarrow> string list" where
  "play_scoped_node_ids g play_id = explore_pop (table (vertices g) (play_scope_targets g)) [] [play_id]"

definition children :: "content_graph \<Rightarrow> string \<Rightarrow> content_node list" where
  "children g nid =
     sort_key cn_line_start
       (concat (map (\<lambda>t. case get_node g t of None \<Rightarrow> [] | Some n \<Rightarrow> [n]) (contained g nid)))"

text \<open>The single-parent walks; every step visits a new source of an edge, so they end.\<close>

definition contains_parents :: "content_graph \<Rightarrow> string \<Rightarrow> string list" where
  "contains_parents g nid = map fst (filter (\<lambda>(_, _, a). ea_type a = ET_Contains) (in_edges g nid))"

definition scoped_parents :: "content_graph \<Rightarrow> string list option \<Rightarrow> string \<Rightarrow> string list" where
  "scoped_parents g scope nid =
     (let ps = sort (positional_parents g nid)
      in case scope of None \<Rightarrow> ps | Some s \<Rightarrow> filter (\<lambda>q. q \<in> set s) ps)"

lemma parents_are_sources:
  "set (contains_parents g nid) \<subseteq> fst ` set (cg_edges g)"
  "set (positional_parents g nid) \<subseteq> fst ` set (cg_edges g)"
  "set (scoped_parents g scope nid) \<subseteq> set (positional_parents g nid)"
  by (auto simp: contains_parents_def positional_parents_def scoped_parents_def Let_def split: option.splits)

lemma visit_decreases:
  assumes "q \<in> fst ` set es" and "q \<notin> set visited"
  shows "card (fst ` set es - set (q # visited)) < card (fst ` set es - set visited)"
  using assms by (intro psubset_card_mono) auto

function contains_walk :: "content_graph \<Rightarrow> string list \<Rightarrow> string \<Rightarrow> string list" where
  "contains_walk g visited current =
     (case contains_parents g current of
        [] \<Rightarrow> []
      | q # _ \<Rightarrow> (if q \<in> set visited then [] else q # contains_walk g (q # visited) q))"
  by pat_completeness auto
termination
proof (relation "measure (\<lambda>(g, visited, current). card (fst ` set (cg_edges g) - set visited))", goal_cases)
  case (2 g visited current q qs)
  then have "q \<in> fst ` set (cg_edges g)" using parents_are_sources(1) [of g current] by auto
  then show ?case using visit_decreases [of q "cg_edges g" visited] 2 by simp
qed simp

function positional_walk :: "content_graph \<Rightarrow> string list option \<Rightarrow> string list \<Rightarrow> string \<Rightarrow> string list" where
  "positional_walk g scope visited current =
     (case scoped_parents g scope current of
        [] \<Rightarrow> []
      | q # _ \<Rightarrow> (if q \<in> set visited then [] else q # positional_walk g scope (q # visited) q))"
  by pat_completeness auto
termination
proof (relation "measure (\<lambda>(g, scope, visited, current). card (fst ` set (cg_edges g) - set visited))", goal_cases)
  case (2 g scope visited current q qs)
  then have "q \<in> fst ` set (cg_edges g)"
    using parents_are_sources(2) [of g current] parents_are_sources(3) [of g scope current] by auto
  then show ?case using visit_decreases [of q "cg_edges g" visited] 2 by simp
qed simp

declare contains_walk.simps [simp del] and positional_walk.simps [simp del]

definition payloads :: "content_graph \<Rightarrow> string list \<Rightarrow> content_node list" where
  "payloads g ids = concat (map (\<lambda>i. case get_node g i of None \<Rightarrow> [] | Some n \<Rightarrow> [n]) ids)"

definition ancestors :: "content_graph \<Rightarrow> string \<Rightarrow> content_node list" where
  "ancestors g nid = payloads g (contains_walk g [] nid)"

definition positional_ancestors ::
  "content_graph \<Rightarrow> string \<Rightarrow> string option \<Rightarrow> string list option \<Rightarrow> content_node list" where
  "positional_ancestors g nid play_context_id play_scope =
     (let scope = (case (play_scope, play_context_id) of
                     (None, Some pid) \<Rightarrow> Some (play_scoped_node_ids g pid)
                   | _ \<Rightarrow> play_scope)
      in payloads g (positional_walk g scope [] nid))"

text \<open>\<open>play_scoped_positional_ancestors\<close>: level by level, each level sorted and without duplicates.\<close>

fun scan_level :: "content_graph \<Rightarrow> string list \<Rightarrow> string list \<Rightarrow> string list \<Rightarrow> string list \<times> string list" where
  "scan_level g scope [] seen = (seen, [])"
| "scan_level g scope (q # qs) seen =
     (if q \<in> set seen then scan_level g scope qs seen
      else (let seen' = seen @ [q];
                above = filter (\<lambda>s. s \<in> set scope \<and> s \<notin> set seen') (positional_parents g q);
                (seen'', nxt) = scan_level g scope qs seen'
            in (seen'', above @ nxt)))"

lemma scan_level_seen:
  "set (fst (scan_level g scope qs seen)) = set seen \<union> set qs"
  "set (snd (scan_level g scope qs seen)) \<subseteq> fst ` set (cg_edges g)"
proof (induction qs arbitrary: seen)
  case (Cons q qs)
  { case 1 show ?case using Cons(1) by (auto simp: Let_def case_prod_unfold) }
  { case 2 show ?case using Cons(2) parents_are_sources(2) [of g q]
      by (auto simp: Let_def case_prod_unfold) }
qed simp_all

lemma scan_level_none: "set qs \<subseteq> set seen \<Longrightarrow> scan_level g scope qs seen = (seen, [])"
  by (induction qs) auto

function level_walk :: "content_graph \<Rightarrow> string list \<Rightarrow> string list \<Rightarrow> string list \<Rightarrow> string list" where
  "level_walk g scope [] seen = seen"
| "level_walk g scope (q # qs) seen =
     (let (seen', nxt) = scan_level g scope (q # qs) seen
      in level_walk g scope (sort (nub nxt)) seen')"
  by pat_completeness auto
termination
proof (relation "measures [\<lambda>(g, scope, level, seen). card (fst ` set (cg_edges g) \<union> set level - set seen),
    \<lambda>(g, scope, level, seen). length level]", goal_cases)
  case (2 g scope q qs seen p seen' nxt)
  have p: "scan_level g scope (q # qs) seen = (seen', nxt)" using 2 by simp
  show ?case
  proof (cases "set (q # qs) \<subseteq> set seen")
    case True
    then have "seen' = seen" "nxt = []" using p scan_level_none [of "q # qs" seen g scope] by auto
    moreover have "card (fst ` set (cg_edges g) \<union> set [] - set seen) =
        card (fst ` set (cg_edges g) \<union> set (q # qs) - set seen)"
      using True by (intro arg_cong [where f = card]) auto
    ultimately show ?thesis by simp
  next
    case False
    then obtain y where "y \<in> set (q # qs)" "y \<notin> set seen" by blast
    moreover have "set seen' = set seen \<union> set (q # qs)" "set nxt \<subseteq> fst ` set (cg_edges g)"
      using scan_level_seen [where g = g and scope = scope and qs = "q # qs" and seen = seen] p by auto
    ultimately have "fst ` set (cg_edges g) \<union> set nxt - set seen' \<subset> fst ` set (cg_edges g) \<union> set (q # qs) - set seen"
      by auto
    then have "card (fst ` set (cg_edges g) \<union> set nxt - set seen') <
        card (fst ` set (cg_edges g) \<union> set (q # qs) - set seen)"
      by (intro psubset_card_mono) auto
    then show ?thesis by simp
  qed
qed simp

definition play_scoped_positional_ancestors :: "content_graph \<Rightarrow> string \<Rightarrow> string list \<Rightarrow> content_node list" where
  "play_scoped_positional_ancestors g nid play_scope =
     payloads g (level_walk g play_scope
       (sort (filter (\<lambda>s. s \<in> set play_scope) (positional_parents g nid))) [])"

section \<open>The traversals compute reachability\<close>

definition graph_closed :: "content_graph \<Rightarrow> bool" where
  "graph_closed g \<longleftrightarrow> list_all (\<lambda>(s, t, _). has_vertex g s \<and> has_vertex g t) (cg_edges g)"

definition positional :: "content_graph \<Rightarrow> (string \<times> string) set" where
  "positional g = {(s, t). \<exists>a. (s, t, a) \<in> set (cg_edges g) \<and> is_positional_edge g s t (ea_type a)}"

definition containment :: "content_graph \<Rightarrow> (string \<times> string) set" where
  "containment g = {(s, t). \<exists>a. (s, t, a) \<in> set (cg_edges g) \<and> ea_type a = ET_Contains}"

lemma graph_closed_add_edge: "graph_closed g \<Longrightarrow> graph_closed (add_edge s t a g)"
proof -
  have v: "fst ` set (cg_nodes (ensure_vertex x g)) = insert x (fst ` set (cg_nodes g))" for x g
    by (auto simp: ensure_vertex_def dom_map_of_conv_image_fst [symmetric] update_conv' split: option.splits)
  have e: "cg_edges (ensure_vertex x g) = cg_edges g" for x g
    by (simp add: ensure_vertex_def split: option.splits)
  show "graph_closed g \<Longrightarrow> graph_closed (add_edge s t a g)"
    by (auto simp: graph_closed_def add_edge_def Let_def list_all_iff v e)
qed

lemma set_positional_parents: "set (positional_parents g t) = {s. (s, t) \<in> positional g}"
  by (force simp: positional_parents_def positional_def)

lemma set_edges_from:
  "has_vertex g s \<Longrightarrow> fst ` set (edges_from g s (Some ty)) = {t. \<exists>a. (s, t, a) \<in> set (cg_edges g) \<and> ea_type a = ty}"
  by (force simp: edges_from_def)

lemma positional_table:
  assumes "graph_closed g"
  shows "set (table (vertices g) (positional_parents g)) = (positional g)\<inverse>"
  using assms unfolding set_table set_positional_parents
  by (fastforce simp: graph_closed_def list_all_iff positional_def)

lemma contained_table:
  assumes "graph_closed g"
  shows "set (table (vertices g) (contained g)) = containment g"
proof -
  have "(v, w) \<in> set (table (vertices g) (contained g)) \<longleftrightarrow> (v, w) \<in> containment g" for v w
  proof (cases "has_vertex g v")
    case True
    then show ?thesis
      using set_edges_from [OF True, of ET_Contains] by (auto simp: set_table contained_def containment_def)
  next
    case False
    then show ?thesis using assms by (auto simp: set_table graph_closed_def list_all_iff containment_def)
  qed
  then show ?thesis by auto
qed

lemma set_play_scope_targets:
  assumes "has_vertex g s"
  shows "set (play_scope_targets g s) = {t. (s, t) \<in> positional g}"
proof -
  have "t \<in> set (play_scope_targets g s) \<longleftrightarrow> (s, t) \<in> positional g" for t
    using set_edges_from [OF assms]
    by (auto simp: play_scope_targets_def positional_def is_positional_edge_def split: if_splits)
  then show ?thesis by blast
qed

lemma play_scope_table:
  assumes "graph_closed g"
  shows "set (table (vertices g) (play_scope_targets g)) = positional g"
proof -
  have "(v, w) \<in> set (table (vertices g) (play_scope_targets g)) \<longleftrightarrow> (v, w) \<in> positional g" for v w
  proof (cases "has_vertex g v")
    case True
    then show ?thesis using set_play_scope_targets [OF True] by (auto simp: set_table)
  next
    case False
    then show ?thesis using assms by (auto simp: set_table graph_closed_def list_all_iff positional_def)
  qed
  then show ?thesis by auto
qed

lemma set_positional_ancestor_ids:
  "graph_closed g \<Longrightarrow> set (positional_ancestor_ids g nid) = {a. (a, nid) \<in> (positional g)\<^sup>+}"
  unfolding positional_ancestor_ids_def
  by (subst explore_reaches [where n = nid]) (auto simp: positional_table trancl_converse)

lemma set_play_scoped_node_ids:
  "graph_closed g \<Longrightarrow> set (play_scoped_node_ids g p) = {d. (p, d) \<in> (positional g)\<^sup>*}"
  unfolding play_scoped_node_ids_def
  by (subst explore_pop_reaches [where n = p]) (auto simp: play_scope_table)

text \<open>
  C24. The worklist traversals are exact: the positional ancestors are the nodes from which the
  node can be reached over positional edges, the structural descendants those reachable over
  containment, the play scope everything reachable from the play, and the two directions
  agree: a node lies in the scope of a play iff it is the play or has the play among its
  positional ancestors.
\<close>

theorem traversals_exact:
  assumes "graph_closed g" and "has_vertex g nid"
  shows "set (positional_ancestor_ids g nid) = {a. (a, nid) \<in> (positional g)\<^sup>+} \<and>
    set (structural_descendants g nid) = {d. (nid, d) \<in> (containment g)\<^sup>+} \<and>
    set (play_scoped_node_ids g p) = {d. (p, d) \<in> (positional g)\<^sup>*} \<and>
    (nid \<in> set (play_scoped_node_ids g p) \<longleftrightarrow> nid = p \<or> p \<in> set (positional_ancestor_ids g nid))"
proof (intro conjI)
  show "set (structural_descendants g nid) = {d. (nid, d) \<in> (containment g)\<^sup>+}"
    using assms explore_reaches [of "[nid]" nid "[]" "table (vertices g) (contained g)"]
    unfolding structural_descendants_def by (simp add: contained_table del: explore.simps)
  show "nid \<in> set (play_scoped_node_ids g p) \<longleftrightarrow> nid = p \<or> p \<in> set (positional_ancestor_ids g nid)"
    using assms(1) by (auto simp: set_positional_ancestor_ids set_play_scoped_node_ids rtrancl_eq_or_trancl)
qed (simp_all add: assms set_positional_ancestor_ids set_play_scoped_node_ids)

text \<open>The single-parent walks stay inside the positional ancestors.\<close>

lemma hd_scoped_parents:
  assumes "scoped_parents g scope c = q # qs"
  shows "(q, c) \<in> positional g" and "\<And>s. scope = Some s \<Longrightarrow> q \<in> set s"
proof -
  have "q \<in> set (positional_parents g c)" using parents_are_sources(3) [of g scope c] assms by auto
  then show "(q, c) \<in> positional g" by (simp add: set_positional_parents)
  show "q \<in> set s" if "scope = Some s" for s
  proof -
    have "q \<in> set (scoped_parents g scope c)" using assms by simp
    then show ?thesis using that by (simp add: scoped_parents_def Let_def)
  qed
qed

lemma positional_walk_props:
  "(\<forall>a\<in>set (positional_walk g scope visited c). (a, c) \<in> (positional g)\<^sup>+ \<and> a \<notin> set visited \<and>
      (\<forall>s. scope = Some s \<longrightarrow> a \<in> set s)) \<and> distinct (positional_walk g scope visited c)"
proof (induction g scope visited c rule: positional_walk.induct)
  case (1 g scope visited c)
  show ?case
  proof (cases "scoped_parents g scope c")
    case (Cons q qs)
    note q = hd_scoped_parents [OF Cons]
    show ?thesis
    proof (cases "q \<in> set visited")
      case False
      have "(a, c) \<in> (positional g)\<^sup>+" if "(a, q) \<in> (positional g)\<^sup>+" for a
        using that q(1) by (meson r_into_trancl' trancl_trans)
      then show ?thesis
        using 1 [OF Cons False] q False Cons by (subst (1 2) positional_walk.simps) (auto simp del: positional_walk.simps)
    qed (use Cons in \<open>simp add: positional_walk.simps [of g scope visited c]\<close>)
  qed (simp add: positional_walk.simps)
qed

lemma set_payloads: "n \<in> set (payloads g ids) \<longleftrightarrow> (\<exists>i\<in>set ids. get_node g i = Some n)"
  by (auto simp: payloads_def split: option.splits) (force split: option.splits)+

lemma node_ids_payloads:
  "(\<And>i n. get_node g i = Some n \<Longrightarrow> node_id n = i) \<Longrightarrow>
     map node_id (payloads g ids) = filter (\<lambda>i. get_node g i \<noteq> None) ids"
  by (induction ids) (auto simp: payloads_def split: option.splits)

text \<open>
  The ancestor chain of a node within a play is sound: every node of it is a positional
  ancestor of the node, lies in the scope of the play, and appears once.
\<close>

theorem positional_ancestors_in_scope:
  assumes "graph_closed g" and "\<And>i n. get_node g i = Some n \<Longrightarrow> node_id n = i"
  shows "list_all (\<lambda>n. node_id n \<in> set (positional_ancestor_ids g nid) \<and>
             node_id n \<in> set (play_scoped_node_ids g p)) (positional_ancestors g nid (Some p) None) \<and>
         distinct (map node_id (positional_ancestors g nid (Some p) None))"
proof -
  let ?walk = "positional_walk g (Some (play_scoped_node_ids g p)) [] nid"
  have pa: "positional_ancestors g nid (Some p) None = payloads g ?walk"
    by (simp add: positional_ancestors_def)
  have "node_id n \<in> set ?walk" if "n \<in> set (payloads g ?walk)" for n
    using that assms(2) by (auto simp: set_payloads)
  then show ?thesis
    using positional_walk_props [of g "Some (play_scoped_node_ids g p)" "[]" nid] assms(1)
    by (auto simp: pa list_all_iff set_positional_ancestor_ids node_ids_payloads [OF assms(2)])
qed

definition contains_edge :: edge_attrs where
  "contains_edge =
     \<lparr>ea_type = ET_Contains, ea_conditional = False, ea_dynamic = False, ea_position = 0, ea_when = [], ea_tags = []\<rparr>"

definition play_graph :: content_graph where
  "play_graph =
     add_edge ''p'' ''t'' contains_edge
       (add_node (sample_node ''t'' NT_Task) (add_node (sample_node ''p'' NT_Play) empty_graph))"

theorem traversals_exact_witness:
  "graph_closed play_graph \<and> has_vertex play_graph ''t'' \<and>
   ''t'' \<in> set (play_scoped_node_ids play_graph ''p'') \<and> ''p'' \<in> set (positional_ancestor_ids play_graph ''t'')"
proof -
  have g: "graph_closed play_graph" "has_vertex play_graph ''t''"
    "''p'' \<in> set (positional_ancestor_ids play_graph ''t'')" by code_simp+
  with traversals_exact [OF g(1,2), of "''p''"] show ?thesis by blast
qed

theorem positional_ancestors_in_scope_witness:
  "graph_closed play_graph \<and> map node_id (positional_ancestors play_graph ''t'' (Some ''p'') None) = [''p''] \<and>
   ''p'' \<in> set (play_scoped_node_ids play_graph ''p'')"
proof -
  have g: "graph_closed play_graph" "map node_id (positional_ancestors play_graph ''t'' (Some ''p'') None) = [''p'']"
    by code_simp+
  have "node_id n = i" if "get_node play_graph i = Some n" for i n
    using that by (auto simp: play_graph_def graph_simps sample_node_def split: if_splits)
  from positional_ancestors_in_scope [OF g(1) this, where nid = "''t''" and p = "''p''"] g show ?thesis
    by (auto simp: list_all_iff map_eq_Cons_conv)
qed

end
