(* ===== verification/Severity.thy ===== *)
theory Severity
  imports Prelude
begin

text \<open>
  \<open>graph/severity.py\<close>: the severity levels, the table of default severities per rule, and the
  conversions to labels and wire values.
\<close>

section \<open>Levels\<close>

datatype severity = Sev_unspecified | Sev_info | Sev_low | Sev_medium | Sev_high | Sev_error | Sev_critical

fun severity_int :: "severity \<Rightarrow> int" where
  "severity_int Sev_unspecified = 0"
| "severity_int Sev_info = 1"
| "severity_int Sev_low = 2"
| "severity_int Sev_medium = 3"
| "severity_int Sev_high = 4"
| "severity_int Sev_error = 5"
| "severity_int Sev_critical = 6"

text \<open>\<open>Severity\<close> is an \<open>IntEnum\<close>: levels compare by their numbers.\<close>

instantiation severity :: linorder
begin

definition less_eq_severity :: "severity \<Rightarrow> severity \<Rightarrow> bool" where
  "less_eq_severity a b \<longleftrightarrow> severity_int a \<le> severity_int b"

definition less_severity :: "severity \<Rightarrow> severity \<Rightarrow> bool" where
  "less_severity a b \<longleftrightarrow> severity_int a < severity_int b"

lemma severity_int_inject: "severity_int a = severity_int b \<longleftrightarrow> a = b"
  by (cases a; cases b) simp_all

instance
  by intro_classes (auto simp: less_eq_severity_def less_severity_def severity_int_inject)

end

section \<open>The table\<close>

definition severity_defaults_head :: "(string, severity) dict" where
  "severity_defaults_head =
     [(''L050'', Sev_low), (''L026'', Sev_low), (''L027'', Sev_low), (''L032'', Sev_low),
      (''L033'', Sev_low), (''L034'', Sev_low), (''L035'', Sev_low), (''L036'', Sev_low),
      (''L041'', Sev_low), (''L043'', Sev_low), (''L044'', Sev_low), (''L046'', Sev_low),
      (''L048'', Sev_low), (''L049'', Sev_low), (''L051'', Sev_low), (''L052'', Sev_low),
      (''L053'', Sev_low), (''L054'', Sev_low), (''L055'', Sev_low), (''L074'', Sev_low),
      (''L075'', Sev_low), (''L076'', Sev_low), (''L077'', Sev_low), (''L078'', Sev_low),
      (''L079'', Sev_low), (''L080'', Sev_low), (''L081'', Sev_low), (''L082'', Sev_low),
      (''L083'', Sev_low), (''L084'', Sev_low), (''L085'', Sev_low), (''L086'', Sev_low),
      (''L087'', Sev_low), (''L088'', Sev_low), (''L089'', Sev_low), (''L090'', Sev_low),
      (''L091'', Sev_low), (''L092'', Sev_low), (''L093'', Sev_low), (''L094'', Sev_low),
      (''L097'', Sev_low), (''L103'', Sev_low), (''L104'', Sev_low), (''L105'', Sev_low),
      (''L111'', Sev_low), (''L112'', Sev_low), (''L113'', Sev_low), (''L114'', Sev_low),
      (''M019'', Sev_low), (''M020'', Sev_low), (''M027'', Sev_low), (''M048'', Sev_low),
      (''L040'', Sev_info), (''L042'', Sev_info), (''L056'', Sev_info), (''L060'', Sev_info),
      (''L073'', Sev_low), (''L099'', Sev_info), (''R117'', Sev_info), (''R401'', Sev_info),
      (''R402'', Sev_info), (''R404'', Sev_info), (''R501'', Sev_info), (''L037'', Sev_medium),
      (''L038'', Sev_medium), (''L039'', Sev_medium), (''L106'', Sev_medium),
      (''L100'', Sev_medium), (''L101'', Sev_medium), (''L102'', Sev_medium),
      (''M014'', Sev_medium), (''M015'', Sev_medium), (''M022'', Sev_medium),
      (''M026'', Sev_medium), (''M029'', Sev_medium), (''M030'', Sev_medium),
      (''M031'', Sev_medium), (''M047'', Sev_medium), (''R101'', Sev_medium),
      (''R103'', Sev_medium)]"

definition severity_defaults_tail :: "(string, severity) dict" where
  "severity_defaults_tail =
     [(''R104'', Sev_medium), (''R105'', Sev_medium), (''R106'', Sev_medium),
      (''R107'', Sev_medium), (''R108'', Sev_medium), (''R109'', Sev_medium),
      (''R111'', Sev_medium), (''R112'', Sev_medium), (''R113'', Sev_medium),
      (''R114'', Sev_medium), (''R115'', Sev_medium), (''L031'', Sev_high), (''L047'', Sev_high),
      (''L110'', Sev_high), (''L095'', Sev_error), (''L096'', Sev_high), (''L098'', Sev_error),
      (''M005'', Sev_high), (''M010'', Sev_high), (''L045'', Sev_low), (''L003'', Sev_low),
      (''L004'', Sev_high), (''L005'', Sev_low), (''L006'', Sev_low), (''L007'', Sev_low),
      (''L008'', Sev_low), (''L009'', Sev_medium), (''L010'', Sev_medium), (''L011'', Sev_low),
      (''L012'', Sev_low), (''L013'', Sev_medium), (''L014'', Sev_low), (''L015'', Sev_low),
      (''L016'', Sev_info), (''L017'', Sev_low), (''L018'', Sev_high), (''L019'', Sev_low),
      (''L020'', Sev_high), (''L021'', Sev_low), (''L022'', Sev_low), (''L023'', Sev_info),
      (''L024'', Sev_low), (''L025'', Sev_low), (''L061'', Sev_low), (''L062'', Sev_low),
      (''L063'', Sev_low), (''L064'', Sev_low), (''L065'', Sev_low), (''L066'', Sev_low),
      (''L067'', Sev_info), (''L068'', Sev_info), (''L069'', Sev_info), (''L070'', Sev_info),
      (''L071'', Sev_info), (''L072'', Sev_info), (''M006'', Sev_high), (''M008'', Sev_high),
      (''M009'', Sev_high), (''M011'', Sev_high), (''M016'', Sev_high), (''M017'', Sev_high),
      (''M018'', Sev_high), (''M021'', Sev_high), (''M023'', Sev_high), (''M024'', Sev_high),
      (''M025'', Sev_high), (''M028'', Sev_high), (''R118'', Sev_info), (''L057'', Sev_error),
      (''L058'', Sev_error), (''L059'', Sev_error), (''M001'', Sev_high), (''M002'', Sev_high),
      (''M003'', Sev_high), (''M004'', Sev_error), (''P001'', Sev_error), (''P002'', Sev_error),
      (''P003'', Sev_error), (''P004'', Sev_error), (''R901'', Sev_error), (''R902'', Sev_error),
      (''A001'', Sev_medium), (''A002'', Sev_high)]"

definition SEVERITY_DEFAULTS :: "(string, severity) dict" where
  "SEVERITY_DEFAULTS = severity_defaults_head @ severity_defaults_tail"

definition get_severity :: "string \<Rightarrow> severity" where
  "get_severity rule_id =
     (if startswith ''SEC:'' rule_id then Sev_critical
      else case dict_get SEVERITY_DEFAULTS rule_id of Some s \<Rightarrow> s | None \<Rightarrow> Sev_medium)"

section \<open>Conversions\<close>

definition PROTO_TO_SEVERITY :: "(int, severity) dict" where
  "PROTO_TO_SEVERITY =
     [(0, Sev_unspecified), (1, Sev_info), (2, Sev_low), (3, Sev_medium), (4, Sev_high),
      (5, Sev_error), (6, Sev_critical)]"

definition SEVERITY_LABELS :: "(severity, string) dict" where
  "SEVERITY_LABELS =
     [(Sev_unspecified, ''unspecified''), (Sev_info, ''info''), (Sev_low, ''low''),
      (Sev_medium, ''medium''), (Sev_high, ''high''), (Sev_error, ''error''),
      (Sev_critical, ''critical'')]"

definition LABEL_TO_SEVERITY :: "(string, severity) dict" where
  "LABEL_TO_SEVERITY = map (\<lambda>(k, v). (v, k)) SEVERITY_LABELS"

definition severity_from_label :: "string \<Rightarrow> severity" where
  "severity_from_label label =
     (case dict_get LABEL_TO_SEVERITY (lower label) of Some s \<Rightarrow> s | None \<Rightarrow> Sev_medium)"

definition severity_to_label :: "severity \<Rightarrow> string" where
  "severity_to_label sev = (case dict_get SEVERITY_LABELS sev of Some l \<Rightarrow> l | None \<Rightarrow> ''medium'')"

definition severity_from_proto :: "int \<Rightarrow> severity" where
  "severity_from_proto v = (case dict_get PROTO_TO_SEVERITY v of Some s \<Rightarrow> s | None \<Rightarrow> Sev_medium)"

definition severity_to_proto :: "severity \<Rightarrow> int" where
  "severity_to_proto sev = severity_int sev"

section \<open>Properties\<close>

text \<open>
  Severities survive the wire: converting to a label or a wire value and back is the
  identity, whatever the case of the label; the wire values keep the order of the levels; no
  rule of the table defaults to the unset level, and every secret finding is critical.
\<close>

theorem severity_roundtrip:
  "severity_from_label (severity_to_label s) = s \<and> severity_from_label (upper (severity_to_label s)) = s \<and>
   severity_from_proto (severity_to_proto s) = s \<and> (s < t \<longleftrightarrow> severity_to_proto s < severity_to_proto t) \<and>
   get_severity rid \<noteq> Sev_unspecified \<and> get_severity (''SEC:'' @ rid) = Sev_critical"
proof (intro conjI)
  have "list_all (\<lambda>(_, s). s \<noteq> Sev_unspecified) SEVERITY_DEFAULTS" by code_simp
  then show "get_severity rid \<noteq> Sev_unspecified"
    by (auto simp: get_severity_def list_all_iff split: option.splits dest!: map_of_SomeD)
  show "severity_from_label (severity_to_label s) = s" by (cases s; simp; code_simp)
  show "severity_from_label (upper (severity_to_label s)) = s" by (cases s; simp; code_simp)
  show "severity_from_proto (severity_to_proto s) = s" by (cases s; simp; code_simp)
qed (simp_all add: severity_to_proto_def less_severity_def get_severity_def startswith_def)

end
