(* ===== verification/Scanner.thy ===== *)
theory Scanner
  imports Traversal Severity
begin

text \<open>
  \<open>graph/scanner.py\<close>: rule loading, inline \<open>noqa\<close> suppression, the full scan, the dirty rescan
  with its expansion to aggregate nodes, and the conversion of a report into violations.  The
  bodies of the graph rules are a parameter: a rule is its metadata with an evaluation function
  over the graph, which may match or not, return a result, or raise; the mutable per-scan state
  of all rules is one opaque value that evaluation threads through.
\<close>

section \<open>Rules and reports\<close>

record rule_result =
  rr_rule_id :: string
  rr_description :: string
  rr_scope :: vval
  rr_verdict :: bool
  rr_node_id :: string
  rr_detail :: ydict
  rr_file :: "(string \<times> int option) option"
  rr_error :: "string option"

text \<open>What \<open>match\<close> followed by \<open>process\<close> does on a node.\<close>

datatype rule_outcome = Not_matched | Not_applicable | Raised string | Returned rule_result

record 'w graph_rule =
  gr_id :: string
  gr_description :: string
  gr_scope :: vval
  gr_enabled :: bool
  gr_precedence :: int
  gr_eval :: "'w \<Rightarrow> content_graph \<Rightarrow> string \<Rightarrow> 'w \<times> rule_outcome"

record node_result =
  nr_node_id :: string
  nr_node :: content_node
  nr_results :: "rule_result list"

record scan_report =
  sr_node_results :: "node_result list"
  sr_rules_evaluated :: nat
  sr_nodes_scanned :: nat
  sr_missing :: "string list"

section \<open>Loading rules\<close>

text \<open>
  \<open>discover\<close> gives, for an existing directory, what instantiating each class found there gives:
  a rule, or \<open>None\<close> when the constructor raises.
\<close>

definition keep_rule :: "string list \<Rightarrow> string list \<Rightarrow> string list \<Rightarrow> bool \<Rightarrow> 'w graph_rule \<Rightarrow> 'w graph_rule list" where
  "keep_rule whitelist opt_in exclude preserve r =
     (if gr_id r \<in> set exclude then []
      else if whitelist \<noteq> [] \<and> gr_id r \<notin> set whitelist then []
      else (let requested = (if whitelist \<noteq> [] then True else gr_id r \<in> set opt_in)
            in if whitelist = [] \<and> \<not> gr_enabled r \<and> \<not> requested then []
               else if requested \<and> \<not> gr_enabled r \<and> \<not> preserve then [r\<lparr>gr_enabled := True\<rparr>]
               else [r]))"

definition load_graph_rules ::
  "(string \<Rightarrow> 'w graph_rule option list option) \<Rightarrow> string \<Rightarrow> string list \<Rightarrow> string list \<Rightarrow> string list \<Rightarrow> bool
    \<Rightarrow> 'w graph_rule list \<times> string list" where
  "load_graph_rules discover rules_dir whitelist opt_in exclude preserve =
     (if rules_dir = [] then ([], [])
      else (let found = concat (map (\<lambda>d. case discover d of None \<Rightarrow> [] | Some rs \<Rightarrow> rs) (split_on (CHR '':'') rules_dir));
                rules = concat (map (\<lambda>r. case r of None \<Rightarrow> [] | Some r \<Rightarrow> keep_rule whitelist opt_in exclude preserve r) found);
                requested = filter (\<lambda>i. i \<notin> set exclude) (nub (whitelist @ opt_in));
                missing = sort (filter (\<lambda>i. i \<notin> gr_id ` set rules) requested)
            in (sort_key gr_precedence rules, missing)))"

section \<open>Inline suppression\<close>

definition rx_quoted :: rx where
  "rx_quoted =
     rx_alt
       (rx_seq (rx_lit [CHR 0x22])
         (rx_seq (rx_star (\<lambda>c. c \<noteq> CHR 0x22 \<and> c \<noteq> CHR 0x5C))
           (rx_seq (rx_many (rx_seq (rx_lit [CHR 0x5C])
                      (rx_seq (rx_chr (\<lambda>c. c \<noteq> LF)) (rx_star (\<lambda>c. c \<noteq> CHR 0x22 \<and> c \<noteq> CHR 0x5C)))))
             (rx_lit [CHR 0x22]))))
       (rx_seq (rx_lit [CHR 0x27]) (rx_seq (rx_star (\<lambda>c. c \<noteq> CHR 0x27)) (rx_lit [CHR 0x27])))"

definition rx_noqa_head :: "bool \<Rightarrow> rx" where
  "rx_noqa_head at_start =
     rx_seq (if at_start then rx_alt rx_eps (rx_chr is_space) else rx_chr is_space)
       (rx_seq (rx_lit ''#'') (rx_seq (rx_star is_space) (rx_seq (rx_lit ''noqa:'') (rx_star is_space))))"

definition noqa_char :: "char \<Rightarrow> bool" where
  "noqa_char c \<longleftrightarrow> is_letter c \<or> is_digit c \<or> c = CHR ''_'' \<or> c = CHR '','' \<or> c = TAB \<or> c = SP"

text \<open>\<open>_NOQA_RE.finditer\<close>: the captured groups of the successive matches.\<close>

function noqa_groups :: "bool \<Rightarrow> string \<Rightarrow> string list" where
  "noqa_groups at_start [] = []"
| "noqa_groups at_start (c # cs) =
     (case filter (\<lambda>(g, r). length r < length (c # cs))
             (rx_cap (rx_noqa_head at_start) (rx_plus noqa_char) (c # cs)) of
        [] \<Rightarrow> noqa_groups False cs
      | (g, r) # _ \<Rightarrow> g # noqa_groups False r)"
  by pat_completeness auto
termination
proof (relation "measure (\<lambda>(b, s). length s)", goal_cases)
  case (3 b c cs p ps g r)
  from filter_hd [of _ _ "(g, r)" ps] 3 show ?case by fastforce
qed simp_all

definition noqa_token :: "string \<Rightarrow> string" where
  "noqa_token part = upper (takeWhile (\<lambda>c. \<not> is_space c) (strip part))"

definition parse_noqa :: "string \<Rightarrow> string list" where
  "parse_noqa yaml_lines =
     filter (\<lambda>t. t \<noteq> [])
       (concat (map (\<lambda>l. concat (map (\<lambda>g. map noqa_token (split_on (CHR '','') g))
                                  (noqa_groups True (rx_erase rx_quoted l))))
                 (splitlines yaml_lines)))"

text \<open>The filter of the engine, with its cache of parsed nodes.\<close>

fun filter_noqa_loop ::
  "content_graph \<Rightarrow> (string, string list) dict \<Rightarrow> violation list \<Rightarrow> violation list" where
  "filter_noqa_loop g cache [] = []"
| "filter_noqa_loop g cache (v # vs) =
     (let path = strip (vget_or_str v ''path''); rule_id = upper (strip (vget_or_str v ''rule_id''))
      in if path = [] \<or> rule_id = [] then v # filter_noqa_loop g cache vs
         else case get_node g path of
                None \<Rightarrow> v # filter_noqa_loop g cache vs
              | Some n \<Rightarrow>
                  (if cn_yaml n = [] then v # filter_noqa_loop g cache vs
                   else (let (suppressed, cache') =
                               (case dict_get cache path of
                                  Some s \<Rightarrow> (s, cache)
                                | None \<Rightarrow> (parse_noqa (cn_yaml n), dict_set path (parse_noqa (cn_yaml n)) cache))
                         in if rule_id \<in> set suppressed then filter_noqa_loop g cache' vs
                            else v # filter_noqa_loop g cache' vs)))"

definition filter_noqa_violations :: "violation list \<Rightarrow> content_graph option \<Rightarrow> violation list" where
  "filter_noqa_violations vs graph = (case graph of None \<Rightarrow> vs | Some g \<Rightarrow> filter_noqa_loop g [] vs)"

section \<open>Scanning\<close>

definition SCANNABLE_TYPES :: "node_type list" where
  "SCANNABLE_TYPES =
     [NT_Task, NT_Handler, NT_Block, NT_Play, NT_Role, NT_Taskfile, NT_Playbook, NT_Collection,
      NT_Module, NT_Rulebook, NT_Ruleset]"

definition error_result :: "'w graph_rule \<Rightarrow> string \<Rightarrow> string \<Rightarrow> rule_result" where
  "error_result r nid e =
     \<lparr>rr_rule_id = gr_id r, rr_description = gr_description r, rr_scope = gr_scope r, rr_verdict = False,
      rr_node_id = nid, rr_detail = [], rr_file = None, rr_error = Some (''Rule execution failed: '' @ e)\<rparr>"

fun eval_rules ::
  "'w \<Rightarrow> content_graph \<Rightarrow> string \<Rightarrow> string list \<Rightarrow> 'w graph_rule list \<Rightarrow> 'w \<times> rule_result list" where
  "eval_rules w g nid suppressed [] = (w, [])"
| "eval_rules w g nid suppressed (r # rs) =
     (if upper (gr_id r) \<in> set suppressed then eval_rules w g nid suppressed rs
      else (let (w1, out) = gr_eval r w g nid;
                res = (case out of
                         Not_matched \<Rightarrow> [] | Not_applicable \<Rightarrow> []
                       | Raised e \<Rightarrow> [error_result r nid e]
                       | Returned x \<Rightarrow> [x\<lparr>rr_rule_id := gr_id r, rr_description := gr_description r, rr_scope := gr_scope r\<rparr>]);
                (w2, more) = eval_rules w1 g nid suppressed rs
            in (w2, res @ more)))"

definition evaluate_node ::
  "content_graph \<Rightarrow> content_node \<Rightarrow> 'w graph_rule list \<Rightarrow> 'w \<times> scan_report \<Rightarrow> 'w \<times> scan_report" where
  "evaluate_node g n rules st =
     (let (w, report) = st;
          suppressed = (if cn_yaml n = [] then [] else parse_noqa (cn_yaml n));
          (w', results) = eval_rules w g (node_id n) suppressed rules;
          report = report\<lparr>sr_nodes_scanned := Suc (sr_nodes_scanned report)\<rparr>
      in (w', if results = [] then report
              else report\<lparr>sr_node_results := sr_node_results report @
                     [\<lparr>nr_node_id = node_id n, nr_node = n, nr_results = results\<rparr>]\<rparr>))"

definition eligible :: "bool \<Rightarrow> content_node \<Rightarrow> bool" where
  "eligible owned_only n \<longleftrightarrow>
     node_kind n \<in> set SCANNABLE_TYPES \<and> \<not> (owned_only \<and> cn_scope n \<noteq> NS_Owned)"

definition empty_report :: "nat \<Rightarrow> string list \<Rightarrow> scan_report" where
  "empty_report n missing =
     \<lparr>sr_node_results = [], sr_rules_evaluated = n, sr_nodes_scanned = 0, sr_missing = missing\<rparr>"

definition scan :: "'w \<Rightarrow> content_graph \<Rightarrow> 'w graph_rule list \<Rightarrow> bool \<Rightarrow> string list \<Rightarrow> scan_report" where
  "scan w0 g rules owned_only missing =
     (let enabled = filter gr_enabled rules
      in snd (fold (\<lambda>n. evaluate_node g n enabled)
                (filter (eligible owned_only) (sort_key (\<lambda>n. node_id n) (graph_nodes g)))
                (w0, empty_report (length enabled) missing)))"

definition aggregate_types :: "string \<Rightarrow> node_type list" where
  "aggregate_types s =
     (if s = scope_value RS_BLOCK then [NT_Block]
      else if s = scope_value RS_PLAY then [NT_Play]
      else if s = scope_value RS_PLAYBOOK then [NT_Playbook]
      else if s = scope_value RS_ROLE then [NT_Role]
      else if s = scope_value RS_COLLECTION then [NT_Collection]
      else [])"

definition scope_text :: "vval \<Rightarrow> string" where
  "scope_text s = (case s of VEnum _ _ v \<Rightarrow> v | _ \<Rightarrow> py_str s)"

definition expand_dirty_node_ids :: "content_graph \<Rightarrow> 'w graph_rule list \<Rightarrow> string list \<Rightarrow> string list" where
  "expand_dirty_node_ids g rules dirty =
     (if dirty = [] then []
      else (let types = concat (map (\<lambda>r. aggregate_types (scope_text (gr_scope r))) rules)
            in if types = [] then dirty
               else nub (dirty @ concat (map (\<lambda>nid.
                      case get_node g nid of
                        None \<Rightarrow> []
                      | Some n \<Rightarrow> filter (\<lambda>a. kind_in g a types) (positional_ancestor_ids g nid)) dirty))))"

definition rescan_dirty :: "'w \<Rightarrow> content_graph \<Rightarrow> 'w graph_rule list \<Rightarrow> string list \<Rightarrow> bool \<Rightarrow> scan_report" where
  "rescan_dirty w0 g rules dirty owned_only =
     (let enabled = filter gr_enabled rules;
          effective = sort (expand_dirty_node_ids g enabled dirty)
      in snd (fold (\<lambda>n. evaluate_node g n enabled) (filter (eligible owned_only) (payloads g effective))
                (w0, empty_report (length enabled) [])))"

section \<open>Violations of a report\<close>

text \<open>
  \<open>int(x)\<close> of a float and the JSON serialization of audit metadata (with its redaction) are
  parameters; a failed serialization is \<open>None\<close>.
\<close>

record report_lib =
  rl_trunc :: "string \<Rightarrow> int"
  rl_serialize :: "string \<Rightarrow> string \<Rightarrow> yval \<Rightarrow> string option"

fun nested_line :: "report_lib \<Rightarrow> yval \<Rightarrow> vval" where
  "nested_line P (YInt i) = VInt i"
| "nested_line P (YBool b) = VBool b"
| "nested_line P (YList xs) =
     VInts (concat (map (\<lambda>x. case x of YInt i \<Rightarrow> [i] | YBool b \<Rightarrow> [if b then 1 else 0]
                                | YFloat s \<Rightarrow> [rl_trunc P s] | _ \<Rightarrow> []) xs))"
| "nested_line P _ = VNone"

definition yget_str :: "('m, 's) yaml_lib \<Rightarrow> ydict \<Rightarrow> string \<Rightarrow> string \<Rightarrow> string" where
  "yget_str L d k dflt = (case dict_get d k of None \<Rightarrow> dflt | Some v \<Rightarrow> y_str L v)"

definition result_scope :: "('m, 's) yaml_lib \<Rightarrow> rule_result \<Rightarrow> vval" where
  "result_scope L rr =
     (let s = yget_str L (rr_detail rr) ''scope'' [] in if s \<noteq> [] then VStr s else rr_scope rr)"

abbreviation sev_label :: "string \<Rightarrow> vval" where
  "sev_label rid \<equiv> VStr (severity_to_label (get_severity rid))"

definition nested_violation :: "('m, 's) yaml_lib \<Rightarrow> report_lib \<Rightarrow> rule_result \<Rightarrow> ydict \<Rightarrow> violation" where
  "nested_violation L P rr nested =
     [(''rule_id'', VStr (rr_rule_id rr)), (''severity'', sev_label (rr_rule_id rr)),
      (''message'', VStr (yget_str L nested ''message'' (rr_description rr))),
      (''file'', VStr (yget_str L nested ''file'' [])), (''line'', nested_line P (yget nested ''line'')),
      (''path'', VStr (rr_node_id rr)), (''source'', VStr ''native''), (''scope'', result_scope L rr)]"

definition expanded_violations :: "('m, 's) yaml_lib \<Rightarrow> report_lib \<Rightarrow> rule_result \<Rightarrow> violation list" where
  "expanded_violations L P rr =
     (case yget (rr_detail rr) ''violations'' of
        YList xs \<Rightarrow> concat (map (\<lambda>x. case x of YMap d \<Rightarrow> [nested_violation L P rr d] | _ \<Rightarrow> []) xs)
      | _ \<Rightarrow> [])"

definition result_place :: "rule_result \<Rightarrow> content_node \<Rightarrow> string \<times> vval" where
  "result_place rr n =
     (case rr_file rr of
        Some (f, l) \<Rightarrow> (f, (case l of Some i \<Rightarrow> VInt i | None \<Rightarrow> VNone))
      | None \<Rightarrow> (cn_file_path n, (if cn_line_start n \<noteq> 0 then VInt (cn_line_start n) else VNone)))"

definition copy_detail :: "('m, 's) yaml_lib \<Rightarrow> ydict \<Rightarrow> string \<Rightarrow> violation \<Rightarrow> violation" where
  "copy_detail L d k v = (if yget d k \<noteq> YNull then dict_set k (VStr (y_str L (yget d k))) v else v)"

definition copy_audit :: "report_lib \<Rightarrow> string \<Rightarrow> ydict \<Rightarrow> string \<Rightarrow> violation \<times> nat \<Rightarrow> violation \<times> nat" where
  "copy_audit P rid d k st =
     (let (v, failures) = st
      in if yget d k = YNull then (v, failures)
         else case rl_serialize P rid k (yget d k) of
                Some s \<Rightarrow> (dict_set k (VStr s) v, failures)
              | None \<Rightarrow> (v, Suc failures))"

definition AUDIT_JSON_METADATA_KEYS :: "string list" where
  "AUDIT_JSON_METADATA_KEYS = [''variables_used'', ''variable_set'', ''inbound_src'']"

definition single_violation ::
  "('m, 's) yaml_lib \<Rightarrow> report_lib \<Rightarrow> content_node \<Rightarrow> rule_result \<Rightarrow> violation \<times> nat" where
  "single_violation L P n rr =
     (let d = rr_detail rr; rid = rr_rule_id rr; (file, line) = result_place rr n;
          m = yget_str L d ''message'' [];
          msg = (if m \<noteq> [] then m else rr_description rr);
          v = [(''rule_id'', VStr rid), (''severity'', sev_label rid), (''message'', VStr msg),
               (''file'', VStr file), (''line'', line), (''path'', VStr (rr_node_id rr)),
               (''source'', VStr ''native''), (''scope'', result_scope L rr)];
          v = fold (copy_detail L d) [''resolved_fqcn'', ''original_module'', ''fqcn'', ''with_key''] v;
          (v, failures) = fold (copy_audit P rid d) AUDIT_JSON_METADATA_KEYS (v, 0)
      in (case yget d ''affected_children'' of
            YInt i \<Rightarrow> (if i > 0 then dict_set ''affected_children'' (VInt i) v else v)
          | YBool True \<Rightarrow> dict_set ''affected_children'' (VBool True) v
          | _ \<Rightarrow> v, failures))"

definition result_violations ::
  "('m, 's) yaml_lib \<Rightarrow> report_lib \<Rightarrow> content_node \<Rightarrow> rule_result \<Rightarrow> violation list \<times> nat" where
  "result_violations L P n rr =
     (if \<not> rr_verdict rr then ([], 0)
      else (let expanded = expanded_violations L P rr
            in if expanded \<noteq> [] then (expanded, 0)
               else (let (v, failures) = single_violation L P n rr in ([v], failures))))"

definition graph_report_to_violations ::
  "('m, 's) yaml_lib \<Rightarrow> report_lib \<Rightarrow> scan_report \<Rightarrow> violation list \<times> nat" where
  "graph_report_to_violations L P report =
     (let rs = concat (map (\<lambda>nr. map (result_violations L P (nr_node nr)) (nr_results nr)) (sr_node_results report))
      in (concat (map fst rs), sum_list (map snd rs)))"

section \<open>Suppression is exact\<close>

definition suppressed_by_noqa :: "content_graph \<Rightarrow> violation \<Rightarrow> bool" where
  "suppressed_by_noqa g v \<longleftrightarrow>
     (let path = strip (vget_or_str v ''path''); rule_id = upper (strip (vget_or_str v ''rule_id''))
      in path \<noteq> [] \<and> rule_id \<noteq> [] \<and>
         (case get_node g path of None \<Rightarrow> False | Some n \<Rightarrow> cn_yaml n \<noteq> [] \<and> rule_id \<in> set (parse_noqa (cn_yaml n))))"

lemma filter_noqa_loop_filter:
  assumes "\<And>p s. dict_get cache p = Some s \<Longrightarrow> \<exists>n. get_node g p = Some n \<and> s = parse_noqa (cn_yaml n)"
  shows "filter_noqa_loop g cache vs = filter (\<lambda>v. \<not> suppressed_by_noqa g v) vs"
  using assms
proof (induction vs arbitrary: cache)
  case (Cons v vs)
  define path where "path = strip (vget_or_str v ''path'')"
  define rid where "rid = upper (strip (vget_or_str v ''rule_id''))"
  note IH = Cons.IH [OF Cons.prems]
  show ?case
  proof (cases "path = [] \<or> rid = [] \<or> get_node g path = None")
    case True
    then show ?thesis
      using IH by (auto simp: Let_def suppressed_by_noqa_def path_def rid_def split: option.splits)
  next
    case False
    then obtain n where n: "get_node g path = Some n" by auto
    define cache' where "cache' = (case dict_get cache path of Some s \<Rightarrow> cache
        | None \<Rightarrow> dict_set path (parse_noqa (cn_yaml n)) cache)"
    have c': "filter_noqa_loop g cache' vs = filter (\<lambda>v. \<not> suppressed_by_noqa g v) vs"
      by (rule Cons.IH) (use Cons.prems n in \<open>auto simp: cache'_def dict_simps split: option.splits if_splits\<close>)
    have s: "(case dict_get cache path of Some s \<Rightarrow> (s, cache)
        | None \<Rightarrow> (parse_noqa (cn_yaml n), dict_set path (parse_noqa (cn_yaml n)) cache)) = (parse_noqa (cn_yaml n), cache')"
      using Cons.prems [of path] n by (auto simp: cache'_def split: option.splits)
    show ?thesis
      using False n s c' IH
      by (simp add: Let_def path_def [symmetric] rid_def [symmetric] suppressed_by_noqa_def)
  qed
qed simp

text \<open>
  C26. Inline suppression drops exactly the violations whose rule is named by a \<open>noqa\<close> comment of
  their own node, keeps the rest in order (a violation without a node, rule or text included),
  and filtering again changes nothing; the cache of parsed nodes does not affect the result.
\<close>

theorem filter_noqa_exact:
  "filter_noqa_violations vs (Some g) = filter (\<lambda>v. \<not> suppressed_by_noqa g v) vs \<and>
   filter_noqa_violations (filter_noqa_violations vs (Some g)) (Some g) = filter_noqa_violations vs (Some g) \<and>
   filter_noqa_violations vs None = vs"
proof -
  have "filter_noqa_loop g [] us = filter (\<lambda>v. \<not> suppressed_by_noqa g v) us" for us
    by (rule filter_noqa_loop_filter) simp
  then show ?thesis by (simp add: filter_noqa_violations_def)
qed

section \<open>Expansion of the dirty set\<close>

lemma set_expand_dirty:
  fixes rules :: "'w graph_rule list"
  assumes "graph_closed g"
  defines "types \<equiv> concat (map (\<lambda>r. aggregate_types (scope_text (gr_scope r))) rules)"
  shows "set (expand_dirty_node_ids g rules dirty) =
     set dirty \<union> {a. kind_in g a types \<and> (\<exists>d\<in>set dirty. get_node g d \<noteq> None \<and> (a, d) \<in> (positional g)\<^sup>+)}"
proof -
  have step: "set (case get_node g d of None \<Rightarrow> [] | Some n \<Rightarrow> filter (\<lambda>a. kind_in g a ts) (positional_ancestor_ids g d)) =
      {a. kind_in g a ts \<and> get_node g d \<noteq> None \<and> (a, d) \<in> (positional g)\<^sup>+}" for d ts
    by (cases "get_node g d") (auto simp: set_positional_ancestor_ids [OF assms(1)])
  have none: "\<not> kind_in g a []" for a by (simp add: kind_in_def split: option.splits)
  consider "dirty = []" | "types = []" | "dirty \<noteq> []" "types \<noteq> []" by blast
  then show ?thesis
  proof cases
    case 3
    then have "set (expand_dirty_node_ids g rules dirty) = set dirty \<union>
        (\<Union>d\<in>set dirty. {a. kind_in g a types \<and> get_node g d \<noteq> None \<and> (a, d) \<in> (positional g)\<^sup>+})"
      unfolding expand_dirty_node_ids_def Let_def types_def [symmetric] by (simp add: step del: set_filter)
    then show ?thesis by blast
  qed (unfold expand_dirty_node_ids_def Let_def types_def [symmetric], simp_all add: none)
qed

lemma distinct_expand_dirty: "distinct dirty \<Longrightarrow> distinct (expand_dirty_node_ids g rules dirty)"
  by (simp add: expand_dirty_node_ids_def Let_def)

text \<open>
  A rescan re-evaluates what it must: the expanded set is the dirty nodes together with
  exactly their transitive positional ancestors of a kind some enabled aggregate rule scopes
  to; expanding twice adds nothing.
\<close>

theorem expand_dirty_exact:
  assumes "graph_closed g"
  shows "set (expand_dirty_node_ids g rules dirty) =
     set dirty \<union> {a. (\<exists>r\<in>set rules. kind_in g a (aggregate_types (scope_text (gr_scope r)))) \<and>
        (\<exists>d\<in>set dirty. get_node g d \<noteq> None \<and> (a, d) \<in> (positional g)\<^sup>+)} \<and>
   set (expand_dirty_node_ids g rules (expand_dirty_node_ids g rules dirty)) =
     set (expand_dirty_node_ids g rules dirty)"
proof
  let ?types = "concat (map (\<lambda>r. aggregate_types (scope_text (gr_scope r))) rules)"
  have "kind_in g a ?types \<longleftrightarrow> (\<exists>r\<in>set rules. kind_in g a (aggregate_types (scope_text (gr_scope r))))" for a
    by (auto simp: kind_in_def split: option.splits)
  then show "set (expand_dirty_node_ids g rules dirty) =
     set dirty \<union> {a. (\<exists>r\<in>set rules. kind_in g a (aggregate_types (scope_text (gr_scope r)))) \<and>
        (\<exists>d\<in>set dirty. get_node g d \<noteq> None \<and> (a, d) \<in> (positional g)\<^sup>+)}"
    by (simp add: set_expand_dirty [OF assms])
  show "set (expand_dirty_node_ids g rules (expand_dirty_node_ids g rules dirty)) =
     set (expand_dirty_node_ids g rules dirty)"
    unfolding set_expand_dirty [OF assms] using trancl_trans [of _ _ "positional g"] by fast
qed

section \<open>A rescan is a part of the full scan\<close>

definition stateless :: "content_graph \<Rightarrow> 'w graph_rule list \<Rightarrow> bool" where
  "stateless g rules \<longleftrightarrow> (\<forall>r\<in>set rules. \<forall>w nid. fst (gr_eval r w g nid) = w)"

definition node_outcome :: "'w \<Rightarrow> content_graph \<Rightarrow> 'w graph_rule list \<Rightarrow> content_node \<Rightarrow> node_result list" where
  "node_outcome w g rules n =
     (let results = snd (eval_rules w g (node_id n) (if cn_yaml n = [] then [] else parse_noqa (cn_yaml n)) rules)
      in if results = [] then [] else [\<lparr>nr_node_id = node_id n, nr_node = n, nr_results = results\<rparr>])"

lemma eval_rules_stateless: "stateless g rules \<Longrightarrow> fst (eval_rules w g nid quiet rules) = w"
  by (induction rules) (auto simp: stateless_def Let_def case_prod_unfold)

lemma fold_evaluate_node:
  assumes "stateless g rules"
  shows "sr_node_results (snd (fold (\<lambda>n. evaluate_node g n rules) ns (w, rep))) =
     sr_node_results rep @ concat (map (node_outcome w g rules) ns)"
  using eval_rules_stateless [OF assms]
  by (induction ns arbitrary: rep) (auto simp: evaluate_node_def node_outcome_def Let_def case_prod_unfold)

lemma sorted_nodes_eq:
  assumes "map f xs = map f ys" and "\<And>x y. x \<in> set xs \<Longrightarrow> y \<in> set ys \<Longrightarrow> f x = f y \<Longrightarrow> x = y"
  shows "xs = ys"
  using assms by (induction xs ys rule: list_induct2') auto

lemma graph_nodes_payloads:
  assumes "dict_ok (cg_nodes g)"
  shows "graph_nodes g = payloads g (map fst (cg_nodes g))"
proof -
  have "get_node g k = p" if "(k, p) \<in> set (cg_nodes g)" for k p
    using that assms by (simp add: get_node_def dict_ok_def)
  then show ?thesis
    unfolding graph_nodes_def payloads_def map_map comp_def
    by (intro arg_cong [where f = concat] map_cong) (auto split: option.splits)
qed

lemma payloads_are_nodes:
  assumes "dict_ok (cg_nodes g)" and ids: "\<And>i n. get_node g i = Some n \<Longrightarrow> node_id n = i" and "distinct eff"
  shows "payloads g (sort eff) = filter (\<lambda>n. node_id n \<in> set eff) (sort_key (\<lambda>n. node_id n) (graph_nodes g))"
proof (rule sorted_nodes_eq [where f = "\<lambda>n. node_id n"])
  let ?A = "payloads g (sort eff)"
  let ?S = "sort_key (\<lambda>n. node_id n) (graph_nodes g)"
  let ?B = "filter (\<lambda>n. node_id n \<in> set eff) ?S"
  have node: "n \<in> set (graph_nodes g) \<longleftrightarrow> get_node g (node_id n) = Some n" for n
    using graph_nodes_get_node [OF assms(1)] ids by metis
  have mapA: "map (\<lambda>n. node_id n) ?A = filter (\<lambda>i. get_node g i \<noteq> None) (sort eff)"
    by (rule node_ids_payloads) (rule ids)
  have "distinct (map (\<lambda>n. node_id n) (graph_nodes g))"
    using assms(1) by (simp add: graph_nodes_payloads [OF assms(1)] node_ids_payloads [OF ids] dict_ok_def)
  then have "distinct (map (\<lambda>n. node_id n) ?S)"
    by (simp add: distinct_map)
  then have dB: "distinct (map (\<lambda>n. node_id n) ?B)" by (rule distinct_map_filter)
  have sB: "sorted (map (\<lambda>n. node_id n) ?B)"
    using sorted_filter sorted_sort_key by blast
  have ex: "(\<exists>n\<in>set (graph_nodes g). node_id n = i) \<longleftrightarrow> get_node g i \<noteq> None" for i
  proof (cases "get_node g i")
    case None
    then show ?thesis using node by force
  next
    case (Some n)
    then show ?thesis using node [of n] ids [OF Some] by auto
  qed
  have "set (map (\<lambda>n. node_id n) ?B) = {i \<in> set eff. \<exists>n\<in>set (graph_nodes g). node_id n = i}" by auto
  then have "set (map (\<lambda>n. node_id n) ?A) = set (map (\<lambda>n. node_id n) ?B)"
    unfolding mapA ex by auto
  then show "map (\<lambda>n. node_id n) ?A = map (\<lambda>n. node_id n) ?B"
    using dB sB assms(3)
    by (intro sorted_distinct_set_unique) (simp_all add: mapA sorted_filter [where f = "\<lambda>x. x", simplified])
  show "x = y" if xy: "x \<in> set ?A" "y \<in> set ?B" "node_id x = node_id y" for x y
  proof -
    obtain i where "get_node g i = Some x" using xy(1) by (auto simp: set_payloads)
    moreover have "get_node g (node_id y) = Some y" using xy(2) node by simp
    ultimately show ?thesis using ids [of i x] xy(3) by simp
  qed
qed


section \<open>The report conversion\<close>

lemma vget_copy_detail: "k \<noteq> j \<Longrightarrow> vget (copy_detail L d k v) j = vget v j"
  by (simp add: copy_detail_def dict_simps)

lemma vget_copy_audit: "k \<noteq> j \<Longrightarrow> vget (fst (copy_audit P rid d k st)) j = vget (fst st) j"
  by (auto simp: copy_audit_def Let_def case_prod_unfold dict_simps split: option.splits)

lemma single_violation_head:
  "vget (fst (single_violation L P n rr)) ''rule_id'' = VStr (rr_rule_id rr) \<and>
   vget (fst (single_violation L P n rr)) ''path'' = VStr (rr_node_id rr) \<and>
   vget (fst (single_violation L P n rr)) ''source'' = VStr ''native''"
  by (auto simp: single_violation_def Let_def case_prod_unfold AUDIT_JSON_METADATA_KEYS_def
      vget_copy_audit vget_copy_detail dict_simps split: yval.splits bool.splits)
    (simp_all add: vget_def)

lemma nested_violation_head:
  "vget (nested_violation L P rr d) ''rule_id'' = VStr (rr_rule_id rr) \<and>
   vget (nested_violation L P rr d) ''path'' = VStr (rr_node_id rr) \<and>
   vget (nested_violation L P rr d) ''source'' = VStr ''native''"
  by (simp add: nested_violation_def vget_def)

lemma expanded_violations_nested:
  "v \<in> set (expanded_violations L P rr) \<Longrightarrow> \<exists>d. v = nested_violation L P rr d"
  by (auto simp: expanded_violations_def split: yval.splits)

lemma result_violations_head:
  assumes "v \<in> set (fst (result_violations L P n rr))"
  shows "rr_verdict rr \<and> vget v ''rule_id'' = VStr (rr_rule_id rr) \<and> vget v ''path'' = VStr (rr_node_id rr) \<and>
    vget v ''source'' = VStr ''native''"
  using assms single_violation_head [of L P n rr] nested_violation_head [of L P rr]
    expanded_violations_nested [of v L P rr]
  by (auto simp: result_violations_def Let_def case_prod_unfold split: if_splits)

text \<open>
  The violations of a report are those of the results whose verdict is true, each carrying
  the rule and the node of its result; a result with a false verdict, in particular one that
  records a rule that raised, contributes none, and every true verdict contributes at least one.
\<close>

theorem report_violations_sound:
  "(\<forall>v\<in>set (fst (graph_report_to_violations L P report)).
      \<exists>nr\<in>set (sr_node_results report). \<exists>rr\<in>set (nr_results nr). rr_verdict rr \<and>
        vget v ''rule_id'' = VStr (rr_rule_id rr) \<and> vget v ''path'' = VStr (rr_node_id rr) \<and>
        vget v ''source'' = VStr ''native'') \<and>
   (\<forall>nr\<in>set (sr_node_results report). \<forall>rr\<in>set (nr_results nr). rr_verdict rr \<longrightarrow>
      (\<exists>v\<in>set (fst (graph_report_to_violations L P report)).
         vget v ''rule_id'' = VStr (rr_rule_id rr) \<and> vget v ''path'' = VStr (rr_node_id rr)))"
proof (intro conjI ballI impI)
  fix v assume "v \<in> set (fst (graph_report_to_violations L P report))"
  then obtain nr rr where "nr \<in> set (sr_node_results report)" "rr \<in> set (nr_results nr)"
    "v \<in> set (fst (result_violations L P (nr_node nr) rr))"
    by (auto simp: graph_report_to_violations_def Let_def)
  then show "\<exists>nr\<in>set (sr_node_results report). \<exists>rr\<in>set (nr_results nr). rr_verdict rr \<and>
        vget v ''rule_id'' = VStr (rr_rule_id rr) \<and> vget v ''path'' = VStr (rr_node_id rr) \<and>
        vget v ''source'' = VStr ''native''"
    using result_violations_head by blast
next
  fix nr rr assume nr: "nr \<in> set (sr_node_results report)" "rr \<in> set (nr_results nr)" and "rr_verdict rr"
  then have "fst (result_violations L P (nr_node nr) rr) \<noteq> []"
    by (simp add: result_violations_def Let_def case_prod_unfold)
  then obtain v where v: "v \<in> set (fst (result_violations L P (nr_node nr) rr))" by (meson last_in_set)
  then have "v \<in> set (fst (graph_report_to_violations L P report))"
    using nr by (auto simp: graph_report_to_violations_def Let_def)
  with result_violations_head [OF v] show "\<exists>v\<in>set (fst (graph_report_to_violations L P report)).
         vget v ''rule_id'' = VStr (rr_rule_id rr) \<and> vget v ''path'' = VStr (rr_node_id rr)" by blast
qed

section \<open>Witnesses\<close>

definition sample_result :: "string \<Rightarrow> rule_result" where
  "sample_result nid =
     \<lparr>rr_rule_id = ''L042'', rr_description = ''complexity'', rr_scope = VStr ''play'', rr_verdict = True,
      rr_node_id = nid, rr_detail = [], rr_file = None, rr_error = None\<rparr>"

definition sample_rule :: "unit graph_rule" where
  "sample_rule =
     \<lparr>gr_id = ''L042'', gr_description = ''complexity'', gr_scope = VStr ''play'', gr_enabled = True,
      gr_precedence = 10, gr_eval = (\<lambda>w g nid. (w, Returned (sample_result nid)))\<rparr>"

theorem expand_dirty_exact_witness:
  "graph_closed play_graph \<and> ''p'' \<in> set (expand_dirty_node_ids play_graph [sample_rule] [''t'']) \<and>
   set (expand_dirty_node_ids play_graph [sample_rule] (expand_dirty_node_ids play_graph [sample_rule] [''t''])) =
     set (expand_dirty_node_ids play_graph [sample_rule] [''t''])"
proof -
  have g: "graph_closed play_graph" "''p'' \<in> set (expand_dirty_node_ids play_graph [sample_rule] [''t''])" by code_simp+
  with expand_dirty_exact [OF g(1)] show ?thesis by blast
qed


theorem report_violations_sound_witness:
  "\<exists>v\<in>set (fst (graph_report_to_violations sample_lib \<lparr>rl_trunc = (\<lambda>_. 0), rl_serialize = (\<lambda>_ _ _. None)\<rparr>
      (scan () play_graph [sample_rule] True []))).
     vget v ''rule_id'' = VStr ''L042'' \<and> vget v ''path'' = VStr ''p''"
proof -
  let ?rep = "scan () play_graph [sample_rule] True []"
  have "list_ex (\<lambda>nr. list_ex (\<lambda>rr. rr_verdict rr \<and> rr_rule_id rr = ''L042'' \<and> rr_node_id rr = ''p'') (nr_results nr))
      (sr_node_results ?rep)" by code_simp
  then obtain nr rr where "nr \<in> set (sr_node_results ?rep)" "rr \<in> set (nr_results nr)" "rr_verdict rr"
    "rr_rule_id rr = ''L042''" "rr_node_id rr = ''p''" by (auto simp: list_ex_iff)
  then show ?thesis
    using report_violations_sound [of sample_lib "\<lparr>rl_trunc = (\<lambda>_. 0), rl_serialize = (\<lambda>_ _ _. None)\<rparr>" ?rep]
    by force
qed

end
