(* ===== verification/AI_Context.thy ===== *)
theory AI_Context
  imports Complex_Main Traversal
begin

text \<open>
  \<open>remediation/ai_context.py\<close>: the context bundle sent to the AI provider for one node, and
  the data of \<open>remediation/ai_provider.py\<close>.  The parts of \<open>json.dumps\<close> and \<open>repr\<close> the prompt
  uses are written out; a value JSON cannot encode (a date) makes the source raise \<open>TypeError\<close>,
  here \<open>None\<close>.
\<close>

section \<open>Printing values\<close>

definition hex_digit :: "nat \<Rightarrow> char" where
  "hex_digit n = (if n < 10 then char_of (48 + n) else char_of (87 + n))"

definition hex2 :: "nat \<Rightarrow> string" where
  "hex2 n = [hex_digit (n div 16), hex_digit (n mod 16)]"

definition json_char :: "char \<Rightarrow> string" where
  "json_char c =
     (if c = CHR 0x22 then [CHR 0x5C, CHR 0x22]
      else if c = CHR 0x5C then [CHR 0x5C, CHR 0x5C]
      else if c = LF then [CHR 0x5C, CHR ''n'']
      else if c = CR then [CHR 0x5C, CHR ''r'']
      else if c = TAB then [CHR 0x5C, CHR ''t'']
      else if c = CHR 0x08 then [CHR 0x5C, CHR ''b'']
      else if c = CHR 0x0C then [CHR 0x5C, CHR ''f'']
      else if code_of c < 32 \<or> 126 < code_of c then [CHR 0x5C, CHR ''u'', CHR ''0'', CHR ''0''] @ hex2 (code_of c)
      else [c])"

definition json_string :: "string \<Rightarrow> string" where
  "json_string s = [CHR 0x22] @ concat (map json_char s) @ [CHR 0x22]"

text \<open>The layout of a container: \<open>indent=None\<close>, or an indent of \<open>w\<close> spaces at nesting \<open>lvl\<close>.\<close>

definition json_items :: "nat option \<Rightarrow> nat \<Rightarrow> char \<Rightarrow> char \<Rightarrow> string list \<Rightarrow> string" where
  "json_items indent lvl open_c close_c items =
     (if items = [] then [open_c, close_c]
      else case indent of
             None \<Rightarrow> [open_c] @ join '', '' items @ [close_c]
           | Some w \<Rightarrow>
               (let inner = [LF] @ replicate (w * Suc lvl) SP
                in [open_c] @ inner @ join ([CHR '',''] @ inner) items @ [LF] @ replicate (w * lvl) SP @ [close_c]))"

fun all_some :: "'a option list \<Rightarrow> 'a list option" where
  "all_some [] = Some []"
| "all_some (None # xs) = None"
| "all_some (Some x # xs) = map_option (\<lambda>ys. x # ys) (all_some xs)"

fun json_dumps :: "nat option \<Rightarrow> nat \<Rightarrow> yval \<Rightarrow> string option" where
  "json_dumps indent lvl YNull = Some ''null''"
| "json_dumps indent lvl (YBool b) = Some (if b then ''true'' else ''false'')"
| "json_dumps indent lvl (YInt i) = Some (show_int i)"
| "json_dumps indent lvl (YFloat s) =
     Some (if s = ''nan'' then ''NaN'' else if s = ''inf'' then ''Infinity'' else if s = ''-inf'' then ''-Infinity'' else s)"
| "json_dumps indent lvl (YStr s) = Some (json_string s)"
| "json_dumps indent lvl (YOther s) = None"
| "json_dumps indent lvl (YList xs) =
     map_option (json_items indent lvl (CHR ''['') (CHR '']'')) (all_some (map (json_dumps indent (Suc lvl)) xs))"
| "json_dumps indent lvl (YMap kvs) =
     map_option (json_items indent lvl (CHR ''{'') (CHR ''}''))
       (all_some (map (\<lambda>(k, v). map_option (\<lambda>t. json_string k @ '': '' @ t) (json_dumps indent (Suc lvl) v)) kvs))"

definition repr_char :: "char \<Rightarrow> char \<Rightarrow> string" where
  "repr_char q c =
     (if c = q \<or> c = CHR 0x5C then [CHR 0x5C, c]
      else if c = LF then [CHR 0x5C, CHR ''n'']
      else if c = CR then [CHR 0x5C, CHR ''r'']
      else if c = TAB then [CHR 0x5C, CHR ''t'']
      else if code_of c < 32 \<or> 127 \<le> code_of c \<and> code_of c \<le> 160 \<or> code_of c = 173
      then [CHR 0x5C, CHR ''x''] @ hex2 (code_of c)
      else [c])"

definition repr_str :: "string \<Rightarrow> string" where
  "repr_str s =
     (let q = (if CHR 0x27 \<in> set s \<and> CHR 0x22 \<notin> set s then CHR 0x22 else CHR 0x27)
      in [q] @ concat (map (repr_char q) s) @ [q])"

definition repr_list :: "string list \<Rightarrow> string" where
  "repr_list xs = ''['' @ join '', '' (map repr_str xs) @ '']''"

section \<open>The context\<close>

record ai_context =
  ac_node_id :: string
  ac_node_type :: string
  ac_yaml :: string
  ac_violations :: "violation list"
  ac_file_path :: string
  ac_parent_context :: string
  ac_siblings :: "string list"
  ac_feedback :: string

record ai_skipped =
  as_rule_id :: string
  as_line :: int
  as_reason :: string
  as_suggestion :: string

record ai_fix =
  af_snippet :: string
  af_rule_ids :: "string list"
  af_explanation :: string
  af_confidence :: real
  af_skipped :: "ai_skipped list"

fun simplify_value :: "yval \<Rightarrow> yval" where
  "simplify_value (YStr s) = (if length s > 200 then YStr (take 200 s @ ''...'') else YStr s)"
| "simplify_value (YMap kvs) = YMap (map (\<lambda>(k, v). (k, simplify_value v)) kvs)"
| "simplify_value v = v"

definition simplify_dict :: "ydict \<Rightarrow> yval" where
  "simplify_dict d = simplify_value (YMap d)"

definition truncate_snippet :: "nat \<Rightarrow> string \<Rightarrow> string" where
  "truncate_snippet max_lines t =
     (let lines = splitlines_keep t
      in if length lines \<le> max_lines then t
         else concat (take max_lines lines) @ ''# ... (truncated)'' @ [LF])"

definition when_text :: "when_expr \<Rightarrow> string" where
  "when_text w = (case w of When_none \<Rightarrow> [] | When_str s \<Rightarrow> s | When_list xs \<Rightarrow> (if xs = [] then [] else repr_list xs))"

definition json_part :: "string \<Rightarrow> nat option \<Rightarrow> ydict \<Rightarrow> string list option" where
  "json_part label indent d =
     (if d = [] then Some []
      else map_option (\<lambda>t. [''  '' @ label @ '': '' @ t]) (json_dumps indent 0 (simplify_dict d)))"

definition ancestor_parts :: "task_fields \<Rightarrow> string list option" where
  "ancestor_parts tf =
     map_option concat (all_some
       [json_part ''vars'' (Some 2) (tf_variables tf),
        json_part ''become'' None (case tf_become tf of Some d \<Rightarrow> d | None \<Rightarrow> []),
        Some (if tf_tags tf = [] then [] else [''  tags: '' @ repr_list (tf_tags tf)]),
        Some (if when_text (tf_when tf) = [] then [] else [''  when: '' @ when_text (tf_when tf)]),
        json_part ''environment'' None (case tf_environment tf of Some d \<Rightarrow> d | None \<Rightarrow> [])])"

definition ancestor_section :: "content_node \<Rightarrow> string list option" where
  "ancestor_section anc =
     (let label = node_type_value (node_kind anc) @
            (case tf_name (cn_fields anc) of Some (c # cs) \<Rightarrow> '' ('' @ (c # cs) @ '')'' | _ \<Rightarrow> [])
      in map_option (\<lambda>parts. if parts = [] then [] else [label @ '':'' @ [LF] @ join [LF] parts])
           (ancestor_parts (cn_fields anc)))"

definition build_parent_context :: "content_graph \<Rightarrow> string \<Rightarrow> string option" where
  "build_parent_context g nid =
     map_option (\<lambda>ss. join [LF] (concat ss)) (all_some (map ancestor_section (ancestors g nid)))"

definition index_of :: "('a \<Rightarrow> bool) \<Rightarrow> 'a list \<Rightarrow> nat option" where
  "index_of P xs = (let i = length (takeWhile (\<lambda>x. \<not> P x) xs) in if i < length xs then Some i else None)"

definition build_sibling_snippets :: "content_graph \<Rightarrow> string \<Rightarrow> nat \<Rightarrow> string list" where
  "build_sibling_snippets g nid max_siblings =
     (case ancestors g nid of
        [] \<Rightarrow> []
      | parent # _ \<Rightarrow>
          (let cs = children g (node_id parent)
           in if length cs \<le> 1 then []
              else case index_of (\<lambda>c. node_id c = nid) cs of
                     None \<Rightarrow> []
                   | Some idx \<Rightarrow>
                       (let start = idx - max_siblings; stop = min (length cs) (idx + max_siblings + 1);
                            near = filter (\<lambda>i. i \<noteq> idx) [start..<stop]
                        in map (\<lambda>c. truncate_snippet 20 (cn_yaml c))
                             (filter (\<lambda>c. cn_yaml c \<noteq> []) (map (\<lambda>i. cs ! i) near)))))"

text \<open>\<open>Inl ()\<close> is the \<open>TypeError\<close>; \<open>Inr None\<close> the missing or empty node.\<close>

definition build_ai_node_context ::
  "content_graph \<Rightarrow> string \<Rightarrow> violation list \<Rightarrow> string \<Rightarrow> nat \<Rightarrow> unit + ai_context option" where
  "build_ai_node_context g nid vs feedback max_siblings =
     (case get_node g nid of
        None \<Rightarrow> Inr None
      | Some n \<Rightarrow>
          (if cn_yaml n = [] then Inr None
           else case build_parent_context g nid of
                  None \<Rightarrow> Inl ()
                | Some pc \<Rightarrow>
                    Inr (Some \<lparr>ac_node_id = nid, ac_node_type = node_type_value (node_kind n),
                               ac_yaml = cn_yaml n, ac_violations = vs, ac_file_path = cn_file_path n,
                               ac_parent_context = pc,
                               ac_siblings = build_sibling_snippets g nid max_siblings,
                               ac_feedback = feedback\<rparr>)))"

section \<open>Properties\<close>

lemma length_near: "length (filter (\<lambda>i. i \<noteq> idx) [idx - m..<min n (idx + m + 1)]) \<le> 2 * m"
proof (cases "idx < n")
  case True
  have less: "length (filter (\<lambda>i. i \<noteq> idx) xs) < length xs" if "idx \<in> set xs" for xs
    using that by (rule length_filter_less) simp
  have "length (filter (\<lambda>i. i \<noteq> idx) [idx - m..<min n (idx + m + 1)]) < length [idx - m..<min n (idx + m + 1)]"
    by (rule less) (use True in simp)
  then show ?thesis by simp
next
  case False
  have "length (filter (\<lambda>i. i \<noteq> idx) [idx - m..<min n (idx + m + 1)]) \<le> length [idx - m..<min n (idx + m + 1)]"
    by (rule length_filter_le)
  with False show ?thesis by simp
qed

lemma length_near_snippets:
  "length (filter (\<lambda>i. i \<noteq> idx \<and> Q i) [idx - m..<min n (Suc (idx + m))]) \<le> 2 * m"
  using le_trans [OF length_filter_le length_near, of Q idx m n] by (simp add: conj_commute)

lemma length_splitlines_keep_Cons:
  "length (splitlines_keep (c # s)) \<le> Suc (length (splitlines_keep s))"
proof (cases "is_break c")
  case True
  show ?thesis
  proof (cases "c = CR \<and> take 1 s = [LF]")
    case c: True
    then obtain ds where "s = LF # ds" by (cases s) auto
    with c True show ?thesis by (cases "take 1 ds") (auto simp: splitlines_keep_break)
  qed (use True in \<open>auto simp: splitlines_keep_break\<close>)
qed (auto simp: splitlines_keep_char split: list.splits)

lemma length_splitlines_keep_append:
  "length (splitlines_keep (a @ b)) \<le> length (splitlines_keep a) + length (splitlines_keep b)"
proof (induction a rule: splitlines_keep_induct)
  case (Break c cs)
  then show ?case
    using length_splitlines_keep_Cons [of c "cs @ b"] by (auto simp: splitlines_keep_break)
next
  case (Char c cs)
  show ?case
  proof (cases "cs = []")
    case True
    then show ?thesis using Char length_splitlines_keep_Cons [of c b] by (simp add: splitlines_keep_char)
  next
    case False
    then obtain l ls l' ls' where "splitlines_keep cs = l # ls" "splitlines_keep (cs @ b) = l' # ls'"
      by (metis append_is_Nil_conv neq_Nil_conv splitlines_keep_Nil)
    then show ?thesis using Char by (simp add: splitlines_keep_char)
  qed
qed (auto simp: splitlines_keep_break)

lemma length_splitlines_keep_take: "length (splitlines_keep (concat (take k (splitlines_keep t)))) \<le> k"
proof -
  have one: "length (splitlines_keep l) \<le> 1" if l: "l \<in> set (splitlines_keep t)" for l
  proof -
    have "splitlines_keep l = [l]"
    proof -
      obtain m where "solid l \<or> ended m l" using content_line [OF well_split_splitlines_keep l] by blast
      moreover have "l \<noteq> []" using l splitlines_keep_nonempty by metis
      moreover have "ended [] l" if "ended m l" using that by (auto simp: ended_def)
      ultimately have "well_split [l]" by auto
      from splitlines_keep_concat [OF this] show ?thesis by simp
    qed
    then show ?thesis by simp
  qed
  have "length (splitlines_keep (concat ls)) \<le> length ls" if "\<forall>l\<in>set ls. length (splitlines_keep l) \<le> 1" for ls
    using that
  proof (induction ls)
    case (Cons l ls)
    then show ?case using length_splitlines_keep_append [of l "concat ls"] by auto
  qed simp
  from this [of "take k (splitlines_keep t)"] show ?thesis
    using one by (auto dest: in_set_takeD)
qed

lemma truncate_snippet_lines: "length (splitlines_keep (truncate_snippet k t)) \<le> Suc k"
proof (cases "length (splitlines_keep t) \<le> k")
  case False
  have m: "length (splitlines_keep (''# ... (truncated)'' @ [LF])) = 1" by code_simp
  from False show ?thesis
    using length_splitlines_keep_append [of "concat (take k (splitlines_keep t))" "''# ... (truncated)'' @ [LF]"]
      length_splitlines_keep_take [of k t] m by (simp add: truncate_snippet_def Let_def)
qed (simp add: truncate_snippet_def Let_def)

text \<open>
  The context sent to the AI provider is about the node asked for and bounded: it carries the
  current text and the given violations of that node, at most \<open>max_siblings\<close> snippets from
  either side, each of at most 21 lines; and no context is built exactly for a missing or
  empty node.
\<close>

theorem ai_context_bounded:
  assumes "build_ai_node_context g nid vs feedback m = Inr c"
  shows "(c = None \<longleftrightarrow> (\<forall>n. get_node g nid = Some n \<longrightarrow> cn_yaml n = [])) \<and>
    (\<forall>ctx. c = Some ctx \<longrightarrow> ac_node_id ctx = nid \<and> ac_violations ctx = vs \<and> ac_feedback ctx = feedback \<and>
       (\<exists>n. get_node g nid = Some n \<and> ac_yaml ctx = cn_yaml n \<and> cn_yaml n \<noteq> []) \<and>
       length (ac_siblings ctx) \<le> 2 * m \<and>
       (\<forall>s\<in>set (ac_siblings ctx). length (splitlines_keep s) \<le> 21))"
proof -
  have sib: "length (build_sibling_snippets g nid m) \<le> 2 * m"
    by (auto simp: build_sibling_snippets_def Let_def length_near_snippets
        split: list.splits option.splits)
  have "\<forall>s\<in>set (build_sibling_snippets g nid m). \<exists>t. s = truncate_snippet 20 t"
    by (auto simp: build_sibling_snippets_def Let_def split: list.splits option.splits)
  then have "\<forall>s\<in>set (build_sibling_snippets g nid m). length (splitlines_keep s) \<le> 21"
    using truncate_snippet_lines [of 20] by fastforce
  with sib assms show ?thesis
    by (auto simp: build_ai_node_context_def split: option.splits if_splits)
qed

theorem ai_context_bounded_witness:
  "\<exists>ctx. build_ai_node_context play_graph ''t'' [] [] 2 = Inr (Some ctx) \<and> ac_node_id ctx = ''t'' \<and>
     length (ac_siblings ctx) \<le> 4"
proof -
  have "(case build_ai_node_context play_graph ''t'' [] [] 2 of Inl _ \<Rightarrow> False | Inr c \<Rightarrow> c \<noteq> None)" by code_simp
  then obtain ctx where c: "build_ai_node_context play_graph ''t'' [] [] 2 = Inr (Some ctx)"
    by (auto split: sum.splits)
  from ai_context_bounded [OF c] c show ?thesis by auto
qed

end
