(* ===== verification/Remediation.thy ===== *)
theory Remediation
  imports Ledger Scanner AI_Context
begin

text \<open>
  \<open>remediation/graph_engine.py\<close>: the convergence loop of \<open>GraphRemediationEngine\<close> with its
  tier 1 and AI phases, the recording and resolving of violations around rescans, the collection
  of proposals, and \<open>splice_modifications\<close>.

  Parameters: the YAML and report libraries, the registered transforms, the rule bodies, the
  rescan bridge and the AI provider.  The bridge and the provider act on an opaque world state,
  so their answers may differ from call to call.  Concurrent proposals are modelled in the order
  of the nodes: the graph does not change while they run and a provider failure discards the
  whole batch.
\<close>

section \<open>Data\<close>

datatype ai_answer = Answer_fix ai_fix | Answer_none | Answer_provider_error | Answer_exception

record ai_proposal =
  ap_node_id :: string
  ap_file_path :: string
  ap_before :: string
  ap_after :: string
  ap_rule_ids :: "string list"
  ap_explanation :: string
  ap_confidence :: real
  ap_line_start :: int
  ap_line_end :: int
  ap_node_type :: string

record tier1_proposal =
  tp_node_id :: string
  tp_file_path :: string
  tp_before :: string
  tp_after :: string
  tp_rule_ids :: "string list"
  tp_summaries :: "string list"
  tp_line_start :: int
  tp_line_end :: int
  tp_node_type :: string

record file_patch =
  fp_path :: string
  fp_original :: string
  fp_patched :: string
  fp_diff :: string
  fp_rule_ids :: "string list"

record fix_report =
  fr_passes :: nat
  fr_fixed :: nat
  fr_remaining :: "violation list"
  fr_fixed_violations :: "violation list"
  fr_ai_abstained :: "violation list"
  fr_oscillation :: bool
  fr_nodes_modified :: nat
  fr_step_diffs :: "step_diff list"
  fr_ai_proposals :: "ai_proposal list"
  fr_tier1_proposals :: "tier1_proposal list"
  fr_ai_error :: bool

record ('m, 's, 'w, 'r) engine =
  en_lib :: "('m, 's) yaml_lib"
  en_report_lib :: report_lib
  en_registry :: "'m transform registry"
  en_rules :: "'r graph_rule list"
  en_rule_state :: 'r
  en_max_passes :: nat
  en_max_ai_attempts :: nat
  en_rescan_fn :: "('w \<Rightarrow> content_graph \<Rightarrow> string list \<Rightarrow> 'w \<times> violation list) option"
  en_provider :: "('w \<Rightarrow> ai_context \<Rightarrow> 'w \<times> ai_answer) option"
  en_ai_error :: bool

section \<open>Recording and resolving\<close>

text \<open>\<open>defaultdict(list)\<close> of the violations that have a path.\<close>

definition by_node :: "violation list \<Rightarrow> (string, violation list) dict" where
  "by_node vs = group_by (\<lambda>v. vget_str v ''path'') (filter (\<lambda>v. vget_str v ''path'' \<noteq> []) vs) []"

definition snapshot_all :: "('m, 's) yaml_lib \<Rightarrow> int \<Rightarrow> string \<Rightarrow> string \<Rightarrow> string list \<Rightarrow> content_graph \<Rightarrow> content_graph" where
  "snapshot_all L pass phase source ids g = fold (\<lambda>nid. map_node nid (record_state L pass phase source)) ids g"

text \<open>The violations are enriched in place; the caller goes on with the enriched list.\<close>

definition record_violations ::
  "('m, 's) yaml_lib \<Rightarrow> violation list \<Rightarrow> int \<Rightarrow> string \<Rightarrow> string list option \<Rightarrow> content_graph
    \<Rightarrow> content_graph \<times> violation list" where
  "record_violations L vs pass phase dirty g =
     (let vs = enrich_fqcn_targets vs;
          ids = map fst (by_node vs);
          g = snapshot_all L pass phase [] ids g;
          g = (case dirty of
                 None \<Rightarrow> g
               | Some d \<Rightarrow> snapshot_all L pass phase [] (filter (\<lambda>i. i \<notin> set ids) d) g)
      in (register_violations vs pass g, vs))"

definition remaining_rules :: "violation list \<Rightarrow> string \<Rightarrow> string list" where
  "remaining_rules vs nid =
     (case dict_get (by_node vs) nid of None \<Rightarrow> [] | Some nvs \<Rightarrow> map (\<lambda>v. bare_id v) nvs)"

definition resolve_dirty_violations ::
  "violation list \<Rightarrow> string list \<Rightarrow> string \<Rightarrow> int \<Rightarrow> vstatus \<Rightarrow> content_graph \<Rightarrow> content_graph" where
  "resolve_dirty_violations vs dirty fixed_by pass status g =
     fold (\<lambda>nid g. fst (resolve_violations nid (remaining_rules vs nid) fixed_by pass status g)) dirty g"

definition run_rescan ::
  "('m, 's, 'w, 'r) engine \<Rightarrow> 'w \<Rightarrow> content_graph \<Rightarrow> string list \<Rightarrow> 'w \<times> violation list" where
  "run_rescan E w g effective =
     (case en_rescan_fn E of
        Some f \<Rightarrow> f w g effective
      | None \<Rightarrow> (w, fst (graph_report_to_violations (en_lib E) (en_report_lib E)
                        (rescan_dirty (en_rule_state E) g (en_rules E) effective True))))"

definition rescan_and_record ::
  "('m, 's, 'w, 'r) engine \<Rightarrow> int \<Rightarrow> string option \<Rightarrow> vstatus \<Rightarrow> 'w \<times> content_graph \<Rightarrow> 'w \<times> content_graph" where
  "rescan_and_record E pass fixed_by status st =
     (let (w, g) = st;
          effective = expand_dirty_node_ids g (en_rules E) (cg_dirty g);
          (w, vs) = run_rescan E w g effective;
          (g, vs) = record_violations (en_lib E) vs pass ''scanned'' (Some effective) g;
          g = (case fixed_by of None \<Rightarrow> g | Some b \<Rightarrow> resolve_dirty_violations vs effective b pass status g)
      in (w, clear_dirty g))"

section \<open>Tier 1\<close>

fun apply_tier1_loop ::
  "('m, 's) yaml_lib \<Rightarrow> 'm transform registry \<Rightarrow> violation list \<Rightarrow> content_graph \<Rightarrow> content_graph \<times> nat" where
  "apply_tier1_loop L reg [] g = (g, 0)"
| "apply_tier1_loop L reg (v # vs) g =
     (case get_node_transform reg (bare_id v) of
        None \<Rightarrow> apply_tier1_loop L reg vs g
      | Some f \<Rightarrow>
          (let (g, applied) = apply_transform L (vget_str v ''path'') f v g;
               (g, n) = apply_tier1_loop L reg vs g
           in (g, (if applied then 1 else 0) + n)))"

definition apply_tier1 ::
  "('m, 's, 'w, 'r) engine \<Rightarrow> violation list \<Rightarrow> int \<Rightarrow> content_graph \<Rightarrow> content_graph \<times> nat" where
  "apply_tier1 E tier1 pass g =
     (let (g, applied) = apply_tier1_loop (en_lib E) (en_registry E) tier1 g
      in (snapshot_all (en_lib E) pass ''transformed'' ''deterministic'' (cg_dirty g) g, applied))"

section \<open>The AI phase\<close>

datatype proposed = Prop_none | Prop_failed | Prop_abort | Prop_fix ai_fix string

definition propose_one ::
  "('w \<Rightarrow> ai_context \<Rightarrow> 'w \<times> ai_answer) \<Rightarrow> content_graph \<Rightarrow> (string, string) dict \<Rightarrow> 'w
    \<Rightarrow> string \<Rightarrow> violation list \<Rightarrow> 'w \<times> proposed" where
  "propose_one provider g feedback w nid vs =
     (case get_node g nid of
        None \<Rightarrow> (w, Prop_none)
      | Some n \<Rightarrow>
          (case build_ai_node_context g nid vs (case dict_get feedback nid of None \<Rightarrow> [] | Some f \<Rightarrow> f) 2 of
             Inl _ \<Rightarrow> (w, Prop_failed)
           | Inr None \<Rightarrow> (w, Prop_none)
           | Inr (Some ctx) \<Rightarrow>
               (let (w, answer) = provider w ctx
                in (w, case answer of
                         Answer_provider_error \<Rightarrow> Prop_abort
                       | Answer_exception \<Rightarrow> Prop_failed
                       | Answer_none \<Rightarrow> Prop_none
                       | Answer_fix fx \<Rightarrow>
                           (if af_snippet fx = [] then Prop_none
                            else if strip (af_snippet fx) = strip (cn_yaml n) then Prop_none
                            else Prop_fix fx (cn_yaml n))))))"

fun propose_all ::
  "('w \<Rightarrow> ai_context \<Rightarrow> 'w \<times> ai_answer) \<Rightarrow> content_graph \<Rightarrow> (string, string) dict \<Rightarrow> 'w
    \<Rightarrow> (string, violation list) dict \<Rightarrow> 'w \<times> (string \<times> proposed) list" where
  "propose_all provider g feedback w [] = (w, [])"
| "propose_all provider g feedback w ((nid, vs) # rest) =
     (let (w, r) = propose_one provider g feedback w nid vs;
          (w, rs) = propose_all provider g feedback w rest
      in (w, (nid, r) # rs))"

definition skipped_reasons :: "ai_skipped list \<Rightarrow> (string, string \<times> string) dict" where
  "skipped_reasons ss =
     fold (\<lambda>s. dict_set (normalize_rule_id (as_rule_id s)) (as_reason s, as_suggestion s)) ss []"

text \<open>Applying one accepted fix: the new graph and the proposal, if the text changed.\<close>

definition apply_fix ::
  "('m, 's) yaml_lib \<Rightarrow> int \<Rightarrow> string \<Rightarrow> ai_fix \<Rightarrow> string \<Rightarrow> content_graph \<Rightarrow> content_graph \<times> ai_proposal list" where
  "apply_fix L pass nid fx before_yaml g =
     (case get_node g nid of
        None \<Rightarrow> (g, [])
      | Some n \<Rightarrow>
          (let (g1, applied) = apply_yaml L nid (af_snippet fx) g
           in if \<not> applied then (g, [])
              else (let g2 = map_node nid (record_state L pass ''transformed'' ''ai'') g1;
                        after = (case get_node g2 nid of None \<Rightarrow> [] | Some m \<Rightarrow> cn_yaml m);
                        p = \<lparr>ap_node_id = nid, ap_file_path = cn_file_path n, ap_before = before_yaml,
                             ap_after = after, ap_rule_ids = af_rule_ids fx,
                             ap_explanation = af_explanation fx, ap_confidence = af_confidence fx,
                             ap_line_start = cn_line_start n, ap_line_end = cn_line_end n,
                             ap_node_type = node_type_value (node_kind n)\<rparr>;
                        reasons = skipped_reasons (af_skipped fx);
                        g3 = (if af_skipped fx = [] then g2
                              else fst (abstain_violations nid (map fst reasons) (Some reasons) g2))
                    in (g3, [p]))))"

fun apply_fixes ::
  "('m, 's) yaml_lib \<Rightarrow> int \<Rightarrow> (string \<times> proposed) list \<Rightarrow> content_graph \<Rightarrow> content_graph \<times> ai_proposal list" where
  "apply_fixes L pass [] g = (g, [])"
| "apply_fixes L pass ((nid, r) # rs) g =
     (case r of
        Prop_fix fx before_yaml \<Rightarrow>
          (let (g, ps) = apply_fix L pass nid fx before_yaml g; (g, qs) = apply_fixes L pass rs g in (g, ps @ qs))
      | _ \<Rightarrow> apply_fixes L pass rs g)"

definition abstain_unproposed ::
  "string list \<Rightarrow> (string, violation list) dict \<Rightarrow> content_graph \<Rightarrow> content_graph" where
  "abstain_unproposed settled groups g =
     fold (\<lambda>(nid, vs) g. fst (abstain_violations nid (map (\<lambda>v. bare_id v) vs) None g))
       (filter (\<lambda>(nid, vs). nid \<notin> set settled) groups) g"

text \<open>The last component says that the provider failed and the batch was dropped.\<close>

definition apply_ai_transforms ::
  "('m, 's) yaml_lib \<Rightarrow> ('w \<Rightarrow> ai_context \<Rightarrow> 'w \<times> ai_answer) \<Rightarrow> violation list \<Rightarrow> int
    \<Rightarrow> (string, string) dict \<Rightarrow> 'w \<Rightarrow> content_graph \<Rightarrow> 'w \<times> content_graph \<times> ai_proposal list \<times> bool" where
  "apply_ai_transforms L provider tier2 pass feedback w g =
     (let groups = by_node tier2;
          (w, results) = propose_all provider g feedback w groups
      in if Prop_abort \<in> snd ` set results then (w, g, [], True)
         else (let (g, ps) = apply_fixes L pass results g;
                   settled = map ap_node_id ps @ map fst (filter (\<lambda>(_, r). r = Prop_failed) results)
               in (w, abstain_unproposed settled groups g, ps, False)))"

definition build_ai_feedback :: "violation list \<Rightarrow> (string, string) dict" where
  "build_ai_feedback tier2 =
     dict_map (\<lambda>_ vs. join [LF]
         (''Your previous fix introduced or did not resolve these violations:'' #
          map (\<lambda>v. ''- ['' @ vget_str v ''rule_id'' @ '']: '' @ vget_str v ''message'') vs))
       (by_node tier2)"

section \<open>The convergence loop\<close>

record options =
  op_interactive :: bool
  op_skip_ai :: bool
  op_skip_tier1 :: bool

text \<open>
  The local variables of \<open>remediate\<close> and the engine's \<open>_ai_error\<close>, which outlives a call
  (\<open>en_ai_error\<close> is its value on entry); \<open>rs_prev_count = None\<close> is the initial infinity.  The last
  field keeps the batches handed to the AI phase; the code does not have it.
\<close>

record 'w loop_state =
  rs_world :: 'w
  rs_graph :: content_graph
  rs_violations :: "violation list"
  rs_prev_count :: "nat option"
  rs_passes :: nat
  rs_proposals :: "ai_proposal list"
  rs_oscillation :: bool
  rs_ai_attempts :: nat
  rs_provider_failed :: bool
  rs_ai_error :: bool
  rs_feedback :: "(string, string) dict"
  rs_batches :: "violation list list"

text \<open>
  \<open>partition_violations\<close> stamps the dictionaries it is given.  The initial violations are the
  objects the ledger holds, so the first partition also stamps the ledger's copies (registration always puts
  the new object into the record of its key, so equal dictionaries are the same object here);
  later lists are fresh copies of \<open>query_violations\<close>.
\<close>

definition restamp_record :: "'f registry \<Rightarrow> violation list \<Rightarrow> violation_record \<Rightarrow> violation_record" where
  "restamp_record reg vs r =
     (if vr_violation r \<in> set vs then r\<lparr>vr_violation := snd (route reg (vr_violation r))\<rparr> else r)"

definition restamp_ledger :: "'f registry \<Rightarrow> violation list \<Rightarrow> content_graph \<Rightarrow> content_graph" where
  "restamp_ledger reg vs g = map_all_nodes (map_records (restamp_record reg vs)) g"

definition resolve_status :: "options \<Rightarrow> vstatus" where
  "resolve_status op = (if op_interactive op then V_pending_review else V_fixed)"

definition runs_ai :: "('m, 's, 'w, 'r) engine \<Rightarrow> options \<Rightarrow> bool" where
  "runs_ai E op \<longleftrightarrow> en_provider E \<noteq> None \<and> \<not> op_skip_ai op"

definition do_rescan ::
  "('m, 's, 'w, 'r) engine \<Rightarrow> nat \<Rightarrow> string \<Rightarrow> vstatus \<Rightarrow> 'w loop_state \<Rightarrow> 'w loop_state" where
  "do_rescan E p fixed_by status st =
     (let (w, g) = rescan_and_record E (int p) (Some fixed_by) status (rs_world st, rs_graph st)
      in st\<lparr>rs_world := w, rs_graph := g, rs_violations := collect_violations g\<rparr>)"

text \<open>The end of a pass: stop when converged or when nothing is left to try.\<close>

definition end_of_pass ::
  "('m, 's, 'w, 'r) engine \<Rightarrow> options \<Rightarrow> violation list \<Rightarrow> violation list \<Rightarrow> bool \<Rightarrow> 'w loop_state
    \<Rightarrow> bool \<times> 'w loop_state" where
  "end_of_pass E op tier1 tier2 stalled st =
     (if tier1 = [] \<and> \<not> stalled \<and> tier2 = [] then (True, st)
      else (let exhausted = \<not> runs_ai E op \<or> rs_provider_failed st \<or> rs_ai_attempts st \<ge> en_max_ai_attempts E
            in ((tier1 = [] \<or> stalled) \<and> exhausted, st)))"

text \<open>Phases B and C.  The boolean result says whether the loop stops.\<close>

definition post_ai ::
  "('m, 's, 'w, 'r) engine \<Rightarrow> options \<Rightarrow> nat \<Rightarrow> 'w loop_state \<Rightarrow> 'w loop_state \<times> violation list" where
  "post_ai E op p st =
     (let st = do_rescan E p ''ai'' V_proposed st;
          (new1, new2, _) = partition_violations (rs_violations st) (en_registry E)
      in if new1 = [] then (st, new2)
         else (let (g, _) = apply_tier1 E new1 (int p) (rs_graph st);
                   st = do_rescan E p ''deterministic'' (resolve_status op) (st\<lparr>rs_graph := g\<rparr>);
                   (_, new2, _) = partition_violations (rs_violations st) (en_registry E)
               in (st, new2)))"

definition call_ai ::
  "('m, 's, 'w, 'r) engine \<Rightarrow> ('w \<Rightarrow> ai_context \<Rightarrow> 'w \<times> ai_answer) \<Rightarrow> nat \<Rightarrow> violation list \<Rightarrow> 'w loop_state
    \<Rightarrow> 'w loop_state" where
  "call_ai E provider p tier2 st =
     (let (w, g, ps, failed) =
            apply_ai_transforms (en_lib E) provider tier2 (int p) (rs_feedback st) (rs_world st) (rs_graph st)
      in st\<lparr>rs_world := w, rs_graph := g, rs_ai_attempts := Suc (rs_ai_attempts st),
            rs_proposals := rs_proposals st @ ps, rs_ai_error := rs_ai_error st \<or> failed,
            rs_provider_failed := rs_ai_error st \<or> failed, rs_batches := rs_batches st @ [tier2]\<rparr>)"

definition ai_phase ::
  "('m, 's, 'w, 'r) engine \<Rightarrow> options \<Rightarrow> nat \<Rightarrow> violation list \<Rightarrow> violation list \<Rightarrow> bool \<Rightarrow> 'w loop_state
    \<Rightarrow> bool \<times> 'w loop_state" where
  "ai_phase E op p tier1 tier2 stalled st =
     (case en_provider E of
        Some provider \<Rightarrow>
          (if (tier1 = [] \<or> stalled) \<and> tier2 \<noteq> [] \<and> \<not> op_skip_ai op \<and> \<not> rs_provider_failed st
              \<and> rs_ai_attempts st < en_max_ai_attempts E
           then (let st = call_ai E provider p tier2 st
                 in if cg_dirty (rs_graph st) \<noteq> []
                    then (let (st, new2) = post_ai E op p st
                          in if new2 \<noteq> [] then (False, st\<lparr>rs_feedback := build_ai_feedback new2\<rparr>)
                             else end_of_pass E op tier1 tier2 stalled st)
                    else end_of_pass E op tier1 tier2 stalled st)
           else end_of_pass E op tier1 tier2 stalled st)
      | None \<Rightarrow> end_of_pass E op tier1 tier2 stalled st)"

text \<open>Phase A and the pass as a whole.\<close>

definition converging_pass ::
  "('m, 's, 'w, 'r) engine \<Rightarrow> options \<Rightarrow> nat \<Rightarrow> 'w loop_state \<Rightarrow> bool \<times> 'w loop_state" where
  "converging_pass E op p st =
     (let st = do_rescan E p ''deterministic'' (resolve_status op) st;
          (new1, new2, _) = partition_violations (rs_violations st) (en_registry E);
          stuck = (case rs_prev_count st of None \<Rightarrow> False | Some c \<Rightarrow> length new1 \<ge> c)
      in if stuck then (True, st\<lparr>rs_oscillation := True\<rparr>)
         else (let st = st\<lparr>rs_prev_count := Some (length new1)\<rparr>
               in if new1 \<noteq> [] then (False, st) else ai_phase E op p new1 new2 False st))"

definition begin_pass :: "('m, 's, 'w, 'r) engine \<Rightarrow> nat \<Rightarrow> 'w loop_state \<Rightarrow> 'w loop_state" where
  "begin_pass E p st =
     st\<lparr>rs_passes := p, rs_violations := map (\<lambda>v. snd (route (en_registry E) v)) (rs_violations st),
        rs_graph := (if p = 1 then restamp_ledger (en_registry E) (rs_violations st) (rs_graph st) else rs_graph st)\<rparr>"

definition one_pass ::
  "('m, 's, 'w, 'r) engine \<Rightarrow> options \<Rightarrow> nat \<Rightarrow> 'w loop_state \<Rightarrow> bool \<times> 'w loop_state" where
  "one_pass E op p st =
     (let (tier1, tier2, _) = partition_violations (rs_violations st) (en_registry E);
          st = begin_pass E p st
      in if tier1 \<noteq> [] \<and> op_skip_tier1 op
         then (if tier2 = [] then (True, st) else ai_phase E op p tier1 tier2 True st)
         else if tier1 \<noteq> []
         then (let (g, applied) = apply_tier1 E tier1 (int p) (rs_graph st);
                   st = st\<lparr>rs_graph := g\<rparr>
               in if applied = 0
                  then (let promoted = filter is_ai_escalatable tier1; tier2 = tier2 @ promoted
                        in if promoted = [] \<and> tier2 = [] then (True, st)
                           else ai_phase E op p tier1 tier2 True st)
                  else converging_pass E op p st)
         else ai_phase E op p tier1 tier2 False st)"

fun run_passes ::
  "('m, 's, 'w, 'r) engine \<Rightarrow> options \<Rightarrow> nat \<Rightarrow> nat \<Rightarrow> 'w loop_state \<Rightarrow> 'w loop_state" where
  "run_passes E op 0 p st = st"
| "run_passes E op (Suc k) p st =
     (let (stop, st) = one_pass E op p st in if stop then st else run_passes E op k (Suc p) st)"

definition initial_state ::
  "('m, 's, 'w, 'r) engine \<Rightarrow> violation list option \<Rightarrow> 'w \<Rightarrow> content_graph \<Rightarrow> 'w loop_state" where
  "initial_state E initial w g =
     (let vs = (case initial of
                  Some vs \<Rightarrow> vs
                | None \<Rightarrow> fst (graph_report_to_violations (en_lib E) (en_report_lib E)
                              (scan (en_rule_state E) g (en_rules E) True [])));
          (g, vs) = record_violations (en_lib E) vs 0 ''scanned'' None g
      in \<lparr>rs_world = w, rs_graph = g, rs_violations = vs, rs_prev_count = None, rs_passes = 0,
          rs_proposals = [], rs_oscillation = False, rs_ai_attempts = 0, rs_provider_failed = False, rs_ai_error = en_ai_error E,
          rs_feedback = [], rs_batches = []\<rparr>)"

definition converge ::
  "('m, 's, 'w, 'r) engine \<Rightarrow> options \<Rightarrow> violation list option \<Rightarrow> 'w \<Rightarrow> content_graph \<Rightarrow> 'w loop_state" where
  "converge E op initial w g = run_passes E op (en_max_passes E) 1 (initial_state E initial w g)"

section \<open>The report\<close>

definition summary_line :: "violation \<Rightarrow> string list" where
  "summary_line v =
     (let rid = vget_or_str v ''rule_id''; msg = strip (vget_or_str v ''message''); sev = strip (vget_or_str v ''severity'')
      in if msg = [] then []
         else if rid \<noteq> [] \<and> sev \<noteq> [] then [''['' @ rid @ ''|'' @ sev @ '']: '' @ msg]
         else if rid \<noteq> [] then [''['' @ rid @ '']: '' @ msg]
         else [msg])"

definition tier1_proposal_of :: "content_node \<Rightarrow> tier1_proposal list" where
  "tier1_proposal_of n =
     (let prog = cn_progression n
      in if length prog < 2 then []
         else if \<not> list_ex (\<lambda>s. \<not> ns_approved s \<and> ns_source s = ''deterministic'') prog then []
         else (let baseline = (case last_approved prog of Some s \<Rightarrow> s | None \<Rightarrow> hd prog); after = last prog
               in if ns_hash baseline = ns_hash after then []
                  else (let rs = filter (\<lambda>r. vr_status r = V_pending_review \<and> vr_fixed_by r = Some ''deterministic'')
                                   (map snd (cn_ledger n));
                            vs = map vr_violation rs
                        in [\<lparr>tp_node_id = node_id n, tp_file_path = cn_file_path n,
                             tp_before = ns_yaml baseline, tp_after = ns_yaml after,
                             tp_rule_ids = nub (filter (\<lambda>i. i \<noteq> []) (map (\<lambda>v. vget_or_str v ''rule_id'') vs)),
                             tp_summaries = concat (map summary_line vs),
                             tp_line_start = cn_line_start n, tp_line_end = cn_line_end n,
                             tp_node_type = node_type_value (node_kind n)\<rparr>])))"

definition collect_tier1_proposals :: "content_graph \<Rightarrow> tier1_proposal list" where
  "collect_tier1_proposals g = concat (map tier1_proposal_of (graph_nodes g))"

definition count_modified_nodes :: "content_graph \<Rightarrow> nat" where
  "count_modified_nodes g =
     length (filter (\<lambda>n. length (cn_progression n) \<ge> 2 \<and>
                         ns_hash (hd (cn_progression n)) \<noteq> ns_hash (last (cn_progression n))) (graph_nodes g))"

definition finish :: "options \<Rightarrow> content_graph \<Rightarrow> content_graph" where
  "finish op g = (if op_interactive op then g else fst (approve_pending None (Some ''deterministic'') g))"

definition remediate ::
  "('m, 's, 'w, 'r) engine \<Rightarrow> options \<Rightarrow> violation list option \<Rightarrow> 'w \<Rightarrow> content_graph
    \<Rightarrow> 'w \<times> content_graph \<times> fix_report" where
  "remediate E op initial w g =
     (let st = converge E op initial w g;
          g = finish op (rs_graph st);
          fixed = query_violations (Some V_fixed) None g @
                  (if op_interactive op then query_violations (Some V_pending_review) None g else []);
          abstained = query_violations (Some V_ai_abstained) None g
      in (rs_world st, g,
          \<lparr>fr_passes = rs_passes st, fr_fixed = length fixed,
           fr_remaining = query_violations (Some V_open) None g @ abstained,
           fr_fixed_violations = fixed, fr_ai_abstained = abstained,
           fr_oscillation = rs_oscillation st, fr_nodes_modified = count_modified_nodes g,
           fr_step_diffs = collect_step_diffs (en_lib E) g, fr_ai_proposals = rs_proposals st,
           fr_tier1_proposals = (if op_interactive op then collect_tier1_proposals g else []),
           fr_ai_error = rs_ai_error st\<rparr>))"

section \<open>Splicing\<close>

definition effective_state :: "bool \<Rightarrow> node_state list \<Rightarrow> node_state" where
  "effective_state include_pending prog =
     (if include_pending then last prog
      else case last_approved prog of Some s \<Rightarrow> s | None \<Rightarrow> hd prog)"

definition node_edit :: "bool \<Rightarrow> content_node \<Rightarrow> edit list" where
  "node_edit include_pending n =
     (let prog = cn_progression n
      in if length prog < 2 then []
         else if cn_file_path n = [] \<or> cn_yaml n = [] then []
         else if cn_line_start n \<le> 0 \<or> cn_line_end n \<le> 0 then []
         else if cn_line_end n < cn_line_start n then []
         else (let effective = effective_state include_pending prog
               in if ns_hash (hd prog) = ns_hash effective then []
                  else [\<lparr>ed_start = nat (cn_line_start n), ed_end = nat (cn_line_end n),
                         ed_text = ns_yaml effective, ed_rules = map (\<lambda>(k, r). snd (vr_key r)) (cn_ledger n)\<rparr>]))"

definition edits_by_file :: "bool \<Rightarrow> content_graph \<Rightarrow> (string, edit list) dict" where
  "edits_by_file include_pending g =
     dict_map (\<lambda>_. map snd)
       (group_by fst (concat (map (\<lambda>n. map (Pair (cn_file_path n)) (node_edit include_pending n)) (graph_nodes g))) [])"

definition patch_file :: "('m, 's) yaml_lib \<Rightarrow> string \<Rightarrow> string \<Rightarrow> edit list \<Rightarrow> file_patch list" where
  "patch_file L path original edits =
     (let lines = ensure_newline (splitlines_keep original);
          edits = sort_edits edits;
          patched = concat (splice_all edits lines)
      in if patched = original then []
         else [\<lparr>fp_path = path, fp_original = original, fp_patched = patched,
                fp_diff = lib_diff L (splitlines_keep original) (splitlines_keep patched) (''a/'' @ path) (''b/'' @ path),
                fp_rule_ids = concat (map ed_rules edits)\<rparr>])"

definition splice_modifications ::
  "('m, 's) yaml_lib \<Rightarrow> content_graph \<Rightarrow> (string, string) dict \<Rightarrow> bool \<Rightarrow> file_patch list" where
  "splice_modifications L g originals include_pending =
     concat (map (\<lambda>(path, edits). case dict_get originals path of None \<Rightarrow> [] | Some o' \<Rightarrow> patch_file L path o' edits)
               (edits_by_file include_pending g))"

end
