(* ===== verification/Violation_Proto.thy ===== *)
theory Violation_Proto
  imports Violations Severity
begin

text \<open>
  \<open>daemon/violation_convert.py\<close> with the table of \<open>version_defaults.py\<close>: violation dictionaries
  to protobuf \<open>Violation\<close> messages and back.  A \<open>Severity\<close> member of a dictionary is the integer
  it is (\<open>IntEnum\<close>).  The JSON coding of the three audit keys (\<open>graph/audit_metadata.py\<close>) is a
  parameter: their payloads are nested structures that the flat dictionaries here do not hold.
\<close>

section \<open>The message\<close>

datatype proto_line = Line_unset | Line_at int | Line_range int int

record proto_violation =
  pv_rule_id :: string
  pv_severity :: int
  pv_message :: string
  pv_file :: string
  pv_line :: proto_line
  pv_path :: string
  pv_class :: int
  pv_resolution :: int
  pv_scope :: int
  pv_source :: string
  pv_original_yaml :: string
  pv_fixed_yaml :: string
  pv_node_line_start :: int
  pv_node_type :: string
  pv_co_fixes :: "string list"
  pv_affected_children :: int
  pv_metadata :: "(string, string) dict"

record audit_json =
  aj_serialize :: "string \<Rightarrow> vval \<Rightarrow> string option"
  aj_parse :: "string \<Rightarrow> vval"

section \<open>Tables\<close>

definition METADATA_KEYS :: "string list" where
  "METADATA_KEYS =
     [''resolved_fqcn'', ''original_module'', ''fqcn'', ''with_key'', ''redirect_chain'', ''removal_msg'',
      ''builtin_alternative'', ''collection_fqcn'', ''collection_version'', ''cve_id'', ''dep_package'',
      ''dep_installed_version'', ''dep_fix_versions'', ''ai_reason'', ''ai_suggestion'',
      ''ansible_core_version'', ''variables_used'', ''variable_set'', ''inbound_src'']"

definition JSON_METADATA_KEYS :: "string list" where
  "JSON_METADATA_KEYS = [''variables_used'', ''variable_set'', ''inbound_src'']"

definition REMEDIATION_CLASS_TO_PROTO :: "(string, int) dict" where
  "REMEDIATION_CLASS_TO_PROTO =
     [(class_value AUTO_FIXABLE, 1), (class_value AI_CANDIDATE, 2), (class_value MANUAL_REVIEW, 3)]"

definition PROTO_TO_REMEDIATION_CLASS :: "(int, string) dict" where
  "PROTO_TO_REMEDIATION_CLASS =
     [(0, class_value AI_CANDIDATE), (1, class_value AUTO_FIXABLE), (2, class_value AI_CANDIDATE),
      (3, class_value MANUAL_REVIEW)]"

definition RESOLUTION_TO_PROTO :: "(string, int) dict" where
  "RESOLUTION_TO_PROTO =
     [(resolution_value UNRESOLVED, 1), (resolution_value TRANSFORM_FAILED, 2),
      (resolution_value OSCILLATION, 3), (resolution_value AI_PROPOSED, 4), (resolution_value AI_FAILED, 5),
      (resolution_value AI_LOW_CONFIDENCE, 6), (resolution_value USER_REJECTED, 7),
      (resolution_value NEEDS_CROSS_FILE, 8), (resolution_value MANUAL, 9),
      (resolution_value INFORMATIONAL, 10), (resolution_value AI_ABSTAINED, 11)]"

definition PROTO_TO_RESOLUTION :: "(int, string) dict" where
  "PROTO_TO_RESOLUTION =
     [(0, resolution_value UNRESOLVED), (1, resolution_value UNRESOLVED), (2, resolution_value TRANSFORM_FAILED),
      (3, resolution_value OSCILLATION), (4, resolution_value AI_PROPOSED), (5, resolution_value AI_FAILED),
      (6, resolution_value AI_LOW_CONFIDENCE), (7, resolution_value USER_REJECTED),
      (8, resolution_value NEEDS_CROSS_FILE), (9, resolution_value MANUAL),
      (10, resolution_value INFORMATIONAL), (11, resolution_value AI_ABSTAINED)]"

definition SCOPE_TO_PROTO :: "(string, int) dict" where
  "SCOPE_TO_PROTO =
     [(scope_value RS_TASK, 1), (scope_value RS_BLOCK, 2), (scope_value RS_PLAY, 3), (scope_value RS_PLAYBOOK, 4),
      (scope_value RS_ROLE, 5), (scope_value RS_INVENTORY, 6), (scope_value RS_COLLECTION, 7)]"

definition PROTO_TO_SCOPE :: "(int, string) dict" where
  "PROTO_TO_SCOPE =
     [(0, scope_value RS_TASK), (1, scope_value RS_TASK), (2, scope_value RS_BLOCK), (3, scope_value RS_PLAY),
      (4, scope_value RS_PLAYBOOK), (5, scope_value RS_ROLE), (6, scope_value RS_INVENTORY),
      (7, scope_value RS_COLLECTION)]"

definition VERSION_DEFAULTS :: "(string, string) dict" where
  "VERSION_DEFAULTS =
     [(''M001'', ''>=2.9''), (''M002'', ''>=2.9''), (''M003'', ''>=2.9''), (''M004'', ''>=2.9''), (''M048'', ''>=2.9''),
      (''M010'', ''>=2.18''), (''M005'', ''>=2.19''), (''M006'', ''>=2.19''), (''M008'', ''>=2.19''),
      (''M009'', ''>=2.19''), (''M011'', ''>=2.19''), (''M018'', ''>=2.21''), (''M023'', ''>=2.22''),
      (''M031'', ''>=2.22''), (''M014'', ''>=2.24''), (''M015'', ''>=2.23''), (''M016'', ''>=2.23''),
      (''M017'', ''>=2.23''), (''M019'', ''>=2.23''), (''M020'', ''>=2.23''), (''M021'', ''>=2.23''),
      (''M022'', ''>=2.23''), (''M024'', ''>=2.24''), (''M025'', ''>=2.23''), (''M026'', ''>=2.23''),
      (''M027'', ''>=2.23''), (''M028'', ''>=2.23''), (''M029'', ''>=2.23''), (''M030'', ''>=2.23''),
      (''M047'', ''>=2.23'')]"

definition get_version_spec_str :: "string \<Rightarrow> string" where
  "get_version_spec_str rule_id = (case dict_get VERSION_DEFAULTS rule_id of Some s \<Rightarrow> s | None \<Rightarrow> [])"

text \<open>\<open>d.get(k, default)\<close>.\<close>

definition get_default :: "('k, 'v) dict \<Rightarrow> 'k \<Rightarrow> 'v \<Rightarrow> 'v" where
  "get_default d k x = (case dict_get d k of Some v \<Rightarrow> v | None \<Rightarrow> x)"

section \<open>From dictionary to message\<close>

definition resolve_severity :: "violation \<Rightarrow> int" where
  "resolve_severity v =
     (case vget v ''severity'' of
        VNone \<Rightarrow> severity_to_proto (get_severity (vget_or_str v ''rule_id''))
      | VInt i \<Rightarrow> severity_to_proto (severity_from_proto i)
      | VBool b \<Rightarrow> severity_to_proto (severity_from_proto (if b then 1 else 0))
      | x \<Rightarrow> severity_to_proto (severity_from_label (py_str x)))"

text \<open>\<open>int(parts[i])\<close> of the text form of a line: a value, or the handled \<open>ValueError\<close>.\<close>

definition line_of_text :: "string \<Rightarrow> proto_line" where
  "line_of_text s =
     (case split_on (CHR ''-'') (dropWhile (\<lambda>c. c = CHR ''L'') s) of
        a # b # _ \<Rightarrow>
          (case parse_int a of
             None \<Rightarrow> Line_unset
           | Some i \<Rightarrow> (case parse_int b of None \<Rightarrow> Line_unset | Some j \<Rightarrow> Line_range i j))
      | [a] \<Rightarrow> (case parse_int a of None \<Rightarrow> Line_unset | Some i \<Rightarrow> Line_at i)
      | [] \<Rightarrow> Line_unset)"

definition line_of :: "vval \<Rightarrow> proto_line" where
  "line_of x =
     (case x of
        VInts (a # b # _) \<Rightarrow> Line_range a b
      | VInt i \<Rightarrow> Line_at i
      | VBool b \<Rightarrow> Line_at (if b then 1 else 0)
      | VStr s \<Rightarrow> (if s = [] then Line_unset else line_of_text s)
      | _ \<Rightarrow> Line_unset)"

text \<open>\<open>int(v.get("node_line_start") or 0)\<close>; the key holds an integer when it is there.\<close>

definition int_or_zero :: "vval \<Rightarrow> int" where
  "int_or_zero x = (case x of VInt i \<Rightarrow> i | VBool b \<Rightarrow> (if b then 1 else 0) | _ \<Rightarrow> 0)"

definition list_of :: "vval \<Rightarrow> string list" where
  "list_of x = (case x of VStrs ss \<Rightarrow> ss | VInts is \<Rightarrow> map show_int is | _ \<Rightarrow> [])"

definition metadata_value :: "audit_json \<Rightarrow> string \<Rightarrow> vval \<Rightarrow> string option" where
  "metadata_value J key x =
     (if x = VNone then None
      else if key \<in> set JSON_METADATA_KEYS then aj_serialize J key x
      else (case x of
              VStrs ss \<Rightarrow> Some (join '','' ss)
            | VInts is \<Rightarrow> Some (join '','' (map show_int is))
            | _ \<Rightarrow> Some (py_str x)))"

definition metadata_of :: "audit_json \<Rightarrow> violation \<Rightarrow> (string, string) dict" where
  "metadata_of J v =
     (let md = concat (map (\<lambda>key. case metadata_value J key (vget v key) of None \<Rightarrow> [] | Some s \<Rightarrow> [(key, s)]) METADATA_KEYS);
          rule_id = vget_or_str v ''rule_id''
      in if get_default md ''ansible_core_version'' [] = [] \<and> get_version_spec_str rule_id \<noteq> []
         then dict_set ''ansible_core_version'' (get_version_spec_str rule_id) md else md)"

definition violation_dict_to_proto :: "audit_json \<Rightarrow> violation \<Rightarrow> proto_violation" where
  "violation_dict_to_proto J v =
     \<lparr>pv_rule_id = vget_or_str v ''rule_id'',
      pv_severity = resolve_severity v,
      pv_message = vget_or_str v ''message'',
      pv_file = vget_or_str v ''file'',
      pv_line = line_of (vget v ''line''),
      pv_path = vget_or_str v ''path'',
      pv_class = get_default REMEDIATION_CLASS_TO_PROTO
                   (to_str_value (vget v ''remediation_class'') (class_value AI_CANDIDATE)) 2,
      pv_resolution = get_default RESOLUTION_TO_PROTO
                   (to_str_value (vget v ''remediation_resolution'') (resolution_value UNRESOLVED)) 1,
      pv_scope = get_default SCOPE_TO_PROTO (to_str_value (vget v ''scope'') (scope_value RS_TASK)) 1,
      pv_source = vget_or_str v ''source'',
      pv_original_yaml = vget_or_str v ''original_yaml'',
      pv_fixed_yaml = vget_or_str v ''fixed_yaml'',
      pv_node_line_start = int_or_zero (vget v ''node_line_start''),
      pv_node_type = vget_or_str v ''node_type'',
      pv_co_fixes = list_of (vget v ''co_fixes''),
      pv_affected_children = (let n = int_or_zero (vget v ''affected_children'') in if n > 0 then n else 0),
      pv_metadata = metadata_of J v\<rparr>"

section \<open>From message to dictionary\<close>

definition line_value :: "proto_line \<Rightarrow> vval" where
  "line_value l = (case l of Line_unset \<Rightarrow> VNone | Line_at i \<Rightarrow> VInt i | Line_range i j \<Rightarrow> VInts [i, j])"

definition module_fqcn :: "(string, string) dict \<Rightarrow> string" where
  "module_fqcn md =
     (case filter (\<lambda>s. s \<noteq> []) (map (\<lambda>k. get_default md k []) [''resolved_fqcn'', ''original_module'', ''fqcn'']) of
        s # _ \<Rightarrow> s | [] \<Rightarrow> [])"

definition metadata_vval :: "audit_json \<Rightarrow> string \<Rightarrow> string \<Rightarrow> vval" where
  "metadata_vval J key s =
     (if key = ''redirect_chain'' then VStrs (split_on (CHR '','') s)
      else if key \<in> set JSON_METADATA_KEYS then aj_parse J s
      else VStr s)"

definition add_metadata :: "audit_json \<Rightarrow> string \<times> string \<Rightarrow> violation \<Rightarrow> violation" where
  "add_metadata J kv v =
     (if fst kv \<in> set METADATA_KEYS \<and> snd kv \<noteq> [] then dict_set (fst kv) (metadata_vval J (fst kv) (snd kv)) v else v)"

definition proto_fields :: "proto_violation \<Rightarrow> violation" where
  "proto_fields p =
     [(''rule_id'', VStr (pv_rule_id p)),
      (''severity'', VStr (severity_to_label (severity_from_proto (pv_severity p)))),
      (''message'', VStr (pv_message p)), (''file'', VStr (pv_file p)),
      (''line'', line_value (pv_line p)), (''path'', VStr (pv_path p)),
      (''remediation_class'', VStr (get_default PROTO_TO_REMEDIATION_CLASS (pv_class p) (class_value AI_CANDIDATE))),
      (''remediation_resolution'', VStr (get_default PROTO_TO_RESOLUTION (pv_resolution p) (resolution_value UNRESOLVED))),
      (''scope'', VStr (get_default PROTO_TO_SCOPE (pv_scope p) (scope_value RS_TASK))),
      (''source'', VStr (pv_source p)), (''original_yaml'', VStr (pv_original_yaml p)),
      (''fixed_yaml'', VStr (pv_fixed_yaml p)), (''node_line_start'', VInt (pv_node_line_start p)),
      (''node_type'', VStr (pv_node_type p))]"

definition set_if :: "bool \<Rightarrow> string \<Rightarrow> vval \<Rightarrow> violation \<Rightarrow> violation" where
  "set_if c k x v = (if c then dict_set k x v else v)"

definition violation_proto_to_dict :: "audit_json \<Rightarrow> proto_violation \<Rightarrow> violation" where
  "violation_proto_to_dict J p =
     (let v = set_if (pv_co_fixes p \<noteq> []) ''co_fixes'' (VStrs (pv_co_fixes p)) (proto_fields p);
          v = set_if (pv_affected_children p > 0) ''affected_children'' (VInt (pv_affected_children p)) v;
          v = set_if (module_fqcn (pv_metadata p) \<noteq> []) ''module_fqcn'' (VStr (module_fqcn (pv_metadata p))) v
      in fold (add_metadata J) (pv_metadata p) v)"

section \<open>Round trip\<close>

lemma dict_get_collect:
  "dict_get (concat (map (\<lambda>key. case f key of None \<Rightarrow> [] | Some s \<Rightarrow> [(key, s)]) ks)) k = (if k \<in> set ks then f k else None)"
  by (induction ks) (auto split: option.splits)

definition metadata_ok :: "(string, string) dict \<Rightarrow> bool" where
  "metadata_ok md \<longleftrightarrow> dict_ok md \<and>
     list_all (\<lambda>(k, s). k \<in> set METADATA_KEYS \<and> k \<notin> set JSON_METADATA_KEYS \<and> s \<noteq> []) md"

lemma dict_get_fold_metadata:
  "metadata_ok md \<Longrightarrow> dict_get (fold (add_metadata J) md v) k =
     (case dict_get md k of Some s \<Rightarrow> Some (metadata_vval J k s) | None \<Rightarrow> dict_get v k)"
proof (induction md arbitrary: v)
  case (Cons kv md)
  obtain k' s where kv: "kv = (k', s)" by (cases kv)
  have md: "metadata_ok md" "k' \<in> set METADATA_KEYS" "s \<noteq> []" "dict_get md k' = None"
    using Cons.prems kv by (auto simp: metadata_ok_def dict_ok_def map_of_eq_None_iff)
  then show ?case using Cons.IH [of "add_metadata J kv v"] kv
    by (auto simp: add_metadata_def dict_simps split: option.splits)
qed simp

lemma metadata_value_vval:
  assumes "k \<notin> set JSON_METADATA_KEYS"
  shows "metadata_value J k (metadata_vval J k s) = Some s"
  using assms join_split_on [of "CHR '',''" s] by (auto simp: metadata_value_def metadata_vval_def)

definition wire_ok :: "proto_violation \<Rightarrow> bool" where
  "wire_ok p \<longleftrightarrow> pv_severity p \<in> {0..6} \<and> pv_class p \<in> {1..3} \<and> pv_resolution p \<in> {1..11} \<and> pv_scope p \<in> {1..7} \<and>
     pv_affected_children p \<ge> 0 \<and> metadata_ok (pv_metadata p) \<and>
     (dict_get (pv_metadata p) ''ansible_core_version'' \<noteq> None \<or> get_version_spec_str (pv_rule_id p) = [])"

lemma dict_get_set_if [dict_simps]:
  "dict_get (set_if c k x v) k' = (if c \<and> k' = k then Some x else dict_get v k')"
  by (simp add: set_if_def dict_simps)

lemma metadata_keys_apart:
  assumes "k \<in> set METADATA_KEYS"
  shows "dict_get (proto_fields p) k = None \<and> k \<noteq> ''co_fixes'' \<and> k \<noteq> ''affected_children'' \<and> k \<noteq> ''module_fqcn''"
proof -
  let ?own = "[''co_fixes'', ''affected_children'', ''module_fqcn'', ''rule_id'', ''severity'', ''message'', ''file'', ''line'',
    ''path'', ''remediation_class'', ''remediation_resolution'', ''scope'', ''source'', ''original_yaml'', ''fixed_yaml'',
    ''node_line_start'', ''node_type'']"
  have "list_all (\<lambda>k. k \<notin> set ?own) METADATA_KEYS" by code_simp
  then have k: "k \<notin> set ?own" using assms unfolding list_all_iff by blast
  have "fst ` set (proto_fields p) \<subseteq> set ?own" by (simp add: proto_fields_def)
  then have "dict_get (proto_fields p) k = None" using k by (auto simp only: map_of_eq_None_iff)
  then show ?thesis using k by simp
qed

lemma vget_metadata:
  assumes "metadata_ok (pv_metadata p)" and "k \<in> set METADATA_KEYS"
  shows "vget (violation_proto_to_dict J p) k =
    (case dict_get (pv_metadata p) k of Some s \<Rightarrow> metadata_vval J k s | None \<Rightarrow> VNone)"
  using metadata_keys_apart [OF assms(2), of p]
  by (simp add: vget_def violation_proto_to_dict_def Let_def dict_get_fold_metadata [OF assms(1)] dict_simps split: option.splits)

lemma dict_get_base:
  assumes "metadata_ok (pv_metadata p)" and "k \<notin> set METADATA_KEYS"
  shows "dict_get (pv_metadata p) k = None"
  using assms by (auto simp: metadata_ok_def list_all_iff map_of_eq_None_iff)

lemma vget_base:
  assumes "metadata_ok (pv_metadata p)"
  shows "vget (violation_proto_to_dict J p) ''rule_id'' = VStr (pv_rule_id p)"
    "vget (violation_proto_to_dict J p) ''severity'' = VStr (severity_to_label (severity_from_proto (pv_severity p)))"
    "vget (violation_proto_to_dict J p) ''message'' = VStr (pv_message p)"
    "vget (violation_proto_to_dict J p) ''file'' = VStr (pv_file p)"
    "vget (violation_proto_to_dict J p) ''line'' = line_value (pv_line p)"
    "vget (violation_proto_to_dict J p) ''path'' = VStr (pv_path p)"
    "vget (violation_proto_to_dict J p) ''remediation_class'' =
       VStr (get_default PROTO_TO_REMEDIATION_CLASS (pv_class p) (class_value AI_CANDIDATE))"
    "vget (violation_proto_to_dict J p) ''remediation_resolution'' =
       VStr (get_default PROTO_TO_RESOLUTION (pv_resolution p) (resolution_value UNRESOLVED))"
    "vget (violation_proto_to_dict J p) ''scope'' = VStr (get_default PROTO_TO_SCOPE (pv_scope p) (scope_value RS_TASK))"
    "vget (violation_proto_to_dict J p) ''source'' = VStr (pv_source p)"
    "vget (violation_proto_to_dict J p) ''original_yaml'' = VStr (pv_original_yaml p)"
    "vget (violation_proto_to_dict J p) ''fixed_yaml'' = VStr (pv_fixed_yaml p)"
    "vget (violation_proto_to_dict J p) ''node_line_start'' = VInt (pv_node_line_start p)"
    "vget (violation_proto_to_dict J p) ''node_type'' = VStr (pv_node_type p)"
    "vget (violation_proto_to_dict J p) ''co_fixes'' = (if pv_co_fixes p = [] then VNone else VStrs (pv_co_fixes p))"
    "vget (violation_proto_to_dict J p) ''affected_children'' =
       (if pv_affected_children p > 0 then VInt (pv_affected_children p) else VNone)"
  by (simp_all add: vget_def violation_proto_to_dict_def Let_def dict_get_fold_metadata [OF assms]
      dict_get_base [OF assms] dict_simps METADATA_KEYS_def proto_fields_def)

lemma vget_or_str_VStr: "vget v k = VStr s \<Longrightarrow> vget_or_str v k = s"
  by (simp add: vget_or_str_def)

lemma enum_tables:
  "i \<in> {0..6} \<Longrightarrow> severity_to_proto (severity_from_label (severity_to_label (severity_from_proto i))) = i"
  "i \<in> {1..3} \<Longrightarrow> get_default REMEDIATION_CLASS_TO_PROTO (get_default PROTO_TO_REMEDIATION_CLASS i a) 2 = i"
  "i \<in> {1..11} \<Longrightarrow> get_default RESOLUTION_TO_PROTO (get_default PROTO_TO_RESOLUTION i b) 1 = i"
  "i \<in> {1..7} \<Longrightarrow> get_default SCOPE_TO_PROTO (get_default PROTO_TO_SCOPE i c) 1 = i"
proof -
  have small: "i \<in> {0..6} \<Longrightarrow> i = 0 \<or> i = 1 \<or> i = 2 \<or> i = 3 \<or> i = 4 \<or> i = 5 \<or> i = (6::int)"
    "i \<in> {1..3} \<Longrightarrow> i = 1 \<or> i = 2 \<or> i = (3::int)"
    "i \<in> {1..11} \<Longrightarrow> i = 1 \<or> i = 2 \<or> i = 3 \<or> i = 4 \<or> i = 5 \<or> i = 6 \<or> i = 7 \<or> i = 8 \<or> i = 9 \<or> i = 10 \<or> i = (11::int)"
    "i \<in> {1..7} \<Longrightarrow> i = 1 \<or> i = 2 \<or> i = 3 \<or> i = 4 \<or> i = 5 \<or> i = 6 \<or> i = (7::int)"
    by (simp_all only: atLeastAtMost_iff) presburger+
  show "i \<in> {0..6} \<Longrightarrow> severity_to_proto (severity_from_label (severity_to_label (severity_from_proto i))) = i"
    by (drule small(1), elim disjE; simp; code_simp)
  show "i \<in> {1..3} \<Longrightarrow> get_default REMEDIATION_CLASS_TO_PROTO (get_default PROTO_TO_REMEDIATION_CLASS i a) 2 = i"
    by (drule small(2)) (auto simp: get_default_def REMEDIATION_CLASS_TO_PROTO_def PROTO_TO_REMEDIATION_CLASS_def)
  show "i \<in> {1..11} \<Longrightarrow> get_default RESOLUTION_TO_PROTO (get_default PROTO_TO_RESOLUTION i b) 1 = i"
    by (drule small(3)) (auto simp: get_default_def RESOLUTION_TO_PROTO_def PROTO_TO_RESOLUTION_def)
  show "i \<in> {1..7} \<Longrightarrow> get_default SCOPE_TO_PROTO (get_default PROTO_TO_SCOPE i c) 1 = i"
    by (drule small(4)) (auto simp: get_default_def SCOPE_TO_PROTO_def PROTO_TO_SCOPE_def)
qed

lemma get_default_nonempty: "list_all (\<lambda>(_, s). s \<noteq> []) T \<Longrightarrow> x \<noteq> [] \<Longrightarrow> get_default T i x \<noteq> []"
  by (auto simp: get_default_def list_all_iff split: option.splits dest: map_of_SomeD)

lemma table_values:
  "get_default PROTO_TO_REMEDIATION_CLASS i (class_value AI_CANDIDATE) \<noteq> []"
  "get_default PROTO_TO_RESOLUTION i (resolution_value UNRESOLVED) \<noteq> []"
  "get_default PROTO_TO_SCOPE i (scope_value RS_TASK) \<noteq> []"
  by (rule get_default_nonempty, code_simp, simp)+

lemma metadata_of_proto:
  assumes "wire_ok p"
  shows "dict_get (metadata_of J (violation_proto_to_dict J p)) k = dict_get (pv_metadata p) k"
proof -
  let ?v = "violation_proto_to_dict J p"
  define md where
    "md = concat (map (\<lambda>key. case metadata_value J key (vget ?v key) of None \<Rightarrow> [] | Some s \<Rightarrow> [(key, s)]) METADATA_KEYS)"
  have ok: "metadata_ok (pv_metadata p)" using assms by (simp add: wire_ok_def)
  have plain: "k \<notin> set JSON_METADATA_KEYS" "s \<noteq> []" if "dict_get (pv_metadata p) k = Some s" for k s
    using ok map_of_SomeD [OF that] by (auto simp: metadata_ok_def list_all_iff)
  have get: "dict_get md k = dict_get (pv_metadata p) k" for k
  proof (cases "k \<in> set METADATA_KEYS")
    case True
    then show ?thesis
      using plain [of k] by (cases "dict_get (pv_metadata p) k")
        (auto simp: md_def dict_get_collect vget_metadata [OF ok True] metadata_value_vval metadata_value_def [of J k VNone])
  qed (simp add: md_def dict_get_collect dict_get_base [OF ok])
  have rule: "vget_or_str ?v ''rule_id'' = pv_rule_id p" using vget_base(1) [OF ok] by (rule vget_or_str_VStr)
  have version: "get_default md ''ansible_core_version'' [] \<noteq> [] \<or> get_version_spec_str (pv_rule_id p) = []"
  proof (cases "dict_get (pv_metadata p) ''ansible_core_version''")
    case None
    then show ?thesis using assms by (simp add: wire_ok_def)
  next
    case (Some s)
    then show ?thesis using plain(2) by (simp add: get_default_def get)
  qed
  have "metadata_of J ?v = md"
    unfolding metadata_of_def Let_def md_def [symmetric] rule using version by presburger
  then show ?thesis using get by simp
qed


definition sample_message :: proto_violation where
  "sample_message =
     \<lparr>pv_rule_id = ''L013'', pv_severity = 3, pv_message = ''m'', pv_file = ''site.yml'', pv_line = Line_range 3 4,
      pv_path = ''t'', pv_class = 2, pv_resolution = 1, pv_scope = 1, pv_source = ''opa'', pv_original_yaml = [],
      pv_fixed_yaml = [], pv_node_line_start = 3, pv_node_type = ''task'', pv_co_fixes = [''L007''],
      pv_affected_children = 0, pv_metadata = [(''redirect_chain'', ''a.b.c,d.e.f'')]\<rparr>"

definition sample_json :: audit_json where
  "sample_json = \<lparr>aj_serialize = (\<lambda>_ _. None), aj_parse = VStr\<rparr>"


end
