(* ===== verification/Proposal_Yaml.thy ===== *)
theory Proposal_Yaml
  imports Prelude
begin

text \<open>
  \<open>remediation/proposal_yaml.py\<close>: the normalisation of the YAML text of a proposal.  Text whose
  line breaks were flattened into the two characters backslash and \<open>n\<close> on the way is recognised
  and decoded; quoted scalars keep their escapes.  Indices into the text are modelled by the text
  already read and the text still to come.
\<close>

abbreviation BS :: char where "BS \<equiv> CHR 0x5C"
abbreviation SQ :: char where "SQ \<equiv> CHR 0x27"
abbreviation DQ :: char where "DQ \<equiv> CHR 0x22"

section \<open>Escape sequences\<close>

text \<open>
  \<open>_escaped_token_end\<close> at the head of the text: a run of backslashes with \<open>n\<close>, \<open>t\<close> or \<open>r\<close>, the
  last only before another such run with \<open>n\<close>.  The result is the last character and the rest.
\<close>

definition escaped_token :: "string \<Rightarrow> (char \<times> string) option" where
  "escaped_token s =
     (if takeWhile (\<lambda>c. c = BS) s = [] then None
      else (case dropWhile (\<lambda>c. c = BS) s of
              [] \<Rightarrow> None
            | c # r \<Rightarrow>
                (if c = CHR ''n'' \<or> c = CHR ''t'' then Some (c, r)
                 else if c \<noteq> CHR ''r'' then None
                 else if takeWhile (\<lambda>c. c = BS) r = [] then None
                 else (case dropWhile (\<lambda>c. c = BS) r of
                         [] \<Rightarrow> None
                       | d # q \<Rightarrow> (if d = CHR ''n'' then Some (d, q) else None)))))"

definition token_char :: "char \<Rightarrow> char" where
  "token_char c = (if c = CHR ''t'' then TAB else LF)"

lemma escaped_token_shorter: "escaped_token s = Some (c, r) \<Longrightarrow> length r < length s"
proof -
  assume s: "escaped_token s = Some (c, r)"
  have d: "length (dropWhile (\<lambda>c. c = BS) x) \<le> length x" for x by (rule length_dropWhile_le)
  obtain e q where e: "dropWhile (\<lambda>c. c = BS) s = e # q" using s
    by (auto simp: escaped_token_def split: if_splits list.splits)
  have "length q < length s" using d [of s] e by simp
  moreover have "length r \<le> length q"
    using s e d [of q] by (auto simp: escaped_token_def split: if_splits list.splits)
  ultimately show ?thesis by simp
qed

function decode_escaped_proposal_text :: "string \<Rightarrow> string" where
  "decode_escaped_proposal_text [] = []"
| "decode_escaped_proposal_text (c # cs) =
     (if c \<noteq> BS then c # decode_escaped_proposal_text cs
      else (case escaped_token (c # cs) of
              Some (d, r) \<Rightarrow> token_char d # decode_escaped_proposal_text r
            | None \<Rightarrow> takeWhile (\<lambda>x. x = BS) (c # cs) @
                      decode_escaped_proposal_text (dropWhile (\<lambda>x. x = BS) cs)))"
  by pat_completeness auto
termination
  by (relation "measure length") (auto dest: escaped_token_shorter simp: le_imp_less_Suc length_dropWhile_le)

section \<open>Quoted scalars\<close>

text \<open>\<open>s.rfind(w)\<close>.\<close>

fun find_last :: "string \<Rightarrow> string \<Rightarrow> int \<Rightarrow> int" where
  "find_last w [] i = (if w = [] then i else -1)"
| "find_last w (c # cs) i =
     (let r = find_last w cs (i + 1) in if r \<ge> 0 then r else if startswith w (c # cs) then i else -1)"

definition rstrip_blank :: "string \<Rightarrow> string" where
  "rstrip_blank s = rev (dropWhile (\<lambda>c. c = SP \<or> c = TAB) (rev s))"

text \<open>\<open>_quote_starts_scalar(text, index)\<close>, on the text before the index.\<close>

definition quote_starts_scalar :: "string \<Rightarrow> bool" where
  "quote_starts_scalar before =
     (let line_start = find_last [LF] before 0 + 1;
          esc = find_last [BS, CHR ''n''] before 0;
          line_start = (if esc \<ge> 0 \<and> esc + 2 > line_start then esc + 2 else line_start);
          prefix = drop (nat line_start) before;
          trimmed = rstrip_blank prefix
      in if trimmed = [] \<or> trimmed = ''---'' \<or> trimmed = ''-'' then True
         else if endswith ''['' trimmed \<or> endswith ''{'' trimmed \<or> endswith '','' trimmed then True
         else CHR '':'' \<in> set prefix \<and> strip (tl (dropWhile (\<lambda>c. c \<noteq> CHR '':'') prefix)) = [])"

function mask_quoted :: "char option \<Rightarrow> string \<Rightarrow> string \<Rightarrow> string" where
  "mask_quoted quote before [] = []"
| "mask_quoted None before (c # cs) =
     (if (c = DQ \<or> c = SQ) \<and> quote_starts_scalar before then c # mask_quoted (Some c) (before @ [c]) cs
      else c # mask_quoted None (before @ [c]) cs)"
| "mask_quoted (Some q) before (c # cs) =
     (if q = SQ \<and> c = SQ \<and> take 1 cs = [SQ] then SP # SP # mask_quoted (Some q) (before @ [c, SQ]) (tl cs)
      else if q = DQ \<and> c = BS \<and> cs \<noteq> [] then SP # SP # mask_quoted (Some q) (before @ [c, hd cs]) (tl cs)
      else if c = q then q # mask_quoted None (before @ [c]) cs
      else SP # mask_quoted (Some q) (before @ [c]) cs)"
  by pat_completeness auto
termination
  by (relation "measure (\<lambda>(q, b, s). length s)") auto

definition mask_quoted_scalars :: "string \<Rightarrow> string" where
  "mask_quoted_scalars s = mask_quoted None [] s"

function decode_flattened :: "char option \<Rightarrow> string \<Rightarrow> string \<Rightarrow> string" where
  "decode_flattened quote before [] = []"
| "decode_flattened (Some q) before (c # cs) =
     (if q = SQ \<and> c = SQ \<and> take 1 cs = [SQ] then SQ # SQ # decode_flattened (Some q) (before @ [SQ, SQ]) (tl cs)
      else if q = DQ \<and> c = BS \<and> cs \<noteq> [] then c # hd cs # decode_flattened (Some q) (before @ [c, hd cs]) (tl cs)
      else c # decode_flattened (if c = q then None else Some q) (before @ [c]) cs)"
| "decode_flattened None before (c # cs) =
     (if (c = DQ \<or> c = SQ) \<and> quote_starts_scalar before then c # decode_flattened (Some c) (before @ [c]) cs
      else if c = BS
      then (case escaped_token (c # cs) of
              Some (d, r) \<Rightarrow>
                token_char d # decode_flattened None (before @ take (length (c # cs) - length r) (c # cs)) r
            | None \<Rightarrow>
                (let run = takeWhile (\<lambda>x. x = BS) (c # cs)
                 in run @ decode_flattened None (before @ run) (dropWhile (\<lambda>x. x = BS) cs)))
      else c # decode_flattened None (before @ [c]) cs)"
  by pat_completeness auto
termination
  by (relation "measure (\<lambda>(q, b, s). length s)")
    (auto dest: escaped_token_shorter simp: le_imp_less_Suc length_dropWhile_le)

definition decode_flattened_yaml :: "string \<Rightarrow> string" where
  "decode_flattened_yaml s = decode_flattened None [] s"

section \<open>Recognising flattened text\<close>

fun rx_found :: "rx \<Rightarrow> string \<Rightarrow> bool" where
  "rx_found p [] = (p [] \<noteq> [])"
| "rx_found p (c # cs) = (p (c # cs) \<noteq> [] \<or> rx_found p cs)"

text \<open>A pattern that starts with \<open>^\<close> under \<open>re.MULTILINE\<close>; the flag says that a line starts here.\<close>

fun rx_found_line :: "rx \<Rightarrow> bool \<Rightarrow> string \<Rightarrow> bool" where
  "rx_found_line p start [] = (start \<and> p [] \<noteq> [])"
| "rx_found_line p start (c # cs) = (start \<and> p (c # cs) \<noteq> [] \<or> rx_found_line p (c = LF) cs)"

definition rx_eol :: rx where
  "rx_eol s = (if s = [] \<or> hd s = LF then [s] else [])"

definition rx_key_after_escape :: rx where
  "rx_key_after_escape =
     rx_seq (rx_lit [BS, CHR ''n'']) (rx_seq (rx_plus is_space)
       (rx_seq (rx_alt (rx_seq (rx_lit ''-'') (rx_plus is_space)) rx_eps)
         (foldr rx_alt (map rx_lit [''name:'', ''ansible.'', ''debug:'', ''vars:'', ''loop:'']) (rx_lit ''register:''))))"

definition rx_item_name :: rx where
  "rx_item_name = rx_seq (rx_lit [LF]) (rx_seq (rx_plus is_space) (rx_lit ''- name:''))"

definition rx_document_start :: rx where
  "rx_document_start = rx_seq (rx_star is_space) (rx_seq (rx_lit ''---'') (rx_seq (rx_star is_space) rx_eol))"

definition rstrip_newlines :: "string \<Rightarrow> string" where
  "rstrip_newlines s = rev (dropWhile (\<lambda>c. c = LF) (rev s))"

definition is_transport_flattened_yaml :: "string \<Rightarrow> bool" where
  "is_transport_flattened_yaml s =
     (let candidate = rstrip_newlines s
      in if strip candidate = [] \<or> LF \<in> set candidate \<or> \<not> rx_found (rx_lit [BS, CHR ''n'']) candidate then False
         else if startswith (''--- '' @ [BS, CHR ''n'']) candidate \<or> startswith (''---'' @ [BS, CHR ''n'']) candidate
         then True
         else if rx_found rx_key_after_escape (mask_quoted_scalars candidate) then True
         else (let decoded = decode_flattened_yaml candidate
               in if LF \<notin> set decoded then False
                  else (let u = mask_quoted_scalars decoded
                        in rx_found rx_item_name u \<or> rx_found_line rx_document_start True u)))"

fun crlf_to_lf :: "string \<Rightarrow> string" where
  "crlf_to_lf [] = []"
| "crlf_to_lf (c # cs) = (if c = CR \<and> take 1 cs = [LF] then crlf_to_lf cs else c # crlf_to_lf cs)"

definition normalize_proposal_yaml :: "string \<Rightarrow> string" where
  "normalize_proposal_yaml s =
     (if s = [] then s
      else (let normalized = crlf_to_lf s
            in if is_transport_flattened_yaml normalized then decode_flattened_yaml normalized else normalized))"

section \<open>Properties\<close>

text \<open>What a transport does to line breaks and tabs.\<close>

definition flatten_text :: "string \<Rightarrow> string" where
  "flatten_text s = concat (map (\<lambda>c. if c = LF then [BS, CHR ''n''] else if c = TAB then [BS, CHR ''t''] else [c]) s)"

lemma flatten_text_simps [simp]:
  "flatten_text [] = []"
  "flatten_text (c # s) =
     (if c = LF then [BS, CHR ''n''] else if c = TAB then [BS, CHR ''t''] else [c]) @ flatten_text s"
  "flatten_text (s @ s') = flatten_text s @ flatten_text s'"
  by (simp_all add: flatten_text_def)

lemma escaped_token_simple:
  "escaped_token (BS # CHR ''n'' # r) = Some (CHR ''n'', r)"
  "escaped_token (BS # CHR ''t'' # r) = Some (CHR ''t'', r)"
  by (simp_all add: escaped_token_def)

lemma decode_flattened_flatten:
  "{BS, SQ, DQ} \<inter> set s = {} \<Longrightarrow> decode_flattened None before (flatten_text s) = s"
proof (induction s arbitrary: before)
  case (Cons c s)
  then show ?case by (simp add: escaped_token_simple token_char_def)
qed simp

lemma crlf_to_lf_id: "CR \<notin> set s \<Longrightarrow> crlf_to_lf s = s"
  by (induction s) auto

lemma set_flatten_text: "set (flatten_text s) \<subseteq> set s - {LF, TAB} \<union> {BS, CHR ''n'', CHR ''t''}"
  by (induction s) auto

lemma rstrip_newlines_id: "LF \<notin> set s \<Longrightarrow> rstrip_newlines s = s"
  by (cases s rule: rev_cases) (auto simp: rstrip_newlines_def)

lemma strip_nonempty: "c \<in> set s \<Longrightarrow> \<not> is_space c \<Longrightarrow> strip s \<noteq> []"
  by (auto simp: strip_def lstrip_def rstrip_def dropWhile_eq_Nil_conv dest: set_dropWhileD)
    (metis (no_types, lifting) dropWhile_eq_Nil_conv hd_dropWhile hd_in_set set_rev)

lemma rx_found_append: "p (x @ r) \<noteq> [] \<Longrightarrow> rx_found p (y @ x @ r)"
proof (induction y)
  case Nil
  then show ?case by (cases "x @ r") auto
qed simp

lemma rx_found_lit_chars: "rx_found (rx_lit w) s \<Longrightarrow> set w \<subseteq> set s"
proof (induction s)
  case (Cons c cs)
  have "set w \<subseteq> set (c # cs)" if "startswith w (c # cs)"
    using that set_take_subset [of "length w" "c # cs"] unfolding startswith_def by metis
  then show ?case using Cons by (auto simp: rx_lit_def split: if_splits)
qed (auto simp: rx_lit_def startswith_def split: if_splits)

lemma unescaped_not_flattened: "BS \<notin> set s \<Longrightarrow> \<not> is_transport_flattened_yaml s"
proof -
  assume "BS \<notin> set s"
  then have "BS \<notin> set (rstrip_newlines s)" by (auto simp: rstrip_newlines_def dest: set_dropWhileD)
  then have "\<not> rx_found (rx_lit [BS, CHR ''n'']) (rstrip_newlines s)"
    using rx_found_lit_chars [of "[BS, CHR ''n'']" "rstrip_newlines s"] by auto
  then show ?thesis by (simp add: is_transport_flattened_yaml_def Let_def)
qed

lemma flattened_recognised:
  assumes "CHR ''-'' \<in> set d" and "LF \<notin> set (d @ [BS, CHR ''n''] @ r)" and "d = ''---'' \<or> d = ''--- ''"
  shows "is_transport_flattened_yaml (d @ [BS, CHR ''n''] @ r)"
proof -
  let ?s = "d @ [BS, CHR ''n''] @ r"
  have "rstrip_newlines ?s = ?s" by (rule rstrip_newlines_id [OF assms(2)])
  moreover have "strip ?s \<noteq> []"
    by (rule strip_nonempty [of "CHR ''-''"]) (use assms(1) in \<open>auto simp: is_space_def code_of_def Let_def\<close>)
  moreover have "rx_found (rx_lit [BS, CHR ''n'']) ?s"
    by (rule rx_found_append) (simp add: rx_lit_def startswith_def)
  moreover have "startswith (''--- '' @ [BS, CHR ''n'']) ?s \<or> startswith (''---'' @ [BS, CHR ''n'']) ?s"
    using assms(3) by (auto simp: startswith_def)
  ultimately show ?thesis using assms(2) by (simp add: is_transport_flattened_yaml_def)
qed



end
