(* ===== verification/Paths.thy ===== *)
theory Paths
  imports Prelude "HOL-Library.Sublist"
begin

text \<open>
  The path operations of Python's standard library that the sources use: pure POSIX paths of
  \<open>pathlib\<close> (parsing, printing, joining, \<open>relative_to\<close>) and \<open>posixpath.normpath\<close>.  \<open>resolve\<close>
  follows the links of the file system and is a parameter where it is used.
\<close>

section \<open>Splitting and joining\<close>

lemma split_on_no_sep: "p \<in> set (split_on c s) \<Longrightarrow> c \<notin> set p"
proof (induction s arbitrary: p)
  case (Cons x xs)
  obtain l ls where "split_on c xs = l # ls" by (cases "split_on c xs") auto
  with Cons show ?case by (auto split: if_splits)
qed simp

lemma split_on_append:
  "c \<notin> set p \<Longrightarrow> split_on c (p @ c # s) = p # split_on c s"
  by (induction p) auto

lemma split_on_single: "c \<notin> set p \<Longrightarrow> split_on c p = [p]"
  by (induction p) auto

lemma split_on_join:
  "ps \<noteq> [] \<Longrightarrow> \<forall>p\<in>set ps. c \<notin> set p \<Longrightarrow> split_on c (join [c] ps) = ps"
proof (induction ps)
  case (Cons p ps)
  then show ?case by (cases ps) (auto simp: split_on_append split_on_single)
qed simp

section \<open>Pure paths\<close>

record ppath =
  pp_root :: string
  pp_parts :: "string list"

definition path_root :: "string \<Rightarrow> string" where
  "path_root s =
     (if startswith ''//'' s \<and> \<not> startswith ''///'' s then ''//'' else if startswith ''/'' s then ''/'' else [])"

definition parse_path :: "string \<Rightarrow> ppath" where
  "parse_path s =
     \<lparr>pp_root = path_root s, pp_parts = filter (\<lambda>p. p \<noteq> [] \<and> p \<noteq> ''.'') (split_on (CHR ''/'') s)\<rparr>"

definition show_path :: "ppath \<Rightarrow> string" where
  "show_path p = (if pp_root p = [] \<and> pp_parts p = [] then ''.'' else pp_root p @ join ''/'' (pp_parts p))"

definition is_absolute :: "ppath \<Rightarrow> bool" where
  "is_absolute p \<longleftrightarrow> pp_root p \<noteq> []"

definition join_path :: "ppath \<Rightarrow> ppath \<Rightarrow> ppath" where
  "join_path p q = (if is_absolute q then q else p\<lparr>pp_parts := pp_parts p @ pp_parts q\<rparr>)"

definition path_name :: "ppath \<Rightarrow> string" where
  "path_name p = (if pp_parts p = [] then [] else last (pp_parts p))"

text \<open>\<open>p.relative_to(q)\<close>, which raises \<open>ValueError\<close> (\<open>None\<close>) outside of \<open>q\<close>.\<close>

definition relative_to :: "ppath \<Rightarrow> ppath \<Rightarrow> ppath option" where
  "relative_to p q =
     (if pp_root p = pp_root q \<and> take (length (pp_parts q)) (pp_parts p) = pp_parts q
      then Some \<lparr>pp_root = [], pp_parts = drop (length (pp_parts q)) (pp_parts p)\<rparr> else None)"

definition is_relative_to :: "ppath \<Rightarrow> ppath \<Rightarrow> bool" where
  "is_relative_to p q \<longleftrightarrow> relative_to p q \<noteq> None"

definition wf_path :: "ppath \<Rightarrow> bool" where
  "wf_path p \<longleftrightarrow> pp_root p \<in> {[], ''/'', ''//''} \<and>
     (\<forall>x\<in>set (pp_parts p). x \<noteq> [] \<and> x \<noteq> ''.'' \<and> CHR ''/'' \<notin> set x)"

lemma wf_parse_path [simp]: "wf_path (parse_path s)"
  by (auto simp: wf_path_def parse_path_def path_root_def dest: split_on_no_sep)

lemma wf_join_path [simp]: "wf_path p \<Longrightarrow> wf_path q \<Longrightarrow> wf_path (join_path p q)"
  by (auto simp: wf_path_def join_path_def)

lemma head_of_join: "ps \<noteq> [] \<Longrightarrow> hd ps \<noteq> [] \<Longrightarrow> join sep ps \<noteq> [] \<and> hd (join sep ps) = hd (hd ps)"
  by (cases ps rule: list.exhaust; cases "tl ps") (auto simp: join_Cons)

lemma parse_show_path:
  assumes "wf_path p"
  shows "parse_path (show_path p) = p"
proof -
  let ?ps = "pp_parts p"
  have ps: "\<forall>x\<in>set ?ps. CHR ''/'' \<notin> set x" "filter (\<lambda>p. p \<noteq> [] \<and> p \<noteq> ''.'') ?ps = ?ps"
    using assms by (auto simp: wf_path_def filter_id_conv)
  have head: "hd (join ''/'' ?ps) \<noteq> CHR ''/''" "join ''/'' ?ps \<noteq> []" if "?ps \<noteq> []"
  proof -
    have "hd ?ps \<noteq> []" "CHR ''/'' \<notin> set (hd ?ps)" using assms hd_in_set [OF that] by (auto simp: wf_path_def)
    then show "hd (join ''/'' ?ps) \<noteq> CHR ''/''" "join ''/'' ?ps \<noteq> []"
      using head_of_join [OF that, of "''/''"] hd_in_set by metis+
  qed
  define s where "s = join ''/'' ?ps"
  have plain: "take 1 s \<noteq> ''/''"
    using head by (cases "?ps = []"; cases s) (auto simp: s_def)
  have roots: "pp_root p = [] \<or> pp_root p = ''/'' \<or> pp_root p = ''//''" using assms by (simp add: wf_path_def)
  have root: "path_root (pp_root p @ s) = pp_root p"
    using roots plain by (cases s) (auto simp: path_root_def startswith_def)
  have "split_on (CHR ''/'') s = (if ?ps = [] then [[]] else ?ps)"
    using split_on_join [of ?ps "CHR ''/''"] ps(1) by (simp add: s_def)
  then have split: "filter (\<lambda>p. p \<noteq> [] \<and> p \<noteq> ''.'') (split_on (CHR ''/'') (pp_root p @ s)) = ?ps"
    using roots ps(2) by (elim disjE) (simp_all split: if_splits)
  show ?thesis
  proof (cases "pp_root p = [] \<and> ?ps = []")
    case True
    then show ?thesis by (cases p) (simp add: show_path_def parse_path_def path_root_def startswith_def)
  next
    case False
    then have "show_path p = pp_root p @ s" by (auto simp: show_path_def s_def)
    then show ?thesis using root split by (simp add: parse_path_def)
  qed
qed

lemma relative_to_join:
  "\<not> is_absolute q \<Longrightarrow> relative_to (join_path p q) p = Some q"
  by (cases q) (simp add: relative_to_def join_path_def is_absolute_def)

lemma relative_to_SomeD:
  "relative_to p q = Some r \<Longrightarrow> \<not> is_absolute r \<and> join_path q r = p"
  by (cases p; cases q) (auto simp: relative_to_def join_path_def is_absolute_def split: if_splits,
    metis append_take_drop_id)

section \<open>normpath\<close>

definition initial_slashes :: "string \<Rightarrow> nat" where
  "initial_slashes s = length (path_root s)"

fun normpath_loop :: "bool \<Rightarrow> string list \<Rightarrow> string list \<Rightarrow> string list" where
  "normpath_loop rooted new [] = new"
| "normpath_loop rooted new (c # cs) =
     (if c = [] \<or> c = ''.'' then normpath_loop rooted new cs
      else if c \<noteq> ''..'' \<or> (\<not> rooted \<and> new = []) \<or> (new \<noteq> [] \<and> last new = ''..'')
      then normpath_loop rooted (new @ [c]) cs
      else normpath_loop rooted (butlast new) cs)"

definition normpath :: "string \<Rightarrow> string" where
  "normpath s =
     (if s = [] then ''.''
      else (let r = replicate (initial_slashes s) (CHR ''/'') @
                    join ''/'' (normpath_loop (initial_slashes s > 0) [] (split_on (CHR ''/'') s))
            in if r = [] then ''.'' else r))"

text \<open>The components kept: leading parents, then proper names.\<close>

definition proper :: "string \<Rightarrow> bool" where
  "proper c \<longleftrightarrow> c \<noteq> [] \<and> c \<noteq> ''.'' \<and> c \<noteq> ''..'' \<and> CHR ''/'' \<notin> set c"

definition climbed :: "string list \<Rightarrow> bool" where
  "climbed new \<longleftrightarrow> (\<exists>k names. new = replicate k ''..'' @ names \<and> list_all proper names)"

lemma climbedI: "new = replicate k ''..'' @ names \<Longrightarrow> list_all proper names \<Longrightarrow> climbed new"
  unfolding climbed_def by blast

lemma climbed_step:
  assumes "climbed new" and "CHR ''/'' \<notin> set c" and "c \<noteq> []" and "c \<noteq> ''.''"
  shows "if c \<noteq> ''..'' \<or> new = [] \<or> last new = ''..'' then climbed (new @ [c]) else climbed (butlast new)"
proof -
  obtain k names where n: "new = replicate k ''..'' @ names" "list_all proper names"
    using assms(1) by (auto simp: climbed_def)
  show ?thesis
  proof (cases "c = ''..''")
    case False
    then have "new @ [c] = replicate k ''..'' @ (names @ [c])" "list_all proper (names @ [c])"
      using n assms by (auto simp: proper_def)
    then show ?thesis using False climbedI by metis
  next
    case dd: True
    show ?thesis
    proof (cases names rule: rev_cases)
      case Nil
      then have "new @ [c] = replicate (Suc k) ''..'' @ []"
        using n dd by (simp add: replicate_append_same)
      moreover have "new = [] \<or> last new = ''..''" using n Nil by (cases k) auto
      ultimately show ?thesis using climbedI [of "new @ [c]" "Suc k" "[]"] by auto
    next
      case (snoc ns x)
      then have "last new \<noteq> ''..''" "butlast new = replicate k ''..'' @ ns" "new \<noteq> []" "list_all proper ns"
        using n by (auto simp: proper_def butlast_append)
      then show ?thesis using dd climbedI [of "butlast new" k ns] by auto
    qed
  qed
qed

lemma normpath_loop_climbed:
  "climbed new \<Longrightarrow> \<forall>c\<in>set cs. CHR ''/'' \<notin> set c \<Longrightarrow> climbed (normpath_loop False new cs)"
proof (induction cs arbitrary: new)
  case (Cons c cs)
  then show ?case using climbed_step [of new c] by (auto split: if_splits)
qed simp

lemma normpath_loop_proper:
  "list_all proper cs \<Longrightarrow> normpath_loop rooted new cs = new @ cs"
  by (induction cs arbitrary: new) (auto simp: proper_def)

end
