(* ===== verification/Session_State.thy ===== *)
theory Session_State
  imports Remediation Deadline Violation_Proto Proposal_Yaml Paths
begin

text \<open>
  \<open>daemon/session.py\<close>: the state of a fix session, its idle and lifetime clocks, and the session
  store with its admission limits and its reaper.  A session object is referred to by its
  identifier: the store keeps the identifiers of its \<open>_sessions\<close> in order and, as a heap, all session
  objects ever created, because a stream may go on using an object the store has dropped.  The two
  clocks of the code are the two fields of \<open>clock\<close>: \<open>datetime.now(UTC)\<close> and \<open>time.monotonic()\<close>.
  The retained \<open>GraphRemediationEngine\<close> is present or not; its only mutable field is \<open>_ai_error\<close>.
\<close>

section \<open>Messages held by a session\<close>

record gate_proposal =
  gp_id :: string
  gp_file :: string
  gp_rule_id :: string
  gp_line_start :: int
  gp_line_end :: int
  gp_before :: string
  gp_after :: string
  gp_diff :: string
  gp_confidence :: real
  gp_explanation :: string
  gp_tier :: nat
  gp_status :: string
  gp_suggestion :: string
  gp_source :: string
  gp_path :: string
  gp_node_type :: string

record proposal_meta =
  pm_proposal_id :: string
  pm_rule_id :: string
  pm_file :: string
  pm_tier :: nat
  pm_confidence :: real
  pm_source :: "string option"

record session_report =
  sr_passes :: nat
  sr_fixed :: nat
  sr_remaining_ai :: nat
  sr_remaining_manual :: nat
  sr_oscillation :: bool
  sr_remaining_violations :: "proto_violation list"
  sr_fixed_violations :: "proto_violation list"

record file_diff =
  fd_path :: string
  fd_original :: string
  fd_formatted :: string
  fd_diff :: string

record progress_update =
  pu_message :: string
  pu_phase :: string
  pu_level :: nat
  pu_generation :: nat
  pu_budget_seconds :: int

text \<open>The options of the first upload chunk; the last fields are what only the scan pipeline reads.\<close>

record galaxy_server =
  gs_name :: string
  gs_url :: string
  gs_token :: string
  gs_auth_url :: string
  gs_validate_certs :: "bool option"

record fix_options =
  fo_max_passes :: int
  fo_interactive :: bool
  fo_enable_ai :: bool
  fo_assess_pause :: bool
  fo_galaxy_servers :: "galaxy_server list"
  fo_pipeline :: "string list"

record scan_options =
  so_galaxy_servers :: "galaxy_server list"
  so_pipeline :: "string list"

record manifest_data =
  md_ansible_core_version :: string
  md_collections :: "string list"
  md_packages :: "string list"
  md_dependency_tree :: string
  md_requirements :: "string list"

datatype session_status = S_awaiting_approval | S_processing | S_complete | S_awaiting_ai_triage

section \<open>The session\<close>

record session =
  ss_session_id :: string
  ss_original_files :: "(string, string) dict"
  ss_working_files :: "(string, string) dict"
  ss_tier1_patches :: "file_patch list"
  ss_format_diffs :: "file_diff list"
  ss_proposals :: "(string, gate_proposal) dict"
  ss_review_declined :: "(string, gate_proposal) dict"
  ss_current_tier :: nat
  ss_report :: "session_report option"
  ss_temp_dir :: "string option"
  ss_created_at :: real
  ss_last_activity_at :: real
  ss_idempotency_ok :: bool
  ss_status :: session_status
  ss_fix_options :: "fix_options option"
  ss_scan_options :: "scan_options option"
  ss_ai_proposals :: "ai_proposal list"
  ss_tier1_proposals :: "tier1_proposal list"
  ss_awaiting_tier1_gate :: bool
  ss_awaiting_assess :: bool
  ss_assess_findings :: "proto_violation list"
  ss_awaiting_ai_triage :: bool
  ss_ai_triage_candidates :: "proto_violation list"
  ss_ai_escalate_targets :: "(string \<times> string list) list option"
  ss_remaining_ai :: "violation list"
  ss_remaining_manual :: "violation list"
  ss_dep_health :: "violation list"
  ss_approved_ids :: "string list"
  ss_approved_proposals :: "proposal_meta list"
  ss_rejected_proposals :: "(string, proposal_meta) dict"
  ss_scan_id :: string
  ss_project_root :: string
  ss_progress_logs :: "progress_update list"
  ss_galaxy_cfg :: "string option"
  ss_venv_path :: string
  ss_manifest :: manifest_data
  ss_content_graph :: "content_graph option"
  ss_graph_originals :: "(string, string) dict"
  ss_graph_engine :: "bool option"
  ss_pre_gate2_files :: "(string, string) dict"
  ss_upload_sealed :: bool
  ss_sealed_hash :: string
  ss_sealed_chunk_hash :: string
  ss_operation_budget_s :: int
  ss_operation_started_at :: real
  ss_last_progress_at :: real
  ss_operation_generation :: nat
  ss_max_lifetime_deadline :: real

record clock =
  ck_wall :: real
  ck_mono :: real

record session_env =
  se_ttl :: int
  se_max_lifetime :: int
  se_max_sessions :: int
  se_min_create_interval :: real

definition empty_manifest :: manifest_data where
  "empty_manifest =
     \<lparr>md_ansible_core_version = [], md_collections = [], md_packages = [], md_dependency_tree = [], md_requirements = []\<rparr>"

definition new_session :: "clock \<Rightarrow> string \<Rightarrow> session" where
  "new_session now sid =
     \<lparr>ss_session_id = sid, ss_original_files = [], ss_working_files = [], ss_tier1_patches = [], ss_format_diffs = [],
      ss_proposals = [], ss_review_declined = [], ss_current_tier = 1, ss_report = None, ss_temp_dir = None,
      ss_created_at = ck_wall now, ss_last_activity_at = ck_wall now, ss_idempotency_ok = True, ss_status = S_processing,
      ss_fix_options = None, ss_scan_options = None, ss_ai_proposals = [], ss_tier1_proposals = [],
      ss_awaiting_tier1_gate = False, ss_awaiting_assess = False, ss_assess_findings = [], ss_awaiting_ai_triage = False,
      ss_ai_triage_candidates = [], ss_ai_escalate_targets = None, ss_remaining_ai = [], ss_remaining_manual = [],
      ss_dep_health = [], ss_approved_ids = [], ss_approved_proposals = [], ss_rejected_proposals = [], ss_scan_id = [],
      ss_project_root = [], ss_progress_logs = [], ss_galaxy_cfg = None, ss_venv_path = [], ss_manifest = empty_manifest,
      ss_content_graph = None, ss_graph_originals = [], ss_graph_engine = None, ss_pre_gate2_files = [],
      ss_upload_sealed = False, ss_sealed_hash = [], ss_sealed_chunk_hash = [], ss_operation_budget_s = 0,
      ss_operation_started_at = 0, ss_last_progress_at = 0, ss_operation_generation = 0, ss_max_lifetime_deadline = 0\<rparr>"

subsection \<open>Clocks\<close>

definition ttl_seconds :: "session_env \<Rightarrow> clock \<Rightarrow> session \<Rightarrow> int" where
  "ttl_seconds E now s = max 0 (se_ttl E - trunc (ck_wall now - ss_last_activity_at s))"

definition lifetime_seconds :: "clock \<Rightarrow> session \<Rightarrow> int" where
  "lifetime_seconds now s = trunc (ck_wall now - ss_created_at s)"

definition expired :: "session_env \<Rightarrow> clock \<Rightarrow> session \<Rightarrow> bool" where
  "expired E now s \<longleftrightarrow> ttl_seconds E now s \<le> 0 \<or> lifetime_seconds now s \<ge> se_max_lifetime E"

definition expiring_soon :: "session_env \<Rightarrow> clock \<Rightarrow> session \<Rightarrow> bool" where
  "expiring_soon E now s \<longleftrightarrow> 0 < ttl_seconds E now s \<and> ttl_seconds E now s \<le> 300"

definition touch :: "clock \<Rightarrow> session \<Rightarrow> session" where
  "touch now s = s\<lparr>ss_last_activity_at := ck_wall now\<rparr>"

definition init_lifetime_deadline :: "session_env \<Rightarrow> clock \<Rightarrow> session \<Rightarrow> session" where
  "init_lifetime_deadline E now s = s\<lparr>ss_max_lifetime_deadline := ck_mono now + of_int (se_max_lifetime E)\<rparr>"

definition reanchor_lifetime_deadline :: "session_env \<Rightarrow> clock \<Rightarrow> session \<Rightarrow> session" where
  "reanchor_lifetime_deadline E now s =
     s\<lparr>ss_max_lifetime_deadline := ck_mono now + of_int (max 0 (se_max_lifetime E - lifetime_seconds now s))\<rparr>"

definition begin_operation_phase :: "clock \<Rightarrow> int \<Rightarrow> session \<Rightarrow> session" where
  "begin_operation_phase now budget_s s =
     touch now (s\<lparr>ss_operation_budget_s := max 0 budget_s, ss_operation_started_at := ck_mono now,
                  ss_last_progress_at := ck_mono now, ss_operation_generation := Suc (ss_operation_generation s)\<rparr>)"

definition record_progress :: "clock \<Rightarrow> bool \<Rightarrow> session \<Rightarrow> session" where
  "record_progress now task_linked s =
     touch now (if task_linked then s\<lparr>ss_last_progress_at := ck_mono now\<rparr> else s)"

definition operation_budget_remaining :: "clock \<Rightarrow> session \<Rightarrow> int" where
  "operation_budget_remaining now s =
     (if ss_operation_budget_s s \<le> 0 \<or> ss_operation_started_at s \<le> 0 then 0
      else max 0 (trunc (operation_deadline_mono (ss_operation_started_at s) (ss_operation_budget_s s)
                           (ss_max_lifetime_deadline s) - ck_mono now)))"

subsection \<open>Resetting and cleaning up\<close>

text \<open>
  Removing the temporary directories, which exist while the fields are set; a failing removal is
  suppressed and the field cleared all the same.
\<close>

definition cleanup_temp_dir :: "session \<Rightarrow> session" where
  "cleanup_temp_dir s = s\<lparr>ss_temp_dir := None\<rparr>"

definition cleanup_galaxy_cfg :: "session \<Rightarrow> session" where
  "cleanup_galaxy_cfg s = s\<lparr>ss_galaxy_cfg := None\<rparr>"

definition cleanup :: "session \<Rightarrow> session" where
  "cleanup s = cleanup_temp_dir (cleanup_galaxy_cfg s)"

definition reset_partial_run_state :: "session \<Rightarrow> session" where
  "reset_partial_run_state s =
     cleanup_temp_dir
       (s\<lparr>ss_working_files := ss_original_files s, ss_format_diffs := [], ss_tier1_patches := [], ss_proposals := [],
          ss_review_declined := [], ss_progress_logs := [], ss_report := None, ss_ai_proposals := [],
          ss_tier1_proposals := [], ss_remaining_ai := [], ss_remaining_manual := [], ss_dep_health := [],
          ss_awaiting_tier1_gate := False, ss_awaiting_assess := False, ss_awaiting_ai_triage := False,
          ss_content_graph := None, ss_graph_engine := None, ss_status := S_processing\<rparr>)"

section \<open>The store\<close>

record store =
  sto_objects :: "(string, session) dict"
  sto_active :: "string list"
  sto_last_create :: real

text \<open>The two causes of a \<open>ResourceExhaustedError\<close>.\<close>

datatype store_error = Too_many_sessions | Creation_rate_limited

definition empty_store :: store where
  "empty_store = \<lparr>sto_objects = [], sto_active = [], sto_last_create = 0\<rparr>"

definition update_object :: "string \<Rightarrow> (session \<Rightarrow> session) \<Rightarrow> store \<Rightarrow> store" where
  "update_object sid f S = S\<lparr>sto_objects := dict_map (\<lambda>k s. if k = sid then f s else s) (sto_objects S)\<rparr>"

text \<open>\<open>uuid4().hex[:12]\<close> is the argument \<open>sid\<close>.\<close>

definition store_create :: "session_env \<Rightarrow> clock \<Rightarrow> string \<Rightarrow> store \<Rightarrow> store_error + store" where
  "store_create E now sid S =
     (if int (length (sto_active S)) \<ge> se_max_sessions E then Inl Too_many_sessions
      else if sto_last_create S \<noteq> 0 \<and> ck_mono now - sto_last_create S < se_min_create_interval E
      then Inl Creation_rate_limited
      else Inr (S\<lparr>sto_objects := dict_set sid (init_lifetime_deadline E now (new_session now sid)) (sto_objects S),
                  sto_active := (if sid \<in> set (sto_active S) then sto_active S else sto_active S @ [sid]),
                  sto_last_create := ck_mono now\<rparr>))"

definition store_remove :: "string \<Rightarrow> store \<Rightarrow> store \<times> bool" where
  "store_remove sid S =
     (if sid \<in> set (sto_active S)
      then ((update_object sid cleanup S)\<lparr>sto_active := filter (\<lambda>i. i \<noteq> sid) (sto_active S)\<rparr>, True)
      else (S, False))"

definition active_session :: "store \<Rightarrow> string \<Rightarrow> session option" where
  "active_session S sid = (if sid \<in> set (sto_active S) then dict_get (sto_objects S) sid else None)"

definition store_get :: "session_env \<Rightarrow> clock \<Rightarrow> string \<Rightarrow> store \<Rightarrow> store \<times> session option" where
  "store_get E now sid S =
     (case active_session S sid of
        None \<Rightarrow> (S, None)
      | Some s \<Rightarrow> (if expired E now s then (fst (store_remove sid S), None) else (S, Some s)))"

definition store_touch :: "clock \<Rightarrow> string \<Rightarrow> store \<Rightarrow> store" where
  "store_touch now sid S = (if sid \<in> set (sto_active S) then update_object sid (touch now) S else S)"

text \<open>One round of \<open>_reap_loop\<close>.\<close>

definition store_reap :: "session_env \<Rightarrow> clock \<Rightarrow> store \<Rightarrow> store" where
  "store_reap E now S =
     fold (\<lambda>sid S. fst (store_remove sid S))
       (filter (\<lambda>sid. case active_session S sid of None \<Rightarrow> False | Some s \<Rightarrow> expired E now s) (sto_active S)) S"

subsection \<open>Histories of the store\<close>

inductive store_step :: "session_env \<Rightarrow> store \<Rightarrow> store \<Rightarrow> bool" for E where
  create: "store_create E now sid S = Inr S' \<Longrightarrow> dict_get (sto_objects S) sid = None \<Longrightarrow> store_step E S S'"
| get: "store_step E S (fst (store_get E now sid S))"
| touch: "store_step E S (store_touch now sid S)"
| remove: "store_step E S (fst (store_remove sid S))"
| reap: "store_step E S (store_reap E now S)"
| mutate: "(\<And>s. ss_session_id (f s) = ss_session_id s) \<Longrightarrow> store_step E S (update_object sid f S)"

definition store_ok :: "session_env \<Rightarrow> store \<Rightarrow> bool" where
  "store_ok E S \<longleftrightarrow> distinct (sto_active S) \<and> int (length (sto_active S)) \<le> max 0 (se_max_sessions E) \<and>
     (\<forall>sid\<in>set (sto_active S). dict_get (sto_objects S) sid \<noteq> None) \<and>
     (\<forall>sid s. dict_get (sto_objects S) sid = Some s \<longrightarrow> ss_session_id s = sid)"

lemma ids_kept [simp]:
  "ss_session_id (cleanup s) = ss_session_id s" "ss_session_id (touch now s) = ss_session_id s"
  by (simp_all add: cleanup_def cleanup_temp_dir_def cleanup_galaxy_cfg_def touch_def)

lemma store_ok_update:
  "store_ok E S \<Longrightarrow> (\<And>s. ss_session_id (f s) = ss_session_id s) \<Longrightarrow> store_ok E (update_object sid f S)"
  by (auto simp: store_ok_def update_object_def dict_simps)

lemma store_ok_remove: "store_ok E S \<Longrightarrow> store_ok E (fst (store_remove sid S))"
proof -
  assume "store_ok E S"
  then have "store_ok E (update_object sid cleanup S)" by (rule store_ok_update) simp
  moreover have "int (length (filter (\<lambda>i. i \<noteq> sid) (sto_active S))) \<le> max 0 (se_max_sessions E)"
  proof (rule order_trans)
    show "int (length (sto_active S)) \<le> max 0 (se_max_sessions E)" using \<open>store_ok E S\<close> by (simp add: store_ok_def)
  qed simp
  ultimately show ?thesis using \<open>store_ok E S\<close>
    by (auto simp: store_remove_def store_ok_def update_object_def)
qed

lemma store_ok_fold_remove: "store_ok E S \<Longrightarrow> store_ok E (fold (\<lambda>sid S. fst (store_remove sid S)) sids S)"
  by (induction sids arbitrary: S) (auto intro: store_ok_remove)

lemma store_ok_step: "store_step E S S' \<Longrightarrow> store_ok E S \<Longrightarrow> store_ok E S'"
proof (induction rule: store_step.induct)
  case (create now sid S S')
  then show ?case
    by (auto simp: store_create_def store_ok_def dict_simps init_lifetime_deadline_def new_session_def split: if_splits)
next
  case (get S now sid)
  then show ?case by (auto simp: store_get_def store_ok_remove split: option.splits)
next
  case (touch S now sid)
  then show ?case by (auto simp: store_touch_def store_ok_update)
next
  case (reap S now)
  then show ?case by (simp add: store_reap_def store_ok_fold_remove)
qed (auto intro: store_ok_remove store_ok_update)

lemma store_remove_active [simp]: "sto_active (fst (store_remove sid S)) = filter (\<lambda>i. i \<noteq> sid) (sto_active S)"
  by (simp add: store_remove_def) (metis (mono_tags, lifting) filter_True)

lemma store_remove_objects:
  "sid \<noteq> k \<Longrightarrow> dict_get (sto_objects (fst (store_remove sid S))) k = dict_get (sto_objects S) k"
  by (simp add: store_remove_def update_object_def dict_simps option.map_ident)

lemma fold_remove_active:
  "sto_active (fold (\<lambda>sid S. fst (store_remove sid S)) sids S) = filter (\<lambda>i. i \<notin> set sids) (sto_active S)"
  by (induction sids arbitrary: S) (auto simp: conj_commute)

lemma fold_remove_objects:
  "k \<notin> set sids \<Longrightarrow>
     dict_get (sto_objects (fold (\<lambda>sid S. fst (store_remove sid S)) sids S)) k = dict_get (sto_objects S) k"
  by (induction sids arbitrary: S) (auto simp: store_remove_objects)


definition sample_env :: session_env where
  "sample_env = \<lparr>se_ttl = 1800, se_max_lifetime = 7200, se_max_sessions = 1, se_min_create_interval = 0\<rparr>"


end
