(* ===== verification/Upload.thy ===== *)
theory Upload
  imports Session_State
begin

text \<open>
  How files reach a session: the batching of a client (\<open>yield_scan_chunks\<close> of
  \<open>daemon/chunked_fs.py\<close>), the admission of uploads by the engine (\<open>daemon/engine_upload.py\<close>) and the
  draining of a whole chunk stream (\<open>_accumulate_chunks\<close> of \<open>daemon/engine_server.py\<close>).

  File contents are byte strings.  \<open>file_lib\<close> collects what the engine uses of the outside: SHA-256,
  the UTF-8 codec, symbolic-link resolution and the YAML formatter with its change flag.
\<close>

record format_result =
  fm_changed :: bool
  fm_formatted :: string
  fm_error :: "string option"
  fm_diff :: string

record file_lib =
  fl_sha256 :: "string \<Rightarrow> string"
  fl_encode :: "string \<Rightarrow> string"
  fl_decode :: "string \<Rightarrow> string"
  fl_decode_strict :: "string \<Rightarrow> string option"
  fl_resolve :: "ppath \<Rightarrow> ppath"
  fl_format :: "string \<Rightarrow> string \<Rightarrow> format_result"

type_synonym files = "(string, string) dict"

record scan_chunk =
  ch_files :: "(string \<times> string) list"
  ch_last :: bool
  ch_scan_id :: string
  ch_project_root :: string
  ch_options :: "scan_options option"
  ch_fix_options :: "fix_options option"

record upload_caps =
  uc_bytes :: int
  uc_files :: int

datatype upload_error =
    Path_escapes string
  | Upload_sealed
  | Too_many_files int
  | Too_many_bytes int

definition upload_caps_from_env :: "(string \<Rightarrow> string option) \<Rightarrow> upload_caps" where
  "upload_caps_from_env environ =
     (let b = get_env_int environ ''APME_SESSION_MAX_UPLOAD_BYTES'' (256 * 1024 * 1024) None;
          f = get_env_int environ ''APME_SESSION_MAX_UPLOAD_FILES'' 2000 None
      in if b \<le> 0 \<or> f \<le> 0 then \<lparr>uc_bytes = 256 * 1024 * 1024, uc_files = 2000\<rparr> else \<lparr>uc_bytes = b, uc_files = f\<rparr>)"

section \<open>Paths\<close>

definition normalize_upload_path :: "string \<Rightarrow> upload_error + string" where
  "normalize_upload_path path =
     (let posix = dropWhile (\<lambda>c. c = CHR ''/'') (map (\<lambda>c. if c = CHR 0x5C then CHR ''/'' else c) path);
          normalized = normpath posix
      in if normalized = [] \<or> normalized = ''.'' \<or> normalized = ''..'' \<or> startswith ''../'' normalized
         then Inl (Path_escapes path) else Inr normalized)"

fun normalize_files :: "(string \<times> string) list \<Rightarrow> upload_error + (string \<times> string) list" where
  "normalize_files [] = Inr []"
| "normalize_files ((p, c) # fs) =
     (case normalize_upload_path p of
        Inl e \<Rightarrow> Inl e
      | Inr q \<Rightarrow> (case normalize_files fs of Inl e \<Rightarrow> Inl e | Inr qs \<Rightarrow> Inr ((q, c) # qs)))"

text \<open>\<open>d[path] = content\<close> for each pair in turn.\<close>

definition set_all :: "(string \<times> string) list \<Rightarrow> files \<Rightarrow> files" where
  "set_all kvs d = fold (\<lambda>(k, v). dict_set k v) kvs d"

section \<open>Hashing and appending\<close>

definition hash_upload_files :: "file_lib \<Rightarrow> files \<Rightarrow> string" where
  "hash_upload_files F d =
     fl_sha256 F (concat (map (\<lambda>p. fl_encode F p @ [CHR 0x00] @ the (dict_get d p) @ [CHR 0x00]) (sort (map fst d))))"

definition hash_upload_chunk :: "file_lib \<Rightarrow> scan_chunk \<Rightarrow> upload_error + string" where
  "hash_upload_chunk F ch =
     (case normalize_files (ch_files ch) of Inl e \<Rightarrow> Inl e | Inr fs \<Rightarrow> Inr (hash_upload_files F (set_all fs [])))"

definition total_bytes :: "files \<Rightarrow> int" where
  "total_bytes d = sum_list (map (\<lambda>(p, c). int (length c)) d)"

definition session_upload_append :: "upload_caps \<Rightarrow> session \<Rightarrow> scan_chunk \<Rightarrow> upload_error + session" where
  "session_upload_append C s ch =
     (if ss_upload_sealed s then Inl Upload_sealed
      else case normalize_files (ch_files ch) of
             Inl e \<Rightarrow> Inl e
           | Inr fs \<Rightarrow>
               (let staged = set_all fs [];
                    old = ss_original_files s;
                    new_keys = filter (\<lambda>p. p \<notin> fst ` set old) (map fst staged);
                    file_total = int (length old + length new_keys);
                    replaced = sum_list (map (\<lambda>(p, _). case dict_get old p of Some c \<Rightarrow> int (length c) | None \<Rightarrow> 0) staged);
                    byte_total = total_bytes old - replaced + total_bytes staged
                in if file_total > uc_files C then Inl (Too_many_files file_total)
                   else if byte_total > uc_bytes C then Inl (Too_many_bytes byte_total)
                   else Inr (s\<lparr>ss_original_files := set_all staged old,
                               ss_working_files := set_all staged (ss_working_files s)\<rparr>)))"

section \<open>Draining a stream\<close>

record drained =
  dr_files :: files
  dr_bytes :: int
  dr_scan_id :: string
  dr_project_root :: string
  dr_options :: "scan_options option"
  dr_fix_options :: "fix_options option"

fun accumulate_files :: "upload_caps \<Rightarrow> (string \<times> string) list \<Rightarrow> files \<times> int \<Rightarrow> upload_error + (files \<times> int)" where
  "accumulate_files C [] st = Inr st"
| "accumulate_files C ((p, c) # fs) (d, bytes) =
     (let bytes' = (case dict_get d p of
                      None \<Rightarrow> bytes + int (length c)
                    | Some old \<Rightarrow> bytes + (int (length c) - int (length old)));
          d' = dict_set p c d
      in if int (length d') > uc_files C then Inl (Too_many_files (int (length d')))
         else if bytes' > uc_bytes C then Inl (Too_many_bytes bytes')
         else accumulate_files C fs (d', bytes'))"

fun accumulate_loop :: "upload_caps \<Rightarrow> scan_chunk list \<Rightarrow> drained \<Rightarrow> upload_error + drained" where
  "accumulate_loop C [] D = Inr D"
| "accumulate_loop C (ch # chs) D =
     (let D = D\<lparr>dr_scan_id := (if ch_scan_id ch = [] then dr_scan_id D else ch_scan_id ch),
                dr_project_root := (if ch_project_root ch = [] then dr_project_root D else ch_project_root ch),
                dr_options := (case ch_options ch of None \<Rightarrow> dr_options D | Some x \<Rightarrow> Some x),
                dr_fix_options := (case ch_fix_options ch of None \<Rightarrow> dr_fix_options D | Some x \<Rightarrow> Some x)\<rparr>
      in case normalize_files (ch_files ch) of
           Inl e \<Rightarrow> Inl e
         | Inr fs \<Rightarrow>
             (case accumulate_files C (set_all fs []) (dr_files D, dr_bytes D) of
                Inl e \<Rightarrow> Inl e
              | Inr (d, b) \<Rightarrow>
                  (let D = D\<lparr>dr_files := d, dr_bytes := b\<rparr>
                   in if ch_last ch then Inr D else accumulate_loop C chs D)))"

definition empty_drained :: drained where
  "empty_drained = \<lparr>dr_files = [], dr_bytes = 0, dr_scan_id = [], dr_project_root = ''project'', dr_options = None, dr_fix_options = None\<rparr>"

text \<open>The argument \<open>uuid\<close> is the identifier drawn when no chunk carried one.\<close>

definition accumulate_chunks :: "upload_caps \<Rightarrow> string \<Rightarrow> scan_chunk list \<Rightarrow> upload_error + drained" where
  "accumulate_chunks C uuid chs =
     (case accumulate_loop C chs empty_drained of
        Inl e \<Rightarrow> Inl e
      | Inr D \<Rightarrow> Inr (if dr_scan_id D = [] then D\<lparr>dr_scan_id := uuid\<rparr> else D))"

section \<open>Batching on the client\<close>

definition message_size :: "file_lib \<Rightarrow> string \<times> string \<Rightarrow> nat" where
  "message_size F f = length (fl_encode F (fst f)) + length (snd f)"

fun batches ::
  "file_lib \<Rightarrow> nat \<Rightarrow> (string \<times> string) list \<Rightarrow> (string \<times> string) list \<Rightarrow> nat \<Rightarrow> (string \<times> string) list list" where
  "batches F m [] batch bytes = [batch]"
| "batches F m (f # fs) batch bytes =
     (if batch \<noteq> [] \<and> bytes + message_size F f > m then batch # batches F m fs [f] (message_size F f)
      else batches F m fs (batch @ [f]) (bytes + message_size F f))"

definition bare_chunk :: "(string \<times> string) list \<Rightarrow> scan_chunk" where
  "bare_chunk b =
     \<lparr>ch_files = b, ch_last = False, ch_scan_id = [], ch_project_root = [], ch_options = None, ch_fix_options = None\<rparr>"

text \<open>The first message carries the scan's identity and options, the last one the end mark.\<close>

definition close_stream :: "scan_chunk list \<Rightarrow> scan_chunk list" where
  "close_stream chs = butlast chs @ [(last chs)\<lparr>ch_last := True\<rparr>]"

definition yield_scan_chunks ::
  "file_lib \<Rightarrow> nat \<Rightarrow> string \<Rightarrow> string \<Rightarrow> scan_options \<Rightarrow> (string \<times> string) list \<Rightarrow> scan_chunk list" where
  "yield_scan_chunks F m scan_id project_root options fs =
     (let bs = map bare_chunk (if fs = [] then [[]] else batches F m fs [] 0);
          bs = (hd bs)\<lparr>ch_scan_id := scan_id, ch_project_root := project_root, ch_options := Some options\<rparr> # tl bs
      in close_stream bs)"

section \<open>Upload paths stay below the session root\<close>

lemma normpath_loop_subset: "set (normpath_loop r new cs) \<subseteq> set new \<union> set cs"
proof (induction r new cs rule: normpath_loop.induct)
  case (2 r new c cs)
  then show ?case using in_set_butlastD [of _ new] by (auto split: if_splits)
qed simp

lemma split_on_chars: "p \<in> set (split_on c s) \<Longrightarrow> set p \<subseteq> set s"
proof (induction s arbitrary: p)
  case (Cons x xs)
  obtain l ls where "split_on c xs = l # ls" by (cases "split_on c xs") auto
  with Cons show ?case by (fastforce split: if_splits)
qed simp

lemma join_chars: "set (join sep ps) \<subseteq> set sep \<union> \<Union> (set ` set ps)"
  by (induction ps rule: induct_list012) auto

lemma relative_root: "take 1 s \<noteq> ''/'' \<Longrightarrow> path_root s = []"
  by (cases s) (auto simp: path_root_def startswith_def)

lemma climbed_head:
  assumes "climbed cs" and "cs \<noteq> []"
  shows "hd cs \<noteq> []"
proof -
  obtain k names where c: "cs = replicate k ''..'' @ names" "list_all proper names"
    using assms(1) unfolding climbed_def by blast
  show ?thesis
  proof (cases k)
    case 0
    then have "proper (hd cs)" using c assms(2) by (cases names) simp_all
    then show ?thesis by (simp add: proper_def)
  next
    case (Suc j)
    then show ?thesis unfolding c(1) by simp
  qed
qed

lemma normpath_relative:
  assumes "take 1 s \<noteq> ''/''" and "s \<noteq> []"
  shows "normpath s = (let cs = normpath_loop False [] (split_on (CHR ''/'') s) in if cs = [] then ''.'' else join ''/'' cs)"
proof -
  define cs where "cs = normpath_loop False [] (split_on (CHR ''/'') s)"
  have "climbed cs"
    unfolding cs_def by (rule normpath_loop_climbed) (auto simp: climbed_def dest: split_on_no_sep)
  then have "join ''/'' cs \<noteq> []" if "cs \<noteq> []"
    using climbed_head [OF _ that] head_of_join [OF that] by blast
  moreover have "normpath s = (if join ''/'' cs = [] then ''.'' else join ''/'' cs)"
    using assms(2) relative_root [OF assms(1)] by (simp add: normpath_def initial_slashes_def cs_def)
  ultimately show ?thesis by (cases "cs = []") (simp_all flip: cs_def)
qed

lemma head_not_slash: "take 1 (dropWhile (\<lambda>c. c = CHR ''/'') s) \<noteq> ''/''"
  by (induction s) auto

text \<open>The components of an accepted path.\<close>

lemma normalize_upload_path_names:
  assumes "normalize_upload_path path = Inr q"
  obtains names where "q = join ''/'' names" "names \<noteq> []" "list_all proper names" "CHR 0x5C \<notin> set q"
proof -
  define posix where "posix = dropWhile (\<lambda>c. c = CHR ''/'') (map (\<lambda>c. if c = CHR 0x5C then CHR ''/'' else c) path)"
  define cs where "cs = normpath_loop False [] (split_on (CHR ''/'') posix)"
  have q: "q = normpath posix" "q \<noteq> ''.''" "q \<noteq> ''..''" "\<not> startswith ''../'' q"
    using assms by (auto simp: normalize_upload_path_def posix_def Let_def split: if_splits)
  have "posix \<noteq> []" using q by (auto simp: normpath_def)
  moreover have "take 1 posix \<noteq> ''/''" unfolding posix_def by (rule head_not_slash)
  ultimately have j: "q = join ''/'' cs" "cs \<noteq> []"
    using q(1,2) normpath_relative by (auto simp: cs_def Let_def split: if_splits)
  obtain k names where c: "cs = replicate k ''..'' @ names" "list_all proper names"
    using normpath_loop_climbed [of "[]" "split_on (CHR ''/'') posix"] by (auto simp: climbed_def cs_def dest: split_on_no_sep)
  have "k = 0"
  proof (rule ccontr)
    assume "k \<noteq> 0"
    then obtain r where r: "cs = ''..'' # r" using c by (cases k) auto
    show False using q(3,4) j(1) unfolding r by (cases r) (auto simp: startswith_def)
  qed
  moreover have "CHR 0x5C \<notin> set posix" by (auto simp: posix_def dest: set_dropWhileD)
  then have "CHR 0x5C \<notin> set q" using j(1) join_chars [of "''/''" cs] normpath_loop_subset [of False "[]" "split_on (CHR ''/'') posix"]
      split_on_chars [of _ "CHR ''/''" posix] by (auto simp: cs_def)
  ultimately show ?thesis using that [of names] c j by simp
qed

lemma confined_path:
  assumes "normalize_upload_path path = Inr q"
  shows "list_all proper (split_on (CHR ''/'') q) \<and> CHR 0x5C \<notin> set q \<and> normalize_upload_path q = Inr q \<and>
    \<not> is_absolute (parse_path q) \<and> ''..'' \<notin> set (pp_parts (parse_path q)) \<and>
    relative_to (join_path base (parse_path q)) base = Some (parse_path q)"
proof -
  obtain names where n: "q = join ''/'' names" "names \<noteq> []" "list_all proper names" "CHR 0x5C \<notin> set q"
    using normalize_upload_path_names [OF assms] .
  have split: "split_on (CHR ''/'') q = names"
    using n(1-3) by (simp add: split_on_join proper_def list_all_iff)
  have "hd names \<noteq> []" "CHR ''/'' \<notin> set (hd names)" using n(2,3) by (auto simp: list_all_iff proper_def)
  then have hd: "q \<noteq> []" "hd q \<noteq> CHR ''/''" using n(1,2) head_of_join [of names "''/''"] hd_in_set by metis+
  then have rel: "take 1 q \<noteq> ''/''" by (cases q) auto
  have "map (\<lambda>c. if c = CHR 0x5C then CHR ''/'' else c) q = q" using n(4) by (intro map_idI) auto
  moreover have "dropWhile (\<lambda>c. c = CHR ''/'') q = q" using hd by (cases q) auto
  moreover have "normpath q = q"
    unfolding normpath_relative [OF rel hd(1)] split Let_def normpath_loop_proper [OF n(3)] using n(1,2) by simp
  moreover have "q \<noteq> ''.''" "q \<noteq> ''..''" "\<not> startswith ''../'' q"
  proof -
    show "q \<noteq> ''.''" "q \<noteq> ''..''" using split n(3) by (auto simp: proper_def)
    show "\<not> startswith ''../'' q"
    proof
      assume "startswith ''../'' q"
      then obtain r where "q = ''..'' @ CHR ''/'' # r" unfolding startswith_def by (metis append_take_drop_id append.assoc append_Cons append_Nil)
      then have "split_on (CHR ''/'') q = ''..'' # split_on (CHR ''/'') r" by simp
      then show False using split n(3) by (auto simp: proper_def)
    qed
  qed
  ultimately have "normalize_upload_path q = Inr q" using hd(1) by (simp add: normalize_upload_path_def)
  moreover have "pp_root (parse_path q) = []" using relative_root [OF rel] by (simp add: parse_path_def)
  then have "\<not> is_absolute (parse_path q)" by (simp add: is_absolute_def)
  moreover have "''..'' \<notin> set (pp_parts (parse_path q))" using n(3) by (auto simp: parse_path_def split list_all_iff proper_def)
  ultimately show ?thesis using n(3,4) relative_to_join by (simp add: split)
qed

text \<open>
  C35. An accepted upload path is a proper relative path: it has no empty, current or parent
  component and no backslash, so the file lies below whatever directory it is written to, and
  normalising it again changes nothing.
\<close>

theorem upload_paths_confined:
  assumes "normalize_upload_path path = Inr q"
  shows "list_all proper (split_on (CHR ''/'') q) \<and> CHR 0x5C \<notin> set q \<and> normalize_upload_path q = Inr q \<and>
    \<not> is_absolute (parse_path q) \<and> ''..'' \<notin> set (pp_parts (parse_path q)) \<and>
    relative_to (join_path base (parse_path q)) base = Some (parse_path q)"
  using assms by (rule confined_path)

theorem upload_paths_confined_witness:
  "normalize_upload_path ''/roles/./x/../main.yml'' = Inr ''roles/main.yml'' \<and>
   ''..'' \<notin> set (pp_parts (parse_path ''roles/main.yml''))"
proof -
  have "normalize_upload_path ''/roles/./x/../main.yml'' = Inr ''roles/main.yml''" by code_simp
  from upload_paths_confined [OF this] this show ?thesis by blast
qed

section \<open>Admission\<close>

definition size_at :: "files \<Rightarrow> string \<Rightarrow> int" where
  "size_at d p = (case dict_get d p of Some c \<Rightarrow> int (length c) | None \<Rightarrow> 0)"

lemma total_bytes_set: "dict_ok d \<Longrightarrow> total_bytes (dict_set p c d) = total_bytes d - size_at d p + int (length c)"
proof (induction d)
  case (Cons kv d)
  then have "dict_ok d" by (simp add: dict_ok_def)
  with Cons show ?case
    by (cases kv) (auto simp: total_bytes_def size_at_def dict_ok_def)
qed (simp add: total_bytes_def size_at_def)

lemma length_set: "length (dict_set p c d) = (if p \<in> fst ` set d then length d else Suc (length d))"
  by (induction d) auto

lemma set_all_simps [simp]: "set_all [] d = d" "set_all ((p, c) # kvs) d = set_all kvs (dict_set p c d)"
  by (simp_all add: set_all_def)

lemma dict_ok_set_all: "dict_ok d \<Longrightarrow> dict_ok (set_all kvs d)"
  by (induction kvs arbitrary: d) (auto simp: dict_simps)

lemma keys_set_all: "fst ` set (set_all kvs d) = fst ` set kvs \<union> fst ` set d"
proof (induction kvs arbitrary: d)
  case (Cons kv kvs)
  then show ?case by (cases kv) (auto simp: dom_update)
qed simp

lemma dict_get_set_all: "dict_get (set_all kvs d) p = (case dict_get (rev kvs) p of Some c \<Rightarrow> Some c | None \<Rightarrow> dict_get d p)"
proof (induction kvs arbitrary: d)
  case (Cons kv kvs)
  then show ?case by (cases kv) (auto simp: dict_simps map_of_append map_add_def split: option.splits)
qed simp

text \<open>Replacing the staged entries one by one gives the totals computed in advance.\<close>

lemma set_all_totals:
  assumes "dict_ok staged" and "dict_ok d"
  shows "total_bytes (set_all staged d) = total_bytes d - sum_list (map (\<lambda>(p, _). size_at d p) staged) + total_bytes staged
    \<and> length (set_all staged d) = length d + length (filter (\<lambda>p. p \<notin> fst ` set d) (map fst staged))"
  using assms
proof (induction staged arbitrary: d)
  case (Cons kv staged)
  obtain p c where kv: "kv = (p, c)" by (cases kv)
  have st: "dict_ok staged" "p \<notin> fst ` set staged" using Cons.prems(1) by (auto simp: kv dict_ok_def)
  have d: "dict_ok (dict_set p c d)" using Cons.prems(2) by (rule dict_ok_set)
  have same: "map (\<lambda>(q, _). size_at (dict_set p c d) q) staged = map (\<lambda>(q, _). size_at d q) staged"
    using st(2) by (intro map_cong) (force simp: size_at_def dict_simps)+
  have keys: "filter (\<lambda>q. q \<notin> fst ` set (dict_set p c d)) (map fst staged) = filter (\<lambda>q. q \<notin> fst ` set d) (map fst staged)"
    using st(2) by (auto simp: dom_update intro!: filter_cong)
  show ?case
    using Cons.IH [OF st(1) d] total_bytes_set [OF Cons.prems(2), of p c] unfolding kv same keys
    by (auto simp: length_set total_bytes_def)
qed (simp add: total_bytes_def)

lemma normalize_files_keys: "normalize_files fs = Inr gs \<Longrightarrow> q \<in> fst ` set gs \<Longrightarrow> \<exists>p. normalize_upload_path p = Inr q"
proof (induction fs arbitrary: gs)
  case (Cons f fs)
  obtain p c where f: "f = (p, c)" by (cases f)
  obtain q' gs' where g: "normalize_upload_path p = Inr q'" "normalize_files fs = Inr gs'" "gs = (q', c) # gs'"
    using Cons.prems(1) by (auto simp: f split: sum.splits)
  show ?case using Cons.IH [OF g(2)] Cons.prems(2) g by auto
qed simp

lemma dict_get_rev: "dict_ok d \<Longrightarrow> dict_get (rev d) = dict_get d"
  by (subst map_of_inject_set) (simp_all add: dict_ok_def rev_map [symmetric])

lemma dict_get_set_all_twice:
  "dict_get (set_all (set_all fs []) d) p = (case dict_get (rev fs) p of Some c \<Rightarrow> Some c | None \<Rightarrow> dict_get d p)"
proof -
  have "dict_get (rev (set_all fs [])) p = dict_get (rev fs) p"
    using dict_get_rev [OF dict_ok_set_all [of "[]" fs]] by (simp add: dict_get_set_all split: option.splits)
  then show ?thesis by (simp add: dict_get_set_all split: option.splits)
qed



section \<open>Batching and draining\<close>

lemma batches_nonempty [simp]: "batches F m fs b n \<noteq> []"
  by (induction F m fs b n rule: batches.induct) auto

lemma concat_batches: "concat (batches F m fs b n) = b @ fs"
  by (induction F m fs b n rule: batches.induct) auto

definition payload :: "file_lib \<Rightarrow> (string \<times> string) list \<Rightarrow> nat" where
  "payload F b = sum_list (map (message_size F) b)"

lemma batches_bounded:
  "n = payload F b \<Longrightarrow> payload F b \<le> m \<or> length b \<le> 1 \<Longrightarrow> x \<in> set (batches F m fs b n) \<Longrightarrow> payload F x \<le> m \<or> length x \<le> 1"
proof (induction F m fs b n rule: batches.induct)
  case (2 F m f fs b n)
  show ?case
  proof (cases "b \<noteq> [] \<and> n + message_size F f > m")
    case True
    then show ?thesis using 2(1) [OF True] 2(3-) by (auto simp: payload_def)
  next
    case False
    have "n + message_size F f = payload F (b @ [f])" using 2(3) by (simp add: payload_def)
    moreover have "payload F (b @ [f]) \<le> m \<or> length (b @ [f]) \<le> 1" using False 2(3) by (auto simp: payload_def)
    ultimately show ?thesis using 2(2) [OF False] 2(5) False by auto
  qed
qed auto

lemma set_fresh: "p \<notin> fst ` set d \<Longrightarrow> dict_set p c d = d @ [(p, c)]"
  by (induction d) auto

lemma set_all_fresh: "dict_ok (d @ gs) \<Longrightarrow> set_all gs d = d @ gs"
proof (induction gs arbitrary: d)
  case (Cons g gs)
  then show ?case by (cases g) (auto simp: dict_ok_def set_fresh)
qed simp

lemma total_bytes_append: "total_bytes (d @ e) = total_bytes d + total_bytes e" "0 \<le> total_bytes d"
  by (auto simp: total_bytes_def intro!: sum_list_nonneg)

lemma accumulate_files_fresh:
  "dict_ok (d @ gs) \<Longrightarrow> int (length (d @ gs)) \<le> uc_files C \<Longrightarrow> total_bytes (d @ gs) \<le> uc_bytes C \<Longrightarrow>
     accumulate_files C gs (d, total_bytes d) = Inr (d @ gs, total_bytes (d @ gs))"
proof (induction gs arbitrary: d)
  case (Cons g gs)
  obtain p c where g: "g = (p, c)" by (cases g)
  have p: "p \<notin> fst ` set d" using Cons.prems(1) by (auto simp: g dict_ok_def)
  then have n: "dict_get d p = None" by (simp add: map_of_eq_None_iff)
  have b: "total_bytes d + int (length c) = total_bytes (d @ [(p, c)])" by (simp add: total_bytes_def)
  have "total_bytes (d @ [(p, c)]) \<le> uc_bytes C" "int (length (d @ [(p, c)])) \<le> uc_files C"
    using Cons.prems(2,3) total_bytes_append(1) [of "d @ [(p, c)]" gs] total_bytes_append(2) [of gs] by (auto simp: g)
  then show ?case using Cons.IH [of "d @ [(p, c)]"] Cons.prems unfolding g by (simp add: n set_fresh [OF p] b)
qed simp

lemma normalize_files_normal: "\<forall>(p, c)\<in>set fs. normalize_upload_path p = Inr p \<Longrightarrow> normalize_files fs = Inr fs"
  by (induction fs) auto

lemma accumulate_step:
  assumes "dict_ok (dr_files D @ ch_files ch)" and "dr_bytes D = total_bytes (dr_files D)"
    and "int (length (dr_files D @ ch_files ch)) \<le> uc_files C" and "total_bytes (dr_files D @ ch_files ch) \<le> uc_bytes C"
    and "\<forall>(p, c)\<in>set (ch_files ch). normalize_upload_path p = Inr p"
  shows "accumulate_loop C (ch # chs) D =
    (let D = D\<lparr>dr_scan_id := (if ch_scan_id ch = [] then dr_scan_id D else ch_scan_id ch),
               dr_project_root := (if ch_project_root ch = [] then dr_project_root D else ch_project_root ch),
               dr_options := (case ch_options ch of None \<Rightarrow> dr_options D | Some x \<Rightarrow> Some x),
               dr_fix_options := (case ch_fix_options ch of None \<Rightarrow> dr_fix_options D | Some x \<Rightarrow> Some x),
               dr_files := dr_files D @ ch_files ch, dr_bytes := total_bytes (dr_files D @ ch_files ch)\<rparr>
     in if ch_last ch then Inr D else accumulate_loop C chs D)"
proof -
  have "dict_ok (ch_files ch)" using assms(1) by (simp add: dict_ok_def)
  then have "set_all (ch_files ch) [] = ch_files ch" using set_all_fresh [of "[]" "ch_files ch"] by simp
  then show ?thesis
    using normalize_files_normal [OF assms(5)] accumulate_files_fresh [OF assms(1,3,4)] assms(2) by (simp add: Let_def)
qed

declare accumulate_loop.simps(2) [simp del]

lemma bare_chunk_simps [simp]:
  "ch_files (bare_chunk b) = b" "\<not> ch_last (bare_chunk b)" "ch_scan_id (bare_chunk b) = []"
  "ch_project_root (bare_chunk b) = []" "ch_options (bare_chunk b) = None" "ch_fix_options (bare_chunk b) = None"
  by (simp_all add: bare_chunk_def)

definition fits :: "upload_caps \<Rightarrow> files \<Rightarrow> bool" where
  "fits C d \<longleftrightarrow> dict_ok d \<and> int (length d) \<le> uc_files C \<and> total_bytes d \<le> uc_bytes C \<and>
     (\<forall>(p, c)\<in>set d. normalize_upload_path p = Inr p)"

lemma fits_prefix: "fits C (d @ e) \<Longrightarrow> fits C d"
  using total_bytes_append(2) [of e] by (auto simp: fits_def dict_ok_def total_bytes_append(1))

lemma accumulate_step_fits:
  assumes "fits C (dr_files D @ ch_files ch)" and "dr_bytes D = total_bytes (dr_files D)"
  shows "accumulate_loop C (ch # chs) D =
    (let D = D\<lparr>dr_scan_id := (if ch_scan_id ch = [] then dr_scan_id D else ch_scan_id ch),
               dr_project_root := (if ch_project_root ch = [] then dr_project_root D else ch_project_root ch),
               dr_options := (case ch_options ch of None \<Rightarrow> dr_options D | Some x \<Rightarrow> Some x),
               dr_fix_options := (case ch_fix_options ch of None \<Rightarrow> dr_fix_options D | Some x \<Rightarrow> Some x),
               dr_files := dr_files D @ ch_files ch, dr_bytes := total_bytes (dr_files D @ ch_files ch)\<rparr>
     in if ch_last ch then Inr D else accumulate_loop C chs D)"
  by (rule accumulate_step) (use assms in \<open>auto simp: fits_def\<close>)

lemma close_stream_Cons: "chs \<noteq> [] \<Longrightarrow> close_stream (ch # chs) = ch # close_stream chs"
  by (simp add: close_stream_def)

lemma drain_bare:
  "bs \<noteq> [] \<Longrightarrow> fits C (dr_files D @ concat bs) \<Longrightarrow> dr_bytes D = total_bytes (dr_files D) \<Longrightarrow>
     accumulate_loop C (close_stream (map bare_chunk bs)) D =
       Inr (D\<lparr>dr_files := dr_files D @ concat bs, dr_bytes := total_bytes (dr_files D @ concat bs)\<rparr>)"
proof (induction bs arbitrary: D)
  case (Cons b bs)
  have f: "fits C (dr_files D @ b)" using Cons.prems(2) fits_prefix [of C "dr_files D @ b" "concat bs"] by simp
  show ?case
  proof (cases "bs = []")
    case True
    then show ?thesis
      using accumulate_step_fits [of C D "(bare_chunk b)\<lparr>ch_last := True\<rparr>" "[]"] f Cons.prems(3)
      by (simp add: close_stream_def)
  next
    case False
    then show ?thesis
      using accumulate_step_fits [of C D "bare_chunk b" "close_stream (map bare_chunk bs)"] f Cons.prems
        Cons.IH [of "D\<lparr>dr_files := dr_files D @ b, dr_bytes := total_bytes (dr_files D @ b)\<rparr>"]
      by (simp add: close_stream_Cons)
  qed
qed simp

text \<open>
  C37. What a client sends arrives: draining the chunk stream a client builds from a list of files
  with distinct normalised paths within the limits gives exactly these files in order, with the
  scan's identity, and every message of the stream is within the message bound or holds one file.
\<close>

theorem chunk_stream_roundtrip:
  assumes "fits C fs" and "scan_id \<noteq> []" and "project_root \<noteq> []"
  shows "accumulate_chunks C uuid (yield_scan_chunks F m scan_id project_root options fs) =
      Inr \<lparr>dr_files = fs, dr_bytes = total_bytes fs, dr_scan_id = scan_id, dr_project_root = project_root,
           dr_options = Some options, dr_fix_options = None\<rparr> \<and>
    (\<forall>ch\<in>set (yield_scan_chunks F m scan_id project_root options fs).
       payload F (ch_files ch) \<le> m \<or> length (ch_files ch) \<le> 1)"
proof
  define bs where "bs = (if fs = [] then [[]] else batches F m fs [] 0)"
  obtain b rest where bs: "bs = b # rest" by (cases bs) (auto simp: bs_def split: if_splits)
  have c: "b @ concat rest = fs" using concat_batches [of F m fs "[]" 0] bs by (auto simp: bs_def split: if_splits)
  let ?head = "(bare_chunk b)\<lparr>ch_scan_id := scan_id, ch_project_root := project_root, ch_options := Some options\<rparr>"
  have y: "yield_scan_chunks F m scan_id project_root options fs = close_stream (?head # map bare_chunk rest)"
    using bs by (simp add: yield_scan_chunks_def bs_def Let_def)
  have f: "fits C (b @ concat rest)" "fits C b" using assms(1) c fits_prefix by auto
  let ?D = "\<lparr>dr_files = b, dr_bytes = total_bytes b, dr_scan_id = scan_id, dr_project_root = project_root,
      dr_options = Some options, dr_fix_options = None\<rparr>"
  have "accumulate_loop C (close_stream (?head # map bare_chunk rest)) empty_drained =
      Inr (?D\<lparr>dr_files := fs, dr_bytes := total_bytes fs\<rparr>)"
  proof (cases "rest = []")
    case True
    then show ?thesis
      using accumulate_step_fits [of C empty_drained "?head\<lparr>ch_last := True\<rparr>" "[]"] f(2) assms(2,3) c
      by (simp add: close_stream_def empty_drained_def total_bytes_def)
  next
    case False
    then show ?thesis
      using accumulate_step_fits [of C empty_drained ?head "close_stream (map bare_chunk rest)"] f assms(2,3) c
        drain_bare [of rest C ?D]
      by (simp add: close_stream_Cons empty_drained_def total_bytes_def)
  qed
  then show "accumulate_chunks C uuid (yield_scan_chunks F m scan_id project_root options fs) =
      Inr \<lparr>dr_files = fs, dr_bytes = total_bytes fs, dr_scan_id = scan_id, dr_project_root = project_root,
           dr_options = Some options, dr_fix_options = None\<rparr>"
    using assms(2) by (simp add: accumulate_chunks_def y)
  have small: "payload F x \<le> m \<or> length x \<le> 1" if "x \<in> set bs" for x
    using that batches_bounded [of 0 F "[]" m x fs] by (auto simp: bs_def payload_def split: if_splits)
  have "ch_files ch \<in> set bs" if "ch \<in> set (close_stream (?head # map bare_chunk rest))" for ch
    using that in_set_butlastD [of ch "?head # map bare_chunk rest"] last_in_set [of "?head # map bare_chunk rest"]
    unfolding bs close_stream_def by (auto split: if_splits)
  then show "\<forall>ch\<in>set (yield_scan_chunks F m scan_id project_root options fs).
       payload F (ch_files ch) \<le> m \<or> length (ch_files ch) \<le> 1"
    using small unfolding y by blast
qed

definition sample_file_lib :: file_lib where
  "sample_file_lib =
     \<lparr>fl_sha256 = (\<lambda>s. s), fl_encode = (\<lambda>s. s), fl_decode = (\<lambda>s. s), fl_decode_strict = Some, fl_resolve = (\<lambda>p. p),
      fl_format = (\<lambda>s name. \<lparr>fm_changed = False, fm_formatted = s, fm_error = None, fm_diff = []\<rparr>)\<rparr>"

definition sample_scan_options :: scan_options where
  "sample_scan_options = \<lparr>so_galaxy_servers = [], so_pipeline = []\<rparr>"

theorem chunk_stream_roundtrip_witness:
  "length (yield_scan_chunks sample_file_lib 8 ''id'' ''p'' sample_scan_options [(''a.yml'', ''x''), (''b.yml'', ''y'')]) = 2 \<and>
   accumulate_chunks \<lparr>uc_bytes = 10, uc_files = 5\<rparr> ''u''
     (yield_scan_chunks sample_file_lib 8 ''id'' ''p'' sample_scan_options [(''a.yml'', ''x''), (''b.yml'', ''y'')]) =
       Inr \<lparr>dr_files = [(''a.yml'', ''x''), (''b.yml'', ''y'')], dr_bytes = 2, dr_scan_id = ''id'', dr_project_root = ''p'',
            dr_options = Some sample_scan_options, dr_fix_options = None\<rparr>"
proof -
  let ?fs = "[(''a.yml'', ''x''), (''b.yml'', ''y'')]"
  have f: "fits \<lparr>uc_bytes = 10, uc_files = 5\<rparr> ?fs" "total_bytes ?fs = 2" by code_simp+
  have "length (yield_scan_chunks sample_file_lib 8 ''id'' ''p'' sample_scan_options ?fs) = 2" by code_simp
  with chunk_stream_roundtrip [OF f(1), of "''id''" "''p''" "''u''" sample_file_lib 8 sample_scan_options] f(2) show ?thesis by simp
qed


end
