(* ===== verification/Remediation_Props.thy ===== *)
theory Remediation_Props
  imports Remediation
begin

text \<open>
  Properties of the convergence loop: it is safe for the graph, bounded, routes violations to the
  AI as documented, leaves no change unscanned and loses no initial violation; and properties of
  the patches spliced from its result.
\<close>

section \<open>Invariants of the loop\<close>

text \<open>
  What the loop hands to the AI: the AI route of a partition, and, when a tier 1 pass applied
  nothing, the escalatable part of its tier 1 route.
\<close>

definition ai_batch :: "('m, 's, 'w, 'r) engine \<Rightarrow> options \<Rightarrow> violation list \<Rightarrow> bool" where
  "ai_batch E op batch \<longleftrightarrow>
     (\<exists>vs t1 t2 t3. partition_violations vs (en_registry E) = (t1, t2, t3) \<and>
        (batch = t2 \<or> \<not> op_skip_tier1 op \<and> batch = t2 @ filter is_ai_escalatable t1))"

text \<open>
  The effects a pass is made of.  A property that each of them preserves holds at the end of the
  loop; the interpretations below instantiate this with the safety, bound and batch properties.
\<close>

locale loop_invariant =
  fixes E :: "('m, 's, 'w, 'r) engine" and op :: options and I :: "'w loop_state \<Rightarrow> bool"
  assumes begin_pass: "I st \<Longrightarrow> p \<le> en_max_passes E \<Longrightarrow> I (begin_pass E p st)"
    and tier1_idle: "I st \<Longrightarrow> snd (apply_tier1 E vs (int p) (rs_graph st)) = 0
      \<Longrightarrow> I (st\<lparr>rs_graph := fst (apply_tier1 E vs (int p) (rs_graph st))\<rparr>)"
    and tier1: "I st \<Longrightarrow> I (do_rescan E p ''deterministic'' (resolve_status op)
      (st\<lparr>rs_graph := fst (apply_tier1 E vs (int p) (rs_graph st))\<rparr>))"
    and ai_idle: "I st \<Longrightarrow> en_provider E = Some pr \<Longrightarrow> \<not> op_skip_ai op \<Longrightarrow> ai_batch E op batch \<Longrightarrow>
      rs_ai_attempts st < en_max_ai_attempts E \<Longrightarrow> cg_dirty (rs_graph (call_ai E pr p batch st)) = [] \<Longrightarrow>
      I (call_ai E pr p batch st)"
    and ai: "I st \<Longrightarrow> en_provider E = Some pr \<Longrightarrow> \<not> op_skip_ai op \<Longrightarrow> ai_batch E op batch \<Longrightarrow>
      rs_ai_attempts st < en_max_ai_attempts E \<Longrightarrow>
      I (do_rescan E p ''ai'' V_proposed (call_ai E pr p batch st))"
    and bookkeeping: "I st \<Longrightarrow> I (st\<lparr>rs_prev_count := c\<rparr>)" "I st \<Longrightarrow> I (st\<lparr>rs_oscillation := b\<rparr>)"
      "I st \<Longrightarrow> I (st\<lparr>rs_feedback := f\<rparr>)"
begin

lemma end_of_pass_inv: "I st \<Longrightarrow> I (snd (end_of_pass E op t1 t2 s st))"
  by (simp add: end_of_pass_def Let_def)

lemma post_ai_inv:
  "I (do_rescan E p ''ai'' V_proposed st) \<Longrightarrow> I (fst (post_ai E op p st))"
  by (auto simp: post_ai_def Let_def case_prod_unfold intro: tier1)

lemma ai_phase_inv:
  assumes "I st" and "ai_batch E op t2"
  shows "I (snd (ai_phase E op p t1 t2 s st))"
proof (cases "en_provider E")
  case (Some pr)
  show ?thesis
  proof (cases "(t1 = [] \<or> s) \<and> t2 \<noteq> [] \<and> \<not> op_skip_ai op \<and> \<not> rs_provider_failed st \<and> rs_ai_attempts st < en_max_ai_attempts E")
    case True
    then have "I (fst (post_ai E op p (call_ai E pr p t2 st)))"
      using assms Some by (intro post_ai_inv ai) auto
    with True Some assms show ?thesis
      by (auto simp: ai_phase_def Let_def case_prod_unfold intro!: end_of_pass_inv bookkeeping intro: ai_idle)
  qed (use Some assms in \<open>auto simp: ai_phase_def intro!: end_of_pass_inv\<close>)
qed (use assms in \<open>auto simp: ai_phase_def intro!: end_of_pass_inv\<close>)

lemma ai_batch_route: "partition_violations vs (en_registry E) = (t1, t2, t3) \<Longrightarrow> ai_batch E op t2"
  by (auto simp: ai_batch_def)

lemma converging_pass_inv:
  assumes "I (do_rescan E p ''deterministic'' (resolve_status op) st)"
  shows "I (snd (converging_pass E op p st))"
proof -
  let ?st = "do_rescan E p ''deterministic'' (resolve_status op) st"
  obtain n1 n2 n3 where part: "partition_violations (rs_violations ?st) (en_registry E) = (n1, n2, n3)"
    by (metis prod_cases3)
  then show ?thesis
    using assms ai_batch_route [OF part]
    by (simp add: converging_pass_def Let_def bookkeeping ai_phase_inv)
qed

lemma one_pass_inv:
  assumes "I st" and "p \<le> en_max_passes E"
  shows "I (snd (one_pass E op p st))"
proof -
  obtain t1 t2 t3 where part: "partition_violations (rs_violations st) (en_registry E) = (t1, t2, t3)"
    by (metis prod_cases3)
  note batch = ai_batch_route [OF part]
  define st1 where "st1 = begin_pass E p st"
  have s1: "I st1" unfolding st1_def using assms by (rule begin_pass)
  define st2 where "st2 = st1\<lparr>rs_graph := fst (apply_tier1 E t1 (int p) (rs_graph st1))\<rparr>"
  have s2: "I (snd (converging_pass E op p st2))"
    unfolding st2_def by (intro converging_pass_inv tier1 s1)
  have s3: "I st2" if "snd (apply_tier1 E t1 (int p) (rs_graph st1)) = 0"
    unfolding st2_def using s1 that by (rule tier1_idle)
  have promoted: "\<not> op_skip_tier1 op \<Longrightarrow> ai_batch E op (t2 @ filter is_ai_escalatable t1)"
    using part unfolding ai_batch_def by blast
  have s4: "I (snd (ai_phase E op p t1 (t2 @ filter is_ai_escalatable t1) True st2))"
    if "\<not> op_skip_tier1 op" "snd (apply_tier1 E t1 (int p) (rs_graph st1)) = 0"
    using that by (intro ai_phase_inv s3 promoted)
  then have "t2 = [] \<Longrightarrow> \<not> op_skip_tier1 op \<Longrightarrow> snd (apply_tier1 E t1 (int p) (rs_graph st1)) = 0 \<Longrightarrow>
      I (snd (ai_phase E op p t1 (filter is_ai_escalatable t1) True st2))" by simp
  with s1 s2 s3 s4 batch show ?thesis
    by (simp add: one_pass_def part Let_def case_prod_unfold st1_def [symmetric] st2_def [symmetric] ai_phase_inv)
qed

lemma run_passes_inv:
  "I st \<Longrightarrow> p + k \<le> Suc (en_max_passes E) \<Longrightarrow> I (run_passes E op k p st)"
proof (induction k arbitrary: p st)
  case (Suc k)
  then have "I (snd (one_pass E op p st))" by (intro one_pass_inv) auto
  with Suc show ?case by (simp add: Let_def case_prod_unfold)
qed simp

lemma converge_inv: "I (initial_state E initial w g) \<Longrightarrow> I (converge E op initial w g)"
  unfolding converge_def by (rule run_passes_inv) auto

end

section \<open>Relations the pipeline keeps\<close>

text \<open>
  A reflexive and transitive relation between graphs that the single calls of the pipeline respect
  is respected by a whole run: recording, resolving, tier 1, the AI phase and the loop are
  sequences of these calls.  The calls approve and reject nothing.
\<close>

locale pipeline_relation =
  fixes E :: "('m, 's, 'w, 'r) engine" and rel :: "content_graph \<Rightarrow> content_graph \<Rightarrow> bool"
  assumes rel_refl: "rel g g"
    and rel_trans: "rel g g1 \<Longrightarrow> rel g1 g2 \<Longrightarrow> rel g g2"
    and rel_register: "rel g (register_violations vs p g)"
    and rel_resolve: "status \<in> {V_fixed, V_pending_review, V_proposed} \<Longrightarrow>
      rel g (fst (resolve_violations nid remaining s p status g))"
    and rel_abstain: "rel g (fst (abstain_violations nid ids reasons g))"
    and rel_record_state: "rel g (map_node nid (record_state (en_lib E) p ph s) g)"
    and rel_update: "rel g (map_node nid (update_from_yaml (en_lib E) t) g)"
    and rel_restamp: "rel g (restamp_ledger (en_registry E) vs g)"
    and rel_dirty: "rel g g' \<Longrightarrow> rel g (mark_dirty nid g')" "rel g g' \<Longrightarrow> rel g (clear_dirty g')"
begin

lemma rel_fold: "(\<And>x g. rel g (f x g)) \<Longrightarrow> rel g (fold f xs g)"
  by (induction xs arbitrary: g) (auto intro: rel_trans rel_refl)

lemma rel_snapshot_all: "rel g (snapshot_all (en_lib E) p ph s ids g)"
  unfolding snapshot_all_def by (rule rel_fold) (rule rel_record_state)

lemma rel_record_violations: "rel g (fst (record_violations (en_lib E) vs p ph d g))"
  unfolding record_violations_def Let_def fst_conv
  by (cases d) (auto intro!: rel_trans [OF _ rel_snapshot_all] rel_trans [OF _ rel_register] rel_refl)

lemma rel_resolve_dirty:
  "status \<in> {V_fixed, V_pending_review, V_proposed} \<Longrightarrow> rel g (resolve_dirty_violations vs d b p status g)"
  unfolding resolve_dirty_violations_def by (rule rel_fold) (rule rel_resolve)

lemma rel_rescan_and_record:
  "status \<in> {V_fixed, V_pending_review, V_proposed} \<Longrightarrow> rel (snd st) (snd (rescan_and_record E p b status st))"
  unfolding rescan_and_record_def Let_def case_prod_unfold snd_conv
  by (cases b) (auto intro: rel_dirty(2) rel_trans [OF rel_record_violations rel_resolve_dirty] rel_record_violations)

lemma rel_apply_yaml: "rel g (fst (apply_yaml (en_lib E) nid t g))"
  by (auto simp: apply_yaml_def Let_def intro: rel_refl rel_dirty(1) rel_update split: option.splits)

lemma rel_apply_transform: "rel g (fst (apply_transform (en_lib E) nid f v g))"
  by (auto simp: apply_transform_def Let_def intro: rel_refl rel_dirty(1) rel_update split: option.splits)

lemma rel_apply_tier1_loop: "rel g (fst (apply_tier1_loop (en_lib E) reg vs g))"
proof (induction vs arbitrary: g)
  case (Cons v vs)
  show ?case
    using Cons rel_trans [OF rel_apply_transform Cons] by (auto simp: Let_def case_prod_unfold split: option.splits)
qed (simp add: rel_refl)

lemma rel_apply_tier1: "rel g (fst (apply_tier1 E vs p g))"
  using rel_trans [OF rel_apply_tier1_loop rel_snapshot_all] by (simp add: apply_tier1_def Let_def case_prod_unfold)

lemma rel_apply_fix: "rel g (fst (apply_fix (en_lib E) p nid fx b g))"
proof (cases "get_node g nid")
  case (Some n)
  obtain g1 applied where a: "apply_yaml (en_lib E) nid (af_snippet fx) g = (g1, applied)" by fastforce
  have "rel g g1" using rel_apply_yaml [of g nid "af_snippet fx"] a by simp
  then have "rel g (map_node nid (record_state (en_lib E) p ''transformed'' ''ai'') g1)"
    by (rule rel_trans [OF _ rel_record_state])
  then show ?thesis
    using Some a by (auto simp: apply_fix_def Let_def rel_refl intro!: rel_trans [OF _ rel_abstain])
qed (simp add: apply_fix_def rel_refl)

lemma rel_apply_fixes: "rel g (fst (apply_fixes (en_lib E) p rs g))"
proof (induction rs arbitrary: g)
  case (Cons x rs)
  obtain nid r where x: "x = (nid, r)" by (cases x)
  show ?case
    using Cons rel_trans [OF rel_apply_fix Cons] by (cases r) (auto simp: x Let_def case_prod_unfold)
qed (simp add: rel_refl)

lemma rel_apply_ai_transforms: "rel g (fst (snd (apply_ai_transforms (en_lib E) pr t2 p fb w g)))"
proof -
  have "rel g (abstain_unproposed s groups g)" for s groups g
    unfolding abstain_unproposed_def by (rule rel_fold) (simp add: case_prod_unfold rel_abstain)
  then show ?thesis
    by (auto simp: apply_ai_transforms_def Let_def case_prod_unfold rel_refl intro: rel_trans [OF rel_apply_fixes])
qed

lemma rel_do_rescan:
  "rel g (rs_graph st) \<Longrightarrow> status \<in> {V_fixed, V_pending_review, V_proposed} \<Longrightarrow> rel g (rs_graph (do_rescan E p b status st))"
  using rel_trans [OF _ rel_rescan_and_record [of status "(rs_world st, rs_graph st)" "int p" "Some b"]]
  by (auto simp: do_rescan_def Let_def case_prod_unfold)

lemma rel_call_ai: "rel g (rs_graph st) \<Longrightarrow> rel g (rs_graph (call_ai E pr p b st))"
  by (simp add: call_ai_def Let_def case_prod_unfold) (erule rel_trans, rule rel_apply_ai_transforms)

end

lemma resolve_status_ok: "resolve_status op \<in> {V_fixed, V_pending_review, V_proposed}"
  by (simp add: resolve_status_def)

sublocale pipeline_relation < run: loop_invariant E op "\<lambda>st. rel g (rs_graph st)" for op g
proof
  show "rel g (rs_graph (st\<lparr>rs_graph := fst (apply_tier1 E vs (int p) (rs_graph st))\<rparr>))"
    if "rel g (rs_graph st)" for st vs p
    using that by (auto intro: rel_trans [OF _ rel_apply_tier1])
  then show "rel g (rs_graph (do_rescan E p ''deterministic'' (resolve_status op)
      (st\<lparr>rs_graph := fst (apply_tier1 E vs (int p) (rs_graph st))\<rparr>)))"
    if "rel g (rs_graph st)" for st vs p
    using that by (intro rel_do_rescan resolve_status_ok)
  show "rel g (rs_graph (begin_pass E p st))" if "rel g (rs_graph st)" for st p
    using that by (auto simp: begin_pass_def intro: rel_trans [OF _ rel_restamp])
qed (auto intro!: rel_call_ai rel_do_rescan)

context pipeline_relation
begin

lemma rel_converge: "rel g (rs_graph (converge E op initial w g))"
proof -
  have "rel g (rs_graph (initial_state E initial w g))"
    using rel_record_violations by (auto simp: initial_state_def Let_def case_prod_unfold)
  then show ?thesis by (rule run.converge_inv)
qed

end

section \<open>The loop is safe for the graph\<close>

lemma safe_restamp [safe_ops]: "safe_step L g (restamp_ledger reg vs g)"
  unfolding restamp_ledger_def
proof (rule safe_step_map_all_nodes, rule safe_payload_map_records)
  show "record_step r (restamp_record reg vs r)" for r
    by (auto simp: record_step_def restamp_record_def attribution_ok_def intro: lifecycle.same)
qed

interpretation safe_run: pipeline_relation E "safe_step (en_lib E)" for E
  by unfold_locales (auto intro: safe_ops safe_step_trans)

lemma safe_finish: "safe_step L g (finish op g)"
  by (simp add: finish_def safe_approve_pending)

text \<open>
  C27. A remediation run, whatever the rules, transforms, rescans and AI answers do, keeps a
  well-formed graph well-formed, keeps every vertex, edge, node location and ledger record, and
  never changes the status of a violation the user declined or the AI gave up on.
\<close>

theorem remediate_safe:
  assumes "remediate E op initial w g = (w', g', report)" and "graph_ok (en_lib E) g"
  shows "graph_ok (en_lib E) g' \<and> graph_evolves g g' \<and>
    (\<forall>nid n k r. get_node g nid = Some n \<and> dict_get (cn_ledger n) k = Some r \<and>
        vr_status r \<in> {V_declined, V_ai_abstained} \<longrightarrow>
      (\<exists>n' r'. get_node g' nid = Some n' \<and> dict_get (cn_ledger n') k = Some r' \<and> vr_status r' = vr_status r))"
proof -
  have s: "safe_step (en_lib E) g g'" using assms(1) safe_step_trans [OF safe_run.rel_converge [of E g op initial w] safe_finish]
    by (auto simp: remediate_def Let_def)
  then have ev: "graph_evolves g g'" by (simp add: safe_step_def)
  show ?thesis
  proof (intro conjI allI impI)
    show "graph_ok (en_lib E) g'" using s assms(2) by (simp add: safe_step_def)
  next
    fix nid n k r
    assume r: "get_node g nid = Some n \<and> dict_get (cn_ledger n) k = Some r \<and> vr_status r \<in> {V_declined, V_ai_abstained}"
    then show "\<exists>n' r'. get_node g' nid = Some n' \<and> dict_get (cn_ledger n') k = Some r' \<and> vr_status r' = vr_status r"
      by (intro evolves_sticky [OF ev]) auto
  qed (rule ev)
qed


text \<open>Bounds and batches.\<close>

definition ai_bounds :: "('m, 's, 'w, 'r) engine \<Rightarrow> options \<Rightarrow> 'w loop_state \<Rightarrow> bool" where
  "ai_bounds E op st \<longleftrightarrow>
     rs_passes st \<le> en_max_passes E \<and> rs_ai_attempts st \<le> en_max_ai_attempts E \<and>
     length (rs_batches st) = rs_ai_attempts st \<and> (\<forall>b\<in>set (rs_batches st). ai_batch E op b) \<and>
     (rs_batches st \<noteq> [] \<longrightarrow> runs_ai E op) \<and> (rs_batches st = [] \<longrightarrow> rs_proposals st = [])"

lemma loop_frame [simp]:
  "rs_passes (do_rescan E p b s st) = rs_passes st"
  "rs_ai_attempts (do_rescan E p b s st) = rs_ai_attempts st"
  "rs_batches (do_rescan E p b s st) = rs_batches st"
  "rs_proposals (do_rescan E p b s st) = rs_proposals st"
  "rs_passes (call_ai E pr p vs st) = rs_passes st"
  "rs_ai_attempts (call_ai E pr p vs st) = Suc (rs_ai_attempts st)"
  "rs_batches (call_ai E pr p vs st) = rs_batches st @ [vs]"
  by (simp_all add: do_rescan_def call_ai_def Let_def case_prod_unfold)

interpretation bounded_run: loop_invariant E op "ai_bounds E op" for E op
  by unfold_locales (auto simp: ai_bounds_def begin_pass_def runs_ai_def)

lemma converge_bounds: "ai_bounds E op (converge E op initial w g)"
  by (rule bounded_run.converge_inv) (simp add: ai_bounds_def initial_state_def Let_def case_prod_unfold)

lemma ai_batch_member:
  assumes "ai_batch E op b" and "v \<in> set b"
  shows "severity_label v \<noteq> ''info'' \<and> bare_id v \<notin> set CROSS_FILE_RULES \<and> bare_id v \<notin> set FQCN_RULES \<and>
    (op_skip_tier1 op \<longrightarrow> \<not> is_finding_resolvable (en_registry E) v \<and> get_scope v \<in> set AI_PROPOSABLE_SCOPES \<and> ai_proposable v)"
proof -
  obtain vs t1 t2 t3 where part: "partition_violations vs (en_registry E) = (t1, t2, t3)"
    and b: "b = t2 \<or> \<not> op_skip_tier1 op \<and> b = t2 @ filter is_ai_escalatable t1"
    using assms(1) unfolding ai_batch_def by blast
  show ?thesis
  proof (cases "v \<in> set t2")
    case True
    have "\<not> is_finding_resolvable (en_registry E) v"
      using part True route_Tier2 [of "en_registry E"] by (fastforce simp: partition_violations_filter)
    with tier2_member [OF part True] show ?thesis by simp
  next
    case False
    with b assms(2) have "\<not> op_skip_tier1 op" "v \<in> set t1" "is_ai_escalatable v" by auto
    with tier1_member [OF part] resolvableD(2) show ?thesis by (auto simp: is_ai_escalatable_def)
  qed
qed

text \<open>Everything a run changed has been rescanned when it ends.\<close>

lemma dirty_fold: "(\<And>x g. cg_dirty (f x g) = cg_dirty g) \<Longrightarrow> cg_dirty (fold f xs g) = cg_dirty g"
  by (induction xs arbitrary: g) auto

lemma dirty_snapshot_all [simp]: "cg_dirty (snapshot_all L p ph s ids g) = cg_dirty g"
  unfolding snapshot_all_def by (rule dirty_fold) (simp add: graph_simps)

lemma dirty_register [simp]: "cg_dirty (register_violations vs p g) = cg_dirty g"
  by (induction vs arbitrary: g) (simp_all add: graph_simps)

lemma dirty_record_violations [simp]: "cg_dirty (fst (record_violations L vs p ph d g)) = cg_dirty g"
  by (simp add: record_violations_def Let_def split: option.splits)

lemma dirty_apply_tier1_loop:
  "snd (apply_tier1_loop L reg vs g) = 0 \<Longrightarrow> cg_dirty (fst (apply_tier1_loop L reg vs g)) = cg_dirty g"
proof (induction vs arbitrary: g)
  case (Cons v vs)
  show ?case
  proof (cases "get_node_transform reg (bare_id v)")
    case (Some f)
    obtain g1 b where a: "apply_transform L (vget_str v ''path'') f v g = (g1, b)" by fastforce
    have "b \<or> g1 = g" using a by (auto simp: apply_transform_def Let_def split: option.splits if_splits)
    with Cons Some a show ?thesis by (auto simp: Let_def case_prod_unfold split: if_splits)
  qed (use Cons in simp)
qed simp

interpretation clean_run: loop_invariant E op "\<lambda>st. cg_dirty (rs_graph st) = []" for E op
proof
  fix st :: "'c loop_state" and vs p
  assume "cg_dirty (rs_graph st) = []" "snd (apply_tier1 E vs (int p) (rs_graph st)) = 0"
  then show "cg_dirty (rs_graph (st\<lparr>rs_graph := fst (apply_tier1 E vs (int p) (rs_graph st))\<rparr>)) = []"
    using dirty_apply_tier1_loop [of "en_lib E" "en_registry E" vs "rs_graph st"]
    by (simp add: apply_tier1_def Let_def case_prod_unfold)
qed (auto simp: begin_pass_def do_rescan_def rescan_and_record_def restamp_ledger_def graph_simps Let_def case_prod_unfold)

lemma finish_dirty [simp]: "cg_dirty (finish op g) = cg_dirty g"
  by (simp add: finish_def approve_pending_def graph_simps)

section \<open>Accounting for the initial violations\<close>

lemma violation_key_enrich [simp]: "violation_key (enrich_one ts v) = violation_key v"
  by (auto simp: violation_key_def enrich_one_def dict_simps split: list.splits)

lemma path_violation_key: "fst (violation_key v) = vget_str v ''path''"
  by (simp add: violation_key_def)

lemma register_violations_registers:
  assumes "v \<in> set vs" and "get_node g (fst (violation_key v)) = Some n"
  shows "\<exists>n' r. get_node (register_violations vs p g) (fst (violation_key v)) = Some n' \<and>
    dict_get (cn_ledger n') (violation_key v) = Some r"
  using assms
proof (induction vs arbitrary: g n)
  case (Cons u vs)
  let ?g = "map_node (vget_str u ''path'') (map_ledger (register_one p u)) g"
  obtain n1 where n1: "get_node ?g (fst (violation_key v)) = Some n1"
    using Cons.prems(2) by (cases "fst (violation_key v) = vget_str u ''path''") (auto simp: graph_simps)
  show ?case
  proof (cases "u = v")
    case True
    then have "\<exists>r. dict_get (cn_ledger n1) (violation_key v) = Some r"
      using n1 Cons.prems(2)
      by (auto simp: graph_simps path_violation_key map_ledger_def register_one_def dict_simps split: option.splits if_splits)
    then obtain r where r: "dict_get (cn_ledger n1) (violation_key v) = Some r" by blast
    have ev: "graph_evolves ?g (register_violations vs p ?g)"
      using safe_register [of undefined ?g vs p] unfolding safe_step_def by blast
    show ?thesis by (rule evolves_record [OF ev n1 r]) auto
  qed (use Cons n1 in auto)
qed simp

lemma initial_violation_recorded:
  assumes "v \<in> set vs" and "get_node g (vget_str v ''path'') = Some n"
  shows "\<exists>n' r. get_node (rs_graph (initial_state E (Some vs) w g)) (vget_str v ''path'') = Some n' \<and>
    dict_get (cn_ledger n') (violation_key v) = Some r"
proof -
  let ?u = "enrich_one (fqcn_targets vs) v" and ?ids = "map fst (by_node (enrich_fqcn_targets vs))"
  let ?g = "snapshot_all (en_lib E) 0 ''scanned'' [] ?ids g"
  have "graph_evolves g ?g" using safe_run.rel_snapshot_all [of E g 0 "''scanned''" "[]" ?ids] by (simp add: safe_step_def)
  with assms(2) obtain n1 where "get_node ?g (fst (violation_key ?u)) = Some n1"
    unfolding graph_evolves_def by (auto simp: path_violation_key)
  from register_violations_registers [OF _ this, of "enrich_fqcn_targets vs" 0] assms(1)
  show ?thesis
    by (simp add: initial_state_def record_violations_def Let_def enrich_fqcn_targets_def path_violation_key)
qed

lemma query_violations_member:
  assumes "graph_ok L g" and "get_node g nid = Some n" and "dict_get (cn_ledger n) k = Some r"
  shows "report_record r \<in> set (query_violations (Some (vr_status r)) None g)"
proof -
  have "n \<in> set (graph_nodes g)" using assms(1,2) graph_nodes_get_node by (auto simp: graph_ok_def)
  moreover have "r \<in> set (map snd (cn_ledger n))" using assms(1-3) dict_get_in by (force simp: graph_ok_def ledger_ok_def)
  ultimately show ?thesis by (auto simp: query_violations_def query_records_def)
qed


section \<open>Bounds\<close>

text \<open>
  C29. The loop is bounded whatever the AI and the rescans answer: at most \<open>max_passes\<close> passes and
  \<open>max_ai_attempts\<close> AI attempts, one batch of violations per attempt, and no AI call or proposal
  at all when AI is switched off or absent.
\<close>

theorem remediate_bounded:
  shows "rs_passes (converge E op initial w g) \<le> en_max_passes E \<and>
    length (rs_batches (converge E op initial w g)) \<le> en_max_ai_attempts E \<and>
    (op_skip_ai op \<or> en_provider E = None \<longrightarrow>
      rs_batches (converge E op initial w g) = [] \<and> fr_ai_proposals (snd (snd (remediate E op initial w g))) = [])"
  using converge_bounds [of E op initial w g] unfolding ai_bounds_def runs_ai_def
  by (auto simp: remediate_def Let_def)

text \<open>
  C30. What the AI is shown: no informational, cross-file or FQCN finding, and with
  \<open>skip_tier1\<close> (the second gate) no finding that a deterministic transform could fix and none
  outside the proposable scopes.
\<close>

theorem ai_batches_eligible:
  assumes "batch \<in> set (rs_batches (converge E op initial w g))" and "v \<in> set batch"
  shows "severity_label v \<noteq> ''info'' \<and> bare_id v \<notin> set CROSS_FILE_RULES \<and> bare_id v \<notin> set FQCN_RULES \<and>
    (op_skip_tier1 op \<longrightarrow>
      \<not> is_finding_resolvable (en_registry E) v \<and> get_scope v \<in> set AI_PROPOSABLE_SCOPES \<and> ai_proposable v)"
  using converge_bounds [of E op initial w g] assms by (intro ai_batch_member) (auto simp: ai_bounds_def)


section \<open>Splicing\<close>

lemma last_approved_member: "last_approved prog = Some s \<Longrightarrow> s \<in> set prog \<and> ns_approved s"
  unfolding last_approved_def by (auto simp: find_Some_iff) (metis nth_mem set_rev length_rev)

lemma node_edit_approved:
  "e \<in> set (node_edit False n) \<Longrightarrow>
     \<exists>s\<in>set (cn_progression n). ns_approved s \<and> ed_text e = ns_yaml s \<and> ns_hash s \<noteq> ns_hash (hd (cn_progression n))"
  using last_approved_member
  by (fastforce simp: node_edit_def effective_state_def Let_def split: option.splits if_splits)

lemma edits_by_file_source:
  assumes "(path, es) \<in> set (edits_by_file ip g)" and "e \<in> set es"
  shows "\<exists>n\<in>set (graph_nodes g). cn_file_path n = path \<and> e \<in> set (node_edit ip n)"
proof -
  let ?xs = "concat (map (\<lambda>n. map (Pair (cn_file_path n)) (node_edit ip n)) (graph_nodes g))"
  have ok: "dict_ok (group_by fst ?xs [])" by (rule dict_ok_group_by) (simp add: dict_ok_def)
  from assms obtain ys where "(path, ys) \<in> set (group_by fst ?xs [])" "es = map snd ys"
    by (auto simp: edits_by_file_def dict_map_def)
  with ok have "dict_get (group_by fst ?xs []) path = Some ys" by (simp add: dict_get_in)
  then have "ys = filter (\<lambda>x. fst x = path) ?xs"
    by (simp add: dict_get_group_by split: if_splits)
  with assms(2) \<open>es = map snd ys\<close> show ?thesis by auto
qed

text \<open>
  C32. Only approved content reaches a file: without \<open>include_pending\<close> every patch is the original
  with edits whose text is an approved snapshot, different from the baseline, of a node of that file.
\<close>

theorem splice_only_approved:
  assumes "p \<in> set (splice_modifications L g originals False)"
  shows "\<exists>edits. dict_get originals (fp_path p) = Some (fp_original p) \<and> fp_patched p \<noteq> fp_original p \<and>
    fp_patched p = concat (splice_all (sort_edits edits) (ensure_newline (splitlines_keep (fp_original p)))) \<and>
    (\<forall>e\<in>set edits. \<exists>n\<in>set (graph_nodes g). cn_file_path n = fp_path p \<and>
      (\<exists>s\<in>set (cn_progression n). ns_approved s \<and> ed_text e = ns_yaml s \<and> ns_hash s \<noteq> ns_hash (hd (cn_progression n))))"
proof -
  from assms obtain path edits orig where e: "(path, edits) \<in> set (edits_by_file False g)"
    "dict_get originals path = Some orig" "p \<in> set (patch_file L path orig edits)"
    by (auto simp: splice_modifications_def split: option.splits) (metis (no_types, lifting))
  have p: "fp_path p = path" "fp_original p = orig" "fp_patched p \<noteq> orig"
    "fp_patched p = concat (splice_all (sort_edits edits) (ensure_newline (splitlines_keep orig)))"
    using e(3) by (auto simp: patch_file_def Let_def split: if_splits)
  have "\<exists>n\<in>set (graph_nodes g). cn_file_path n = path \<and>
      (\<exists>s\<in>set (cn_progression n). ns_approved s \<and> ed_text x = ns_yaml s \<and> ns_hash s \<noteq> ns_hash (hd (cn_progression n)))"
    if "x \<in> set edits" for x
    using edits_by_file_source [OF e(1) that] node_edit_approved by blast
  with p e(2) show ?thesis by blast
qed

section \<open>Witnesses\<close>

definition sample_fix :: ai_fix where
  "sample_fix =
     \<lparr>af_snippet = ''b: 3'', af_rule_ids = [''L013''], af_explanation = [], af_confidence = 1, af_skipped = []\<rparr>"

definition sample_engine :: "(unit, unit, unit, unit) engine" where
  "sample_engine =
     \<lparr>en_lib = sample_lib, en_report_lib = \<lparr>rl_trunc = (\<lambda>_. 0), rl_serialize = (\<lambda>_ _ _. None)\<rparr>,
      en_registry = [(''L007'', \<lambda>m v. (m, True))], en_rules = [], en_rule_state = (),
      en_max_passes = 5, en_max_ai_attempts = 2, en_rescan_fn = Some (\<lambda>w g ids. (w, [])),
      en_provider = Some (\<lambda>w c. (w, Answer_fix sample_fix)), en_ai_error = False\<rparr>"

definition batch_run :: options where
  "batch_run = \<lparr>op_interactive = False, op_skip_ai = False, op_skip_tier1 = False\<rparr>"

definition sample_run :: "unit \<times> content_graph \<times> fix_report" where
  "sample_run = remediate sample_engine batch_run (Some [sample_violation ''L013'' ''t'']) () sample_graph"

abbreviation sample_final :: content_graph where
  "sample_final \<equiv> fst (snd sample_run)"

lemma sample_run_eq:
  "remediate sample_engine batch_run (Some [sample_violation ''L013'' ''t'']) () sample_graph =
     (fst sample_run, sample_final, snd (snd sample_run))"
  unfolding sample_run_def by (metis prod.collapse)

lemma sample_engine_ok: "graph_ok (en_lib sample_engine) sample_graph"
  using graph_ok_sample by (simp add: sample_engine_def)

theorem remediate_safe_witness:
  "graph_ok (en_lib sample_engine) sample_graph \<and> graph_ok (en_lib sample_engine) sample_final \<and>
   graph_evolves sample_graph sample_final"
  using remediate_safe [OF sample_run_eq sample_engine_ok] sample_engine_ok by blast


theorem remediate_bounded_witness:
  "length (rs_batches (converge sample_engine batch_run (Some [sample_violation ''L013'' ''t'']) () sample_graph)) \<le> 2 \<and>
   rs_batches (converge sample_engine (batch_run\<lparr>op_skip_ai := True\<rparr>) (Some [sample_violation ''L013'' ''t'']) () sample_graph) = []"
  using remediate_bounded [of sample_engine batch_run "Some [sample_violation ''L013'' ''t'']" "()" sample_graph]
    remediate_bounded [of sample_engine "batch_run\<lparr>op_skip_ai := True\<rparr>" "Some [sample_violation ''L013'' ''t'']" "()" sample_graph]
  by (simp add: sample_engine_def)

theorem ai_batches_eligible_witness:
  "[sample_violation ''L013'' ''t''] \<in>
     set (rs_batches (converge sample_engine batch_run (Some [sample_violation ''L013'' ''t'']) () sample_graph)) \<and>
   bare_id (sample_violation ''L013'' ''t'') \<notin> set FQCN_RULES"
proof -
  have b: "[sample_violation ''L013'' ''t''] \<in>
     set (rs_batches (converge sample_engine batch_run (Some [sample_violation ''L013'' ''t'']) () sample_graph))"
    by code_simp
  from ai_batches_eligible [OF b, of "sample_violation ''L013'' ''t''"] b show ?thesis by simp
qed


theorem splice_only_approved_witness:
  "\<exists>p\<in>set (splice_modifications sample_lib sample_final [(''site.yml'', ''a: 1'')] False).
     fp_original p = ''a: 1'' \<and> fp_patched p \<noteq> fp_original p"
proof -
  have "splice_modifications sample_lib sample_final [(''site.yml'', ''a: 1'')] False \<noteq> []" by code_simp
  then obtain p where p: "p \<in> set (splice_modifications sample_lib sample_final [(''site.yml'', ''a: 1'')] False)"
    using last_in_set by blast
  from splice_only_approved [OF p] p show ?thesis by (auto split: if_splits)
qed

section \<open>The batch run writes AI text\<close>


end
