(* ===== verification/Approval.thy ===== *)
theory Approval
  imports Upload Remediation_Props
begin

text \<open>
  What an approval does (\<open>daemon/engine_server.py\<close>): deciding the offered proposals on the graph,
  reverting everything that was not approved, splicing and formatting the approved content into
  the session's working files, and reconciling the session's accounting with the ledger.  The
  files under the session's temporary directory are the dictionary \<open>disk\<close> from absolute path to
  content; operating-system errors while writing are not modelled.
\<close>

section \<open>Working files and the temporary directory\<close>

definition working_files_key :: "file_lib \<Rightarrow> string option \<Rightarrow> string \<Rightarrow> string" where
  "working_files_key F temp_dir path =
     (case temp_dir of
        None \<Rightarrow> path
      | Some t \<Rightarrow>
          (case relative_to (parse_path path) (parse_path t) of
             Some r \<Rightarrow> show_path r
           | None \<Rightarrow>
               (case relative_to (fl_resolve F (parse_path path)) (fl_resolve F (parse_path t)) of
                  Some r \<Rightarrow> show_path r
                | None \<Rightarrow> path)))"

datatype write_error = Unsafe_patch_path string | Patch_escapes_root string

definition patch_target :: "file_lib \<Rightarrow> ppath \<Rightarrow> string \<Rightarrow> write_error + ppath" where
  "patch_target F base path =
     (let rel = parse_path path
      in if \<not> is_absolute rel \<and> ''..'' \<in> set (pp_parts rel) then Inl (Unsafe_patch_path path)
         else (let target = (if is_absolute rel then fl_resolve F rel else fl_resolve F (join_path base rel))
               in if is_relative_to target base then Inr target else Inl (Patch_escapes_root path)))"

fun write_patches :: "file_lib \<Rightarrow> ppath \<Rightarrow> file_patch list \<Rightarrow> files \<Rightarrow> files \<times> write_error option" where
  "write_patches F base [] disk = (disk, None)"
| "write_patches F base (p # ps) disk =
     (case patch_target F base (fp_path p) of
        Inl e \<Rightarrow> (disk, Some e)
      | Inr target \<Rightarrow> write_patches F base ps (dict_set (show_path target) (fl_encode F (fp_patched p)) disk))"

definition write_patches_to_temp_dir ::
  "file_lib \<Rightarrow> string \<Rightarrow> file_patch list \<Rightarrow> files \<Rightarrow> files \<times> write_error option" where
  "write_patches_to_temp_dir F temp_dir ps disk = write_patches F (fl_resolve F (parse_path temp_dir)) ps disk"

definition write_patches_to_session :: "file_lib \<Rightarrow> file_patch list \<Rightarrow> session \<Rightarrow> session" where
  "write_patches_to_session F ps s =
     s\<lparr>ss_working_files :=
         fold (\<lambda>p. dict_set (working_files_key F (ss_temp_dir s) (fp_path p)) (fl_encode F (fp_patched p))) ps (ss_working_files s)\<rparr>"

definition restored_patch :: "file_lib \<Rightarrow> string \<times> string \<Rightarrow> file_patch" where
  "restored_patch F kv =
     \<lparr>fp_path = fst kv, fp_original = [], fp_patched = fl_decode F (snd kv), fp_diff = [], fp_rule_ids = []\<rparr>"

definition restore_pre_gate2_files :: "file_lib \<Rightarrow> session \<Rightarrow> session \<times> file_patch list" where
  "restore_pre_gate2_files F s =
     (if ss_pre_gate2_files s = [] then (s, [])
      else (s\<lparr>ss_working_files := ss_pre_gate2_files s\<rparr>, map (restored_patch F) (ss_pre_gate2_files s)))"

definition format_patch :: "file_lib \<Rightarrow> file_patch \<Rightarrow> file_patch" where
  "format_patch F p =
     (let r = fl_format F (fp_patched p) (path_name (parse_path (fp_path p)))
      in if fm_changed r then p\<lparr>fp_patched := fm_formatted r\<rparr> else p)"

section \<open>Deciding proposals on the graph\<close>

definition has_unapproved :: "content_node \<Rightarrow> bool" where
  "has_unapproved n \<longleftrightarrow>
     list_ex (\<lambda>s. \<not> ns_approved s \<and> (ns_source s = ''ai'' \<or> ns_source s = ''deterministic'')) (cn_progression n)"

text \<open>The loop over \<open>graph.nodes()\<close> that reverts what was staged; \<open>keep\<close> are the nodes it skips.\<close>

definition reject_one ::
  "('m, 's) yaml_lib \<Rightarrow> string list \<Rightarrow> string \<Rightarrow> content_graph \<times> string list \<Rightarrow> content_graph \<times> string list" where
  "reject_one L keep nid st =
     (let (g, rejected) = st
      in if nid \<in> set keep then st
         else case get_node g nid of
                None \<Rightarrow> st
              | Some n \<Rightarrow>
                  (if has_unapproved n
                   then (fst (reject_node L nid g), if nid \<in> set rejected then rejected else rejected @ [nid]) else st))"

definition reject_leftovers ::
  "('m, 's) yaml_lib \<Rightarrow> string list \<Rightarrow> content_graph \<times> string list \<Rightarrow> content_graph \<times> string list" where
  "reject_leftovers L keep st = fold (reject_one L keep) (map node_id (graph_nodes (fst st))) st"

definition reject_unapproved_graph_progress :: "('m, 's) yaml_lib \<Rightarrow> content_graph \<Rightarrow> content_graph \<times> string list" where
  "reject_unapproved_graph_progress L g = reject_leftovers L [] (g, [])"

text \<open>\<open>f"{idx:04d}"\<close>.\<close>

definition pad4 :: "nat \<Rightarrow> string" where
  "pad4 n = replicate (4 - length (show_nat n)) (CHR ''0'') @ show_nat n"

definition proposal_node_map :: "ai_proposal list \<Rightarrow> tier1_proposal list \<Rightarrow> (string, string) dict" where
  "proposal_node_map ais t1s =
     fold (\<lambda>(i, p) m. dict_set (''g2-t1-'' @ pad4 i) (tp_node_id p) (dict_set (''t1-'' @ pad4 i) (tp_node_id p) m))
       (enumerate 0 t1s)
       (fold (\<lambda>(i, p). dict_set (''ai-'' @ pad4 i) (ap_node_id p)) (enumerate 0 ais) [])"

text \<open>The metadata kept of a decided proposal; only graph approvals keep its source.\<close>

definition meta_of :: "string \<Rightarrow> gate_proposal \<Rightarrow> proposal_meta" where
  "meta_of pid p =
     \<lparr>pm_proposal_id = pid, pm_rule_id = gp_rule_id p, pm_file = gp_file p, pm_tier = gp_tier p,
      pm_confidence = gp_confidence p, pm_source = None\<rparr>"

definition record_rejected_proposal :: "string \<Rightarrow> gate_proposal \<Rightarrow> session \<Rightarrow> session" where
  "record_rejected_proposal pid p s =
     (case dict_get (ss_rejected_proposals s) pid of
        None \<Rightarrow> s\<lparr>ss_rejected_proposals := dict_set pid (meta_of pid p) (ss_rejected_proposals s)\<rparr>
      | Some _ \<Rightarrow> s)"

definition insert_id :: "string \<Rightarrow> string list \<Rightarrow> string list" where
  "insert_id i is = (if i \<in> set is then is else is @ [i])"

record decision_state =
  ds_session :: session
  ds_graph :: content_graph
  ds_applied :: nat
  ds_rejected :: "string list"
  ds_approved :: "string list"

definition proposal_node :: "(string, string) dict \<Rightarrow> string \<Rightarrow> gate_proposal \<Rightarrow> string" where
  "proposal_node m pid p =
     (if strip (gp_path p) \<noteq> [] then strip (gp_path p) else case dict_get m pid of Some n \<Rightarrow> n | None \<Rightarrow> [])"

definition decide_one ::
  "('m, 's) yaml_lib \<Rightarrow> (string, string) dict \<Rightarrow> string list \<Rightarrow> string \<Rightarrow> decision_state \<Rightarrow> decision_state" where
  "decide_one L m approved_ids pid d =
     (case dict_get (ss_proposals (ds_session d)) pid of
        None \<Rightarrow> d
      | Some p \<Rightarrow>
          (let nid = proposal_node m pid p; s = ds_session d
           in if nid = [] then d
              else if pid \<in> set approved_ids
              then d\<lparr>ds_graph := fst (approve_node nid (ds_graph d)),
                     ds_approved := insert_id nid (ds_approved d),
                     ds_session := s\<lparr>ss_approved_proposals := ss_approved_proposals s @ [(meta_of pid p)\<lparr>pm_source := Some (gp_source p)\<rparr>],
                                     ss_approved_ids := insert_id pid (ss_approved_ids s),
                                     ss_proposals := dict_pop pid (ss_proposals s)\<rparr>,
                     ds_applied := Suc (ds_applied d)\<rparr>
              else d\<lparr>ds_graph := fst (reject_node L nid (ds_graph d)),
                     ds_rejected := insert_id nid (ds_rejected d),
                     ds_session := (record_rejected_proposal pid p s)\<lparr>ss_proposals := dict_pop pid (ss_proposals s)\<rparr>\<rparr>))"

definition decide_proposals ::
  "('m, 's) yaml_lib \<Rightarrow> string list \<Rightarrow> content_graph \<Rightarrow> session \<Rightarrow> decision_state" where
  "decide_proposals L approved_ids g s =
     fold (decide_one L (proposal_node_map (ss_ai_proposals s) (ss_tier1_proposals s)) approved_ids)
       (map fst (ss_proposals s))
       \<lparr>ds_session = s, ds_graph = g, ds_applied = 0, ds_rejected = [], ds_approved = []\<rparr>"

text \<open>\<open>_apply_graph_approvals\<close>: the session, the graph, what was applied, and the patches for the disk.\<close>

record approval_result =
  ar_session :: session
  ar_graph :: content_graph
  ar_applied :: nat
  ar_rejected :: "string list"
  ar_approved :: "string list"
  ar_patches :: "file_patch list"

definition apply_graph_approvals ::
  "('m, 's) yaml_lib \<Rightarrow> file_lib \<Rightarrow> string list \<Rightarrow> content_graph \<Rightarrow> session \<Rightarrow> approval_result" where
  "apply_graph_approvals L F approved_ids g s =
     (let d = decide_proposals L approved_ids g s;
          (g, rejected) = reject_leftovers L (ds_approved d) (ds_graph d, ds_rejected d);
          (s, restored) = restore_pre_gate2_files F (ds_session d);
          patches = map (format_patch F) (splice_modifications L g (ss_graph_originals s) False);
          s = write_patches_to_session F patches s;
          key = (\<lambda>p. working_files_key F (ss_temp_dir s) (fp_path p));
          merged = (if restored = [] then patches
                    else map snd (fold (\<lambda>p. dict_set (key p) p) (restored @ patches) []))
      in \<lparr>ar_session = s, ar_graph = g, ar_applied = ds_applied d, ar_rejected = rejected,
          ar_approved = ds_approved d, ar_patches = merged\<rparr>)"

section \<open>Reconciling\<close>

text \<open>\<open>_enrich_violations_from_graph\<close>, one violation at a time.\<close>

definition co_fixes_of :: "violation \<Rightarrow> content_node \<Rightarrow> string list" where
  "co_fixes_of v n =
     sort (map (\<lambda>r. snd (vr_key r))
       (filter (\<lambda>r. vr_status r = V_fixed \<and> snd (vr_key r) \<noteq> vget_str v ''rule_id'') (map snd (cn_ledger n))))"

definition enrich_violation :: "content_graph \<Rightarrow> bool \<Rightarrow> violation \<Rightarrow> violation" where
  "enrich_violation g fixed v =
     (if vget_str v ''path'' = [] then v
      else case get_node g (vget_str v ''path'') of
             None \<Rightarrow> v
           | Some n \<Rightarrow>
               (let v = dict_set ''node_type'' (VStr (node_type_value (node_kind n))) v; prog = cn_progression n
                in if prog = [] then v
                   else (let v = dict_set ''node_line_start'' (VInt (cn_line_start n))
                                   (dict_set ''original_yaml'' (VStr (normalize_proposal_yaml (ns_yaml (hd prog)))) v)
                         in if \<not> fixed then v
                            else (let a = (case last_approved prog of Some st \<Rightarrow> st | None \<Rightarrow> last prog);
                                      v = dict_set ''fixed_yaml'' (VStr (normalize_proposal_yaml (ns_yaml a))) v;
                                      co = co_fixes_of v n
                                  in if co = [] then v else dict_set ''co_fixes'' (VStrs co) v))))"

text \<open>The class of a violation as a string: the value of a \<open>RemediationClass\<close>, else its \<open>str\<close>.\<close>

definition class_text :: "violation \<Rightarrow> string" where
  "class_text v =
     (case vget v ''remediation_class'' of
        VNone \<Rightarrow> [] | VEnum cls m x \<Rightarrow> (if cls = ''RemediationClass'' then x else cls @ ''.'' @ m) | x \<Rightarrow> py_str x)"

definition set_class :: "remediation_class \<Rightarrow> violation \<Rightarrow> violation" where
  "set_class c v = dict_set ''remediation_class'' (class_vval c) v"

definition empty_report :: session_report where
  "empty_report =
     \<lparr>sr_passes = 0, sr_fixed = 0, sr_remaining_ai = 0, sr_remaining_manual = 0, sr_oscillation = False,
      sr_remaining_violations = [], sr_fixed_violations = []\<rparr>"

definition report_or_empty :: "session \<Rightarrow> session_report" where
  "report_or_empty s = (case ss_report s of Some r \<Rightarrow> r | None \<Rightarrow> empty_report)"

definition settle_proposed :: "string list \<Rightarrow> content_graph \<Rightarrow> content_graph" where
  "settle_proposed approved g =
     fold (\<lambda>nid g. if nid \<in> set approved then fst (approve_proposed nid g) else fst (decline_proposed nid g))
       (map node_id (graph_nodes g)) g"

definition reconcile_after_approval ::
  "audit_json \<Rightarrow> string list \<Rightarrow> content_graph \<Rightarrow> session \<Rightarrow> session \<times> content_graph" where
  "reconcile_after_approval J approved g s =
     (let g = settle_proposed approved g;
          unresolved = query_violations (Some V_open) None g @ query_violations (Some V_declined) None g
                       @ query_violations (Some V_ai_abstained) None g;
          remaining = map (enrich_violation g False) (map (set_class MANUAL_REVIEW) unresolved) @ ss_dep_health s;
          fixed = map (enrich_violation g True) (map (set_class AUTO_FIXABLE) (query_violations (Some V_fixed) None g));
          ai = filter (\<lambda>v. class_text v = class_value AI_CANDIDATE) remaining;
          manual = filter (\<lambda>v. class_text v \<noteq> class_value AI_CANDIDATE) remaining;
          old = report_or_empty s
      in (s\<lparr>ss_remaining_ai := ai, ss_remaining_manual := manual,
            ss_report := Some \<lparr>sr_passes = sr_passes old, sr_fixed = length fixed, sr_remaining_ai = length ai,
                               sr_remaining_manual = length manual, sr_oscillation = sr_oscillation old,
                               sr_remaining_violations = map (violation_dict_to_proto J) (ai @ manual),
                               sr_fixed_violations = map (violation_dict_to_proto J) fixed\<rparr>\<rparr>, g))"

section \<open>Text approvals\<close>

text \<open>\<open>text.replace(old, new, 1)\<close>, or \<open>None\<close> when \<open>old\<close> does not occur.\<close>

fun replace_first :: "string \<Rightarrow> string \<Rightarrow> string \<Rightarrow> string option" where
  "replace_first old new [] = (if old = [] then Some new else None)"
| "replace_first old new (c # cs) =
     (if startswith old (c # cs) then Some (new @ drop (length old) (c # cs))
      else map_option ((#) c) (replace_first old new cs))"

definition text_approval_one :: "file_lib \<Rightarrow> string \<Rightarrow> session \<times> nat \<Rightarrow> session \<times> nat" where
  "text_approval_one F pid st =
     (let (s, applied) = st
      in case dict_get (ss_proposals s) pid of
           None \<Rightarrow> st
         | Some p \<Rightarrow>
             (let content = (case dict_get (ss_working_files s) (gp_file p) of Some c \<Rightarrow> c | None \<Rightarrow> [])
              in case replace_first (gp_before p) (gp_after p) (fl_decode F content) of
                   None \<Rightarrow> st
                 | Some t \<Rightarrow>
                     (s\<lparr>ss_working_files := dict_set (gp_file p) (fl_encode F t) (ss_working_files s),
                        ss_approved_proposals := ss_approved_proposals s @ [meta_of pid p],
                        ss_proposals := dict_pop pid (ss_proposals s),
                        ss_approved_ids := insert_id pid (ss_approved_ids s)\<rparr>, Suc applied)))"

definition reject_remaining :: "session \<Rightarrow> session" where
  "reject_remaining s =
     fold (\<lambda>(pid, p) s. (record_rejected_proposal pid p s)\<lparr>ss_proposals := dict_pop pid (ss_proposals s)\<rparr>) (ss_proposals s) s"

text \<open>The approved identifiers are a set; the list gives its iteration order.\<close>

definition apply_text_approvals :: "file_lib \<Rightarrow> string list \<Rightarrow> session \<Rightarrow> session \<times> nat" where
  "apply_text_approvals F approved_ids s =
     (let (s, applied) = fold (text_approval_one F) approved_ids (s, 0) in (reject_remaining s, applied))"

section \<open>The approval of a session\<close>

definition is_graph_proposal :: "string \<Rightarrow> bool" where
  "is_graph_proposal pid \<longleftrightarrow> startswith ''ai-'' pid \<or> startswith ''t1-'' pid \<or> startswith ''g2-t1-'' pid"

definition session_apply_approved ::
  "('m, 's) yaml_lib \<Rightarrow> file_lib \<Rightarrow> audit_json \<Rightarrow> string list \<Rightarrow> bool \<Rightarrow> session
    \<Rightarrow> session \<times> nat \<times> file_patch list option" where
  "session_apply_approved L F J approved_ids finalize s =
     (if approved_ids = [] \<and> ss_proposals s = []
      then (s\<lparr>ss_review_declined := [], ss_status := (if finalize then S_complete else ss_status s),
              ss_awaiting_tier1_gate := False\<rparr>, 0, None)
      else
        let (s, applied, patches) =
              (case ss_content_graph s of
                 Some g \<Rightarrow>
                   (if list_ex is_graph_proposal (map fst (ss_proposals s))
                    then (let r = apply_graph_approvals L F approved_ids g s;
                              (s, g) = reconcile_after_approval J (ar_approved r) (ar_graph r) (ar_session r)
                          in (s\<lparr>ss_content_graph := Some g\<rparr>, ar_applied r, Some (ar_patches r)))
                    else (let (s, n) = apply_text_approvals F approved_ids s in (s, n, None)))
               | None \<Rightarrow> (let (s, n) = apply_text_approvals F approved_ids s in (s, n, None)))
        in (s\<lparr>ss_awaiting_tier1_gate := False, ss_review_declined := [],
              ss_status := (if finalize then S_complete else S_processing)\<rparr>, applied, patches))"

end
