(* ===== verification/Proposals.thy ===== *)
theory Proposals
  imports Approval
begin

text \<open>
  The proposals a session offers and the findings it escalates (\<open>daemon/engine_server.py\<close>): the
  proposal rows built from the graph engine's proposals, their consolidation at the second gate,
  the rows for what the AI could not fix, the candidates of the AI triage and the allow-list the
  user answers with.
\<close>

section \<open>Rows\<close>

definition normalized_proposal_yaml_pair ::
  "('m, 's) yaml_lib \<Rightarrow> string \<Rightarrow> string \<Rightarrow> string \<Rightarrow> string \<Rightarrow> string \<times> string \<times> string" where
  "normalized_proposal_yaml_pair L before_yaml after_yaml fromfile tofile =
     (let b = normalize_proposal_yaml before_yaml; a = normalize_proposal_yaml after_yaml
      in (b, a, lib_diff L (splitlines_keep b) (splitlines_keep a) fromfile tofile))"

definition tier1_row :: "('m, 's) yaml_lib \<Rightarrow> nat \<times> tier1_proposal \<Rightarrow> gate_proposal" where
  "tier1_row L ip =
     (let (i, t) = ip;
          rule_id = (if tp_rule_ids t = [] then ''deterministic'' else join '','' (tp_rule_ids t));
          (b, a, diff) = normalized_proposal_yaml_pair L (tp_before t) (tp_after t)
             (''a/'' @ tp_file_path t) (''b/'' @ tp_file_path t @ '' (Tier 1)'')
      in \<lparr>gp_id = ''t1-'' @ pad4 i, gp_file = tp_file_path t, gp_rule_id = rule_id, gp_line_start = tp_line_start t,
          gp_line_end = tp_line_end t, gp_before = b, gp_after = a, gp_diff = diff, gp_confidence = 1,
          gp_explanation = (if tp_summaries t = [] then ''Deterministic fix for '' @ rule_id
                            else join [LF] (filter (\<lambda>s. s \<noteq> []) (tp_summaries t))),
          gp_tier = 1, gp_status = ''proposed'', gp_suggestion = [], gp_source = ''deterministic'',
          gp_path = tp_node_id t, gp_node_type = tp_node_type t\<rparr>)"

definition build_tier1_proposals :: "('m, 's) yaml_lib \<Rightarrow> tier1_proposal list \<Rightarrow> gate_proposal list" where
  "build_tier1_proposals L ts = map (tier1_row L) (enumerate 0 ts)"

definition ai_row :: "('m, 's) yaml_lib \<Rightarrow> nat \<times> ai_proposal \<Rightarrow> gate_proposal" where
  "ai_row L ip =
     (let (i, p) = ip;
          (b, a, diff) = normalized_proposal_yaml_pair L (ap_before p) (ap_after p)
             (''a/'' @ ap_file_path p) (''b/'' @ ap_file_path p @ '' (AI proposed)'')
      in \<lparr>gp_id = ''ai-'' @ pad4 i, gp_file = ap_file_path p,
          gp_rule_id = (if ap_rule_ids p = [] then ''ai-fix'' else join '','' (ap_rule_ids p)),
          gp_line_start = ap_line_start p, gp_line_end = ap_line_end p, gp_before = b, gp_after = a, gp_diff = diff,
          gp_confidence = ap_confidence p, gp_explanation = ap_explanation p, gp_tier = 2, gp_status = ''proposed'',
          gp_suggestion = [], gp_source = ''ai'', gp_path = ap_node_id p, gp_node_type = ap_node_type p\<rparr>)"

definition build_graph_proposals :: "('m, 's) yaml_lib \<Rightarrow> ai_proposal list \<Rightarrow> gate_proposal list" where
  "build_graph_proposals L ps = map (ai_row L) (enumerate 0 ps)"

text \<open>The tier 1 rows of the second gate, renamed and moved to tier 2.\<close>

definition gate2_tier1_rows :: "('m, 's) yaml_lib \<Rightarrow> tier1_proposal list \<Rightarrow> gate_proposal list" where
  "gate2_tier1_rows L ts =
     map (\<lambda>(i, p). p\<lparr>gp_id := ''g2-t1-'' @ pad4 i, gp_tier := 2\<rparr>) (enumerate 0 (build_tier1_proposals L ts))"

section \<open>One row per node\<close>

definition row_key :: "gate_proposal \<Rightarrow> string" where
  "row_key p = (if strip (gp_path p) = [] then gp_id p else strip (gp_path p))"

definition rule_names :: "string \<Rightarrow> string list" where
  "rule_names s = filter (\<lambda>r. r \<noteq> []) (map strip (split_on (CHR '','') s))"

definition merge_rows :: "gate_proposal \<Rightarrow> gate_proposal \<Rightarrow> gate_proposal" where
  "merge_rows existing tier1 =
     (let merged = sort (remdups (rule_names (gp_rule_id existing) @ rule_names (gp_rule_id tier1)));
          rationale = (if gp_explanation tier1 = [] then [] else [''[tier-1/deterministic] '' @ gp_explanation tier1])
                      @ (if gp_explanation existing = [] then [] else [''[tier-2/ai] '' @ gp_explanation existing])
      in existing\<lparr>gp_rule_id := (if merged = [] then gp_rule_id existing else join '','' merged),
                  gp_after := gp_after tier1, gp_diff := gp_diff tier1, gp_explanation := join [LF] rationale\<rparr>)"

definition add_tier1_row :: "gate_proposal \<Rightarrow> (string, gate_proposal) dict \<Rightarrow> (string, gate_proposal) dict" where
  "add_tier1_row t d =
     (case dict_get d (row_key t) of
        Some existing \<Rightarrow> dict_set (row_key t) (merge_rows existing t) d
      | None \<Rightarrow> dict_set (row_key t) t d)"

text \<open>The list \<open>order\<close> of the code is the insertion order of the dictionary.\<close>

definition gate2_rows :: "gate_proposal list \<Rightarrow> gate_proposal list \<Rightarrow> (string, gate_proposal) dict" where
  "gate2_rows ais t1s = fold add_tier1_row t1s (fold (\<lambda>p. dict_set (row_key p) p) ais [])"

definition consolidate_gate2_proposals :: "gate_proposal list \<Rightarrow> gate_proposal list \<Rightarrow> gate_proposal list" where
  "consolidate_gate2_proposals ais t1s = map snd (gate2_rows ais t1s)"

section \<open>What the AI could not fix\<close>

definition proposed_rule_files :: "gate_proposal list \<Rightarrow> (string \<times> string) list" where
  "proposed_rule_files ps = concat (map (\<lambda>p. map (\<lambda>r. (r, gp_file p)) (rule_names (gp_rule_id p))) ps)"

definition declined_class_text :: "violation \<Rightarrow> string" where
  "declined_class_text v =
     (case vget v ''remediation_class'' of VEnum cls m x \<Rightarrow> x | x \<Rightarrow> (if truthy x then py_str x else []))"

definition declined_line :: "vval \<Rightarrow> int" where
  "declined_line x =
     (case x of
        VNone \<Rightarrow> 0
      | VInts is \<Rightarrow> (case is of [] \<Rightarrow> 0 | i # _ \<Rightarrow> i)
      | VStrs ss \<Rightarrow> (case ss of [] \<Rightarrow> 0 | s # _ \<Rightarrow> (case parse_int s of Some i \<Rightarrow> i | None \<Rightarrow> 0))
      | _ \<Rightarrow> (case parse_int (py_str x) of Some i \<Rightarrow> i | None \<Rightarrow> 0))"

definition declined_row :: "nat \<Rightarrow> violation \<Rightarrow> gate_proposal" where
  "declined_row i v =
     \<lparr>gp_id = ''ai-declined-'' @ pad4 i, gp_file = vget_str v ''file'', gp_rule_id = vget_str v ''rule_id'',
      gp_line_start = declined_line (vget v ''line''), gp_line_end = 0, gp_before = [], gp_after = [], gp_diff = [],
      gp_confidence = 0, gp_explanation = ''AI could not generate a fix for this violation.'', gp_tier = 2,
      gp_status = ''declined'', gp_suggestion = vget_str v ''message'', gp_source = ''ai'',
      gp_path = vget_or_str v ''path'', gp_node_type = vget_or_str v ''node_type''\<rparr>"

definition build_declined_proposals ::
  "violation list \<Rightarrow> (string \<times> string) list \<Rightarrow> nat \<Rightarrow> gate_proposal list" where
  "build_declined_proposals remaining covered start =
     map (\<lambda>(i, v). declined_row i v)
       (enumerate start (filter (\<lambda>v. declined_class_text v = class_value AI_CANDIDATE
                                     \<and> (vget_str v ''rule_id'', vget_str v ''file'') \<notin> set covered) remaining))"

section \<open>Triage\<close>

definition triage_snippet :: "content_graph \<Rightarrow> violation \<Rightarrow> violation" where
  "triage_snippet g v =
     (case get_node g (strip (vget_or_str v ''path'')) of
        None \<Rightarrow> v
      | Some n \<Rightarrow>
          (if cn_yaml n = [] then v
           else dict_set ''node_line_start'' (VInt (cn_line_start n))
                  (dict_set ''original_yaml'' (VStr (normalize_proposal_yaml (cn_yaml n))) v)))"

definition is_ai_candidate :: "violation \<Rightarrow> bool" where
  "is_ai_candidate v \<longleftrightarrow> class_text v = class_value AI_CANDIDATE"

definition open_findings :: "content_graph \<Rightarrow> violation list" where
  "open_findings g = add_classification (query_violations (Some V_open) None g)"

definition collect_ai_triage_candidates :: "session \<Rightarrow> violation list" where
  "collect_ai_triage_candidates s =
     (case ss_content_graph s of
        None \<Rightarrow> []
      | Some g \<Rightarrow>
          map (triage_snippet g)
            (filter (\<lambda>v. is_ai_candidate v \<and> strip (vget_or_str v ''path'') \<noteq> [])
               (map (enrich_violation g False) (open_findings g))))"

definition escalated :: "(string \<times> string list) list \<Rightarrow> violation \<Rightarrow> bool" where
  "escalated targets v =
     list_ex (\<lambda>(path, rules). vget_or_str v ''path'' = path \<and>
        (rules = [] \<or> normalize_rule_id (vget_or_str v ''rule_id'') \<in> set (map normalize_rule_id rules))) targets"

definition filter_violations_by_escalate_targets ::
  "(string \<times> string list) list option \<Rightarrow> violation list \<Rightarrow> violation list" where
  "filter_violations_by_escalate_targets targets vs =
     (case targets of None \<Rightarrow> vs | Some ts \<Rightarrow> (if ts = [] then [] else filter (escalated ts) vs))"

definition escalate_key :: "violation \<Rightarrow> vkey" where
  "escalate_key v = (vget_or_str v ''path'', normalize_rule_id (vget_or_str v ''rule_id''))"

definition skipped_findings :: "(string \<times> string list) list \<Rightarrow> content_graph \<Rightarrow> violation list" where
  "skipped_findings ts g =
     (let vs = open_findings g;
          allowed = map escalate_key (filter_violations_by_escalate_targets (Some ts) vs)
      in filter (\<lambda>v. is_ai_candidate v \<and> escalate_key v \<notin> set allowed) vs)"

definition decline_skipped_ai_escalation :: "session \<Rightarrow> session \<times> nat" where
  "decline_skipped_ai_escalation s =
     (case (ss_ai_escalate_targets s, ss_content_graph s) of
        (Some ts, Some g) \<Rightarrow>
          (let skipped = skipped_findings ts g
           in if skipped = [] then (s, 0)
              else (let (g, n) = decline_open_violations skipped g in (s\<lparr>ss_content_graph := Some g\<rparr>, n)))
      | _ \<Rightarrow> (s, 0))"

end
