(* ===== verification/Session_Run.thy ===== *)
theory Session_Run
  imports Proposals
begin

text \<open>
  What a fix session runs (\<open>daemon/engine_server.py\<close>): the events it sends, progress and deadline
  supervision, the materialised files, formatting, the galaxy configuration, and the building
  and replaying of results.

  A handler works on a \<open>run\<close>: the session, the files under the temporary directories, the events sent
  so far and the completion events handed to the sinks.  Every reading of the clocks takes the next
  value of \<open>dp_clock\<close>.  A \<open>schedule\<close> says what the event loop decides: how often a worker thread is
  polled before it is done, what the drain loop receives while the remediation task runs, how that
  task ends and what it makes of the graph when it is interrupted.  Parameters (\<open>deps\<close>): the scan
  pipeline, the validators, the AI provider, and the libraries of the other theories.
\<close>

section \<open>Events\<close>

record tier1_summary =
  ts_patches :: "file_patch list"
  ts_format_diffs :: "file_diff list"
  ts_idempotency_ok :: bool
  ts_report :: session_report

record session_result =
  sres_patches :: "file_patch list"
  sres_report :: session_report
  sres_remaining :: "proto_violation list"
  sres_fixed :: "proto_violation list"

datatype session_event =
    Ev_created string int int
  | Ev_progress progress_update
  | Ev_tier1_complete tier1_summary
  | Ev_findings "proto_violation list" session_status int
  | Ev_proposals "gate_proposal list" nat session_status
  | Ev_ai_triage "proto_violation list" session_status int
  | Ev_approval_ack nat session_status int
  | Ev_result session_result
  | Ev_error string
  | Ev_closed

fun is_error_event :: "session_event \<Rightarrow> bool" where
  "is_error_event (Ev_error _) = True"
| "is_error_event _ = False"

record proposal_outcome =
  po_proposal_id :: string
  po_rule_id :: string
  po_file :: string
  po_tier :: nat
  po_confidence :: real
  po_status :: string

text \<open>The completion event; the graph stands for its JSON form.\<close>

record fix_event =
  fe_scan_id :: string
  fe_session_id :: string
  fe_project_path :: string
  fe_remaining :: "proto_violation list"
  fe_fixed :: "proto_violation list"
  fe_total :: nat
  fe_auto_fixable :: nat
  fe_ai_candidate :: nat
  fe_manual_review :: nat
  fe_report :: session_report
  fe_proposals :: "proposal_outcome list"
  fe_logs :: "progress_update list"
  fe_patches :: "file_patch list"
  fe_manifest :: manifest_data
  fe_graph :: "content_graph option"

section \<open>Runs\<close>

text \<open>The exceptions the session handler tells apart; a \<open>UnicodeDecodeError\<close> is a \<open>ValueError\<close>.\<close>

datatype failure = F_resource_exhausted | F_collection_dependency | F_required_validator | F_value_error | F_other

record scan_result =
  sn_violations :: "violation list"
  sn_graph :: "content_graph option"
  sn_logs :: "progress_update list"
  sn_venv :: "(string \<times> manifest_data) option"

record ('m, 's, 'w, 'r) deps =
  dp_engine :: "('m, 's, 'w, 'r) engine"
  dp_provider :: "fix_options \<Rightarrow> ('w \<Rightarrow> ai_context \<Rightarrow> 'w \<times> ai_answer) option"
  dp_validators :: "'w \<Rightarrow> content_graph \<Rightarrow> string list \<Rightarrow> 'w \<times> violation list"
  dp_scan :: "'w \<Rightarrow> session \<Rightarrow> (string \<times> string) list \<Rightarrow> 'w \<times> (failure + scan_result)"
  dp_missing_opt_in :: "session \<Rightarrow> string list"
  dp_files :: file_lib
  dp_json :: audit_json
  dp_caps :: upload_caps
  dp_budgets :: budget_env
  dp_sessions :: session_env
  dp_clock :: "nat \<Rightarrow> clock"

record 'w run =
  rn_session :: session
  rn_world :: 'w
  rn_disk :: files
  rn_ticks :: nat
  rn_events :: "session_event list"
  rn_emitted :: "fix_event list"

datatype turn = T_timeout | T_update progress_update | T_ai_phase "violation list"

datatype task_end = Task_done | Task_raised string | Task_cancelled

record 'w schedule =
  sc_format_polls :: nat
  sc_write_polls :: nat
  sc_idem_polls :: nat
  sc_turns :: "turn list"
  sc_late :: "progress_update list"
  sc_end :: task_end
  sc_left_graph :: "content_graph \<Rightarrow> content_graph"
  sc_left_world :: 'w
  sc_left_ai_error :: bool
  sc_temp_dir :: string
  sc_galaxy_cfg :: "string option"
  sc_session_id :: string

definition read_clock :: "('m, 's, 'w, 'r) deps \<Rightarrow> 'w run \<Rightarrow> clock \<times> 'w run" where
  "read_clock D R = (dp_clock D (rn_ticks R), R\<lparr>rn_ticks := Suc (rn_ticks R)\<rparr>)"

definition on_session :: "(session \<Rightarrow> session) \<Rightarrow> 'w run \<Rightarrow> 'w run" where
  "on_session f R = R\<lparr>rn_session := f (rn_session R)\<rparr>"

definition send :: "session_event \<Rightarrow> 'w run \<Rightarrow> 'w run" where
  "send e R = R\<lparr>rn_events := rn_events R @ [e]\<rparr>"

definition set_status :: "session_status \<Rightarrow> 'w run \<Rightarrow> 'w run" where
  "set_status st = on_session (\<lambda>s. s\<lparr>ss_status := st\<rparr>)"

definition run_touch :: "('m, 's, 'w, 'r) deps \<Rightarrow> 'w run \<Rightarrow> 'w run" where
  "run_touch D R = (let (t, R) = read_clock D R in on_session (touch t) R)"

definition run_ttl :: "('m, 's, 'w, 'r) deps \<Rightarrow> 'w run \<Rightarrow> int \<times> 'w run" where
  "run_ttl D R = (let (t, R) = read_clock D R in (ttl_seconds (dp_sessions D) t (rn_session R), R))"

text \<open>\<open>SessionCreated\<close> with the session's identifier, time to live and budget.\<close>

definition send_created :: "('m, 's, 'w, 'r) deps \<Rightarrow> 'w run \<Rightarrow> 'w run" where
  "send_created D R =
     (let (ttl, R) = run_ttl D R
      in send (Ev_created (ss_session_id (rn_session R)) ttl (ss_operation_budget_s (rn_session R))) R)"

section \<open>Progress and deadlines\<close>

definition progress :: "string \<Rightarrow> string \<Rightarrow> nat \<Rightarrow> progress_update" where
  "progress message phase level =
     \<lparr>pu_message = message, pu_phase = phase, pu_level = level, pu_generation = 0, pu_budget_seconds = 0\<rparr>"

definition stamp_progress_update ::
  "('m, 's, 'w, 'r) deps \<Rightarrow> progress_update \<Rightarrow> 'w run \<Rightarrow> progress_update \<times> 'w run" where
  "stamp_progress_update D u R =
     (let u = u\<lparr>pu_generation := ss_operation_generation (rn_session R)\<rparr>
      in if ss_operation_budget_s (rn_session R) > 0
         then (let (t, R) = read_clock D R in (u\<lparr>pu_budget_seconds := operation_budget_remaining t (rn_session R)\<rparr>, R))
         else (u, R))"

definition log_progress :: "progress_update \<Rightarrow> 'w run \<Rightarrow> 'w run" where
  "log_progress u R = send (Ev_progress u) (on_session (\<lambda>s. s\<lparr>ss_progress_logs := ss_progress_logs s @ [u]\<rparr>) R)"

text \<open>\<open>record_progress\<close>, stamp, append to the log and send.\<close>

definition report_progress :: "('m, 's, 'w, 'r) deps \<Rightarrow> progress_update \<Rightarrow> 'w run \<Rightarrow> 'w run" where
  "report_progress D u R =
     (let (t, R) = read_clock D R;
          R = on_session (record_progress t (is_task_linked_progress (pu_phase u))) R;
          (u, R) = stamp_progress_update D u R
      in log_progress u R)"

definition progress_matches_phase :: "progress_update \<Rightarrow> session \<Rightarrow> bool" where
  "progress_matches_phase u s \<longleftrightarrow> pu_generation u = 0 \<or> pu_generation u = ss_operation_generation s"

fun deadline_code_text :: "deadline_code \<Rightarrow> string" where
  "deadline_code_text Session_lifetime_exceeded = ''session_lifetime_exceeded''"
| "deadline_code_text Operation_budget_exceeded = ''operation_budget_exceeded''"
| "deadline_code_text Operation_stalled = ''operation_stalled''"

definition deadline_hit :: "('m, 's, 'w, 'r) deps \<Rightarrow> session \<Rightarrow> clock \<Rightarrow> deadline_error option" where
  "deadline_hit D s t =
     check_operation_deadline (dp_budgets D) (ss_operation_budget_s s) (ss_operation_started_at s)
       (ss_last_progress_at s) (ck_mono t) (ss_max_lifetime_deadline s)"

definition check_deadline_event :: "('m, 's, 'w, 'r) deps \<Rightarrow> 'w run \<Rightarrow> string option \<times> 'w run" where
  "check_deadline_event D R =
     (let (t, R) = read_clock D R
      in (map_option (\<lambda>e. case e of OperationDeadlineError code _ \<Rightarrow> deadline_code_text code) (deadline_hit D (rn_session R) t), R))"

text \<open>\<open>_supervise_executor\<close>: the worker is polled \<open>n\<close> times before it is done.\<close>

fun supervise_executor :: "('m, 's, 'w, 'r) deps \<Rightarrow> nat \<Rightarrow> 'w run \<Rightarrow> string option \<times> 'w run" where
  "supervise_executor D 0 R = (None, R)"
| "supervise_executor D (Suc n) R =
     (let (err, R) = check_deadline_event D R
      in case err of Some code \<Rightarrow> (Some code, R) | None \<Rightarrow> supervise_executor D n R)"

definition FALLBACK_NON_AI_OPERATION_BUDGET :: int where
  "FALLBACK_NON_AI_OPERATION_BUDGET = 600"

definition begin_non_ai_operation_budget :: "('m, 's, 'w, 'r) deps \<Rightarrow> int \<Rightarrow> 'w run \<Rightarrow> 'w run" where
  "begin_non_ai_operation_budget D violation_count R =
     (let budget = (case estimate_non_ai_budget (dp_budgets D) violation_count None None None of
                      Inl _ \<Rightarrow> FALLBACK_NON_AI_OPERATION_BUDGET | Inr b \<Rightarrow> b);
          (t, R) = read_clock D R
      in on_session (begin_operation_phase t budget) R)"

text \<open>The budget for the AI nodes of tier-2 violations; \<open>None\<close> is the \<open>BudgetConfigError\<close>.\<close>

definition begin_ai_operation_budget :: "('m, 's, 'w, 'r) deps \<Rightarrow> violation list \<Rightarrow> 'w run \<Rightarrow> 'w run option" where
  "begin_ai_operation_budget D tier2 R =
     (case estimate_ai_budget (dp_budgets D) (int (count_ai_nodes tier2)) (Some (AI_CONCURRENCY (dp_budgets D))) None
             (int (en_max_ai_attempts (dp_engine D))) None None of
        Inl _ \<Rightarrow> None
      | Inr b \<Rightarrow> (let (t, R) = read_clock D R in Some (on_session (begin_operation_phase t b) R)))"

text \<open>
  One turn of the drain loop.  \<open>T_ai_phase\<close> is the callback at the start of an AI phase, which
  re-anchors the budget when it is installed.
\<close>

definition take_turn :: "('m, 's, 'w, 'r) deps \<Rightarrow> bool \<Rightarrow> turn \<Rightarrow> 'w run \<Rightarrow> 'w run" where
  "take_turn D callback t R =
     (case t of
        T_timeout \<Rightarrow> R
      | T_update u \<Rightarrow> (if progress_matches_phase u (rn_session R) then report_progress D u R else R)
      | T_ai_phase vs \<Rightarrow>
          (if callback then (case begin_ai_operation_budget D vs R of Some R' \<Rightarrow> R' | None \<Rightarrow> R) else R))"

fun drain_loop :: "('m, 's, 'w, 'r) deps \<Rightarrow> bool \<Rightarrow> turn list \<Rightarrow> 'w run \<Rightarrow> bool \<times> 'w run" where
  "drain_loop D callback [] R = (True, R)"
| "drain_loop D callback (t # ts) R =
     (let (err, R) = check_deadline_event D R
      in case err of
           Some code \<Rightarrow> (False, send (Ev_error code) R)
         | None \<Rightarrow> drain_loop D callback ts (take_turn D callback t R))"

text \<open>\<open>_drain_remediate_task\<close>; the result says whether the task ended with a result.\<close>

definition drain_remediate_task ::
  "('m, 's, 'w, 'r) deps \<Rightarrow> bool \<Rightarrow> 'w schedule \<Rightarrow> 'w run \<Rightarrow> bool \<times> 'w run" where
  "drain_remediate_task D callback sc R =
     (let (ended, R) = drain_loop D callback (sc_turns sc) R
      in if \<not> ended then (False, R)
         else case sc_end sc of
                Task_cancelled \<Rightarrow> (False, R)
              | Task_raised code \<Rightarrow> (False, send (Ev_error code) R)
              | Task_done \<Rightarrow> (True, fold (\<lambda>u. take_turn D callback (T_update u)) (sc_late sc) R))"

section \<open>Files\<close>

definition read_file :: "file_lib \<Rightarrow> files \<Rightarrow> string \<Rightarrow> string option" where
  "read_file F disk path = dict_get disk (show_path (fl_resolve F (parse_path path)))"

definition write_file :: "file_lib \<Rightarrow> string \<Rightarrow> string \<Rightarrow> files \<Rightarrow> files" where
  "write_file F path content disk = dict_set (show_path (fl_resolve F (parse_path path))) content disk"

text \<open>\<open>write_chunked_fs\<close> (\<open>daemon/fs_utils.py\<close>) below the new directory \<open>tmp\<close>.\<close>

fun write_chunked_fs :: "file_lib \<Rightarrow> ppath \<Rightarrow> (string \<times> string) list \<Rightarrow> files \<Rightarrow> failure + files" where
  "write_chunked_fs F tmp [] disk = Inr disk"
| "write_chunked_fs F tmp ((p, c) # fs) disk =
     (let rel = parse_path p; path = fl_resolve F (join_path tmp rel)
      in if is_absolute rel \<or> ''..'' \<in> set (pp_parts rel) then Inl F_value_error
         else if \<not> is_relative_to path tmp then Inl F_value_error
         else write_chunked_fs F tmp fs (dict_set (show_path path) c disk))"

definition file_proto_from_path :: "file_lib \<Rightarrow> string \<Rightarrow> files \<Rightarrow> string \<Rightarrow> failure + (string \<times> string)" where
  "file_proto_from_path F temp_dir disk fp =
     (if is_absolute (parse_path fp)
      then (case relative_to (parse_path fp) (parse_path temp_dir) of
              None \<Rightarrow> Inl F_value_error
            | Some r \<Rightarrow> (case read_file F disk fp of None \<Rightarrow> Inl F_other | Some c \<Rightarrow> Inr (show_path r, c)))
      else (case read_file F disk fp of None \<Rightarrow> Inl F_other | Some c \<Rightarrow> Inr (fp, c)))"

text \<open>Reading text translates \<open>\r\n\<close> and \<open>\r\<close> to line feeds.\<close>

definition universal_newlines :: "string \<Rightarrow> string" where
  "universal_newlines s = map (\<lambda>c. if c = CR then LF else c) (crlf_to_lf s)"

fun load_yaml_originals :: "file_lib \<Rightarrow> string \<Rightarrow> files \<Rightarrow> string list \<Rightarrow> files \<Rightarrow> failure + files" where
  "load_yaml_originals F temp_dir disk [] d = Inr d"
| "load_yaml_originals F temp_dir disk (yp # yps) d =
     (case read_file F disk yp of
        None \<Rightarrow> load_yaml_originals F temp_dir disk yps d
      | Some bytes \<Rightarrow>
          (case fl_decode_strict F bytes of
             None \<Rightarrow> Inl F_value_error
           | Some t \<Rightarrow>
               (let content = universal_newlines t;
                    d = dict_set yp content d;
                    d = (case relative_to (parse_path yp) (parse_path temp_dir) of
                           None \<Rightarrow> d | Some r \<Rightarrow> dict_set (show_path r) content d)
                in load_yaml_originals F temp_dir disk yps d)))"

definition is_yaml_path :: "string \<Rightarrow> bool" where
  "is_yaml_path p \<longleftrightarrow> endswith ''.yml'' p \<or> endswith ''.yaml'' p"

text \<open>\<open>_format_files\<close>: the fdiffs and the files that were skipped with the reason.\<close>

definition format_file :: "file_lib \<Rightarrow> string \<times> string \<Rightarrow> file_diff list \<times> (string \<times> string) list" where
  "format_file F pc =
     (let (p, c) = pc
      in if \<not> is_yaml_path p then ([], [])
         else case fl_decode_strict F c of
                None \<Rightarrow> ([], [(p, ''not valid UTF-8'')])
              | Some t \<Rightarrow>
                  (let r = fl_format F t p;
                       fdiffs = (if fm_changed r
                                then [\<lparr>fd_path = p, fd_original = c, fd_formatted = fl_encode F (fm_formatted r), fd_diff = fm_diff r\<rparr>]
                                else [])
                   in case fm_error r of None \<Rightarrow> (fdiffs, []) | Some e \<Rightarrow> (if e = [] then (fdiffs, []) else ([], [(p, e)]))))"

definition format_files :: "file_lib \<Rightarrow> (string \<times> string) list \<Rightarrow> file_diff list \<times> (string \<times> string) list" where
  "format_files F fs = (concat (map (fst \<circ> format_file F) fs), concat (map (snd \<circ> format_file F) fs))"

section \<open>Galaxy configuration\<close>

record galaxy_config =
  gc_name :: string
  gc_url :: string
  gc_token :: "string option"
  gc_auth_url :: "string option"
  gc_validate_certs :: "bool option"

definition or_none :: "string \<Rightarrow> string option" where
  "or_none s = (if s = [] then None else Some s)"

text \<open>
  The loop \<open>while name in seen_names\<close>: among the suffixes \<open>1, 2, \<dots>\<close> the first whose name is new.  The
  fuel is one more than the number of names seen, which is enough.
\<close>

fun free_name :: "nat \<Rightarrow> string \<Rightarrow> nat \<Rightarrow> string list \<Rightarrow> string option" where
  "free_name 0 stem i seen = None"
| "free_name (Suc fuel) stem i seen =
     (let name = (if i = 0 then stem else stem @ ''_'' @ show_nat i)
      in if name \<in> set seen then free_name fuel stem (Suc i) seen else Some name)"

definition add_galaxy_config ::
  "nat \<times> galaxy_server \<Rightarrow> (string list \<times> galaxy_config list) option \<Rightarrow> (string list \<times> galaxy_config list) option" where
  "add_galaxy_config is st =
     (case st of
        None \<Rightarrow> None
      | Some (seen, configs) \<Rightarrow>
          (let (i, sv) = is; url = strip (gs_url sv)
           in if url = [] then st
              else case free_name (Suc (length seen)) (if gs_name sv = [] then ''server_'' @ show_nat i else gs_name sv) 0 seen of
                     None \<Rightarrow> None
                   | Some name \<Rightarrow>
                       Some (seen @ [name],
                             configs @ [\<lparr>gc_name = name, gc_url = url, gc_token = or_none (gs_token sv),
                                         gc_auth_url = or_none (gs_auth_url sv), gc_validate_certs = gs_validate_certs sv\<rparr>])))"

definition session_galaxy_configs :: "galaxy_server list \<Rightarrow> galaxy_config list option" where
  "session_galaxy_configs servers = map_option snd (fold add_galaxy_config (enumerate 0 servers) (Some ([], [])))"

text \<open>The file written by \<open>write_temp_ansible_cfg\<close> is a parameter: \<open>cfg\<close>, or \<open>None\<close> when writing failed.\<close>

definition write_session_galaxy_cfg :: "string option \<Rightarrow> galaxy_server list \<Rightarrow> string option" where
  "write_session_galaxy_cfg cfg servers =
     (case session_galaxy_configs servers of None \<Rightarrow> None | Some configs \<Rightarrow> (if configs = [] then None else cfg))"

section \<open>Results\<close>

definition result_patch :: "('m, 's, 'w, 'r) deps \<Rightarrow> session \<Rightarrow> string \<times> string \<Rightarrow> file_patch list" where
  "result_patch D s kv =
     (let (path, patched) = kv;
          original = (case dict_get (ss_original_files s) path of Some c \<Rightarrow> c | None \<Rightarrow> []);
          dec = fl_decode (dp_files D)
      in if patched = original then []
         else [\<lparr>fp_path = path, fp_original = original, fp_patched = patched,
                fp_diff = lib_diff (en_lib (dp_engine D)) (splitlines_keep (dec original)) (splitlines_keep (dec patched))
                            (''a/'' @ path) (''b/'' @ path),
                fp_rule_ids = []\<rparr>])"

definition serialized_result :: "('m, 's, 'w, 'r) deps \<Rightarrow> session \<Rightarrow> session_result" where
  "serialized_result D s =
     \<lparr>sres_patches = concat (map (result_patch D s) (ss_working_files s)), sres_report = report_or_empty s,
      sres_remaining = map (violation_dict_to_proto (dp_json D)) (ss_remaining_ai s @ ss_remaining_manual s),
      sres_fixed = sr_fixed_violations (report_or_empty s)\<rparr>"

definition meta_outcome :: "string \<Rightarrow> proposal_meta \<Rightarrow> proposal_outcome" where
  "meta_outcome status m =
     \<lparr>po_proposal_id = pm_proposal_id m, po_rule_id = pm_rule_id m, po_file = pm_file m, po_tier = pm_tier m,
      po_confidence = pm_confidence m, po_status = status\<rparr>"

definition proposal_outcomes :: "session \<Rightarrow> proposal_outcome list" where
  "proposal_outcomes s =
     map (meta_outcome ''approved'') (ss_approved_proposals s)
     @ map (\<lambda>(pid, m). meta_outcome ''rejected'' m) (ss_rejected_proposals s)
     @ map (\<lambda>(pid, p). meta_outcome ''rejected'' (meta_of pid p))
         (filter (\<lambda>(pid, p). dict_get (ss_rejected_proposals s) pid = None) (ss_proposals s))"

definition build_fix_event ::
  "session \<Rightarrow> proto_violation list \<Rightarrow> proto_violation list \<Rightarrow> file_patch list \<Rightarrow> fix_event" where
  "build_fix_event s remaining fixed patches =
     (let all_remaining = ss_remaining_ai s @ ss_remaining_manual s;
          report = report_or_empty s;
          counts = count_by_remediation_class all_remaining
      in \<lparr>fe_scan_id = (if ss_scan_id s = [] then ss_session_id s else ss_scan_id s), fe_session_id = ss_session_id s,
          fe_project_path = ss_project_root s, fe_remaining = remaining, fe_fixed = fixed,
          fe_total = length all_remaining + sr_fixed report, fe_auto_fixable = sr_fixed report,
          fe_ai_candidate = get_default counts ''ai-candidate'' 0, fe_manual_review = get_default counts ''manual-review'' 0,
          fe_report = report, fe_proposals = proposal_outcomes s, fe_logs = ss_progress_logs s, fe_patches = patches,
          fe_manifest = ss_manifest s, fe_graph = ss_content_graph s\<rparr>)"

definition session_build_result :: "('m, 's, 'w, 'r) deps \<Rightarrow> 'w run \<Rightarrow> 'w run" where
  "session_build_result D R =
     (let r = serialized_result D (rn_session R); R = send (Ev_result r) R
      in R\<lparr>rn_emitted := rn_emitted R @ [build_fix_event (rn_session R) (sres_remaining r)
             (sr_fixed_violations (report_or_empty (rn_session R))) (sres_patches r)]\<rparr>)"

text \<open>The session is complete: set the status and send the result.\<close>

definition complete :: "('m, 's, 'w, 'r) deps \<Rightarrow> 'w run \<Rightarrow> 'w run" where
  "complete D R = session_build_result D (set_status S_complete R)"

definition session_replay_state :: "('m, 's, 'w, 'r) deps \<Rightarrow> 'w run \<Rightarrow> 'w run" where
  "session_replay_state D R =
     (let s = rn_session R;
          R = (if ss_tier1_patches s \<noteq> [] \<or> ss_format_diffs s \<noteq> []
               then send (Ev_tier1_complete \<lparr>ts_patches = ss_tier1_patches s, ts_format_diffs = ss_format_diffs s,
                      ts_idempotency_ok = ss_idempotency_ok s, ts_report = report_or_empty s\<rparr>) R
               else R);
          R = (if ss_awaiting_assess s \<and> ss_assess_findings s \<noteq> []
               then (let (ttl, R) = run_ttl D R in send (Ev_findings (ss_assess_findings s) S_awaiting_approval ttl) R)
               else if ss_awaiting_ai_triage s \<and> ss_ai_triage_candidates s \<noteq> []
               then (let (ttl, R) = run_ttl D R in send (Ev_ai_triage (ss_ai_triage_candidates s) S_awaiting_ai_triage ttl) R)
               else if (ss_proposals s \<noteq> [] \<or> ss_review_declined s \<noteq> []) \<and> ss_status s = S_awaiting_approval
                       \<and> \<not> ss_awaiting_assess s \<and> \<not> ss_awaiting_ai_triage s
               then send (Ev_proposals (map snd (ss_proposals s) @ map snd (ss_review_declined s)) (ss_current_tier s)
                            S_awaiting_approval) R
               else R)
      in if ss_status s = S_complete then send (Ev_result (serialized_result D s)) R else R)"

end
