(* ===== verification/Fix_Session.thy ===== *)
theory Fix_Session
  imports Session_Run
begin

text \<open>
  The fix session of the engine (\<open>FixSession\<close> of \<open>daemon/engine_server.py\<close> and its handlers): upload,
  format, remediate, the assess pause, the two approval gates with the AI triage between them,
  resume, extend and close.  A handler is a function on a \<open>run\<close>; the exception it raises, if any, is
  its second result.  A command is handled as one step; a handler cancelled half-way by a
  disconnecting client and two streams interleaving within a handler are not modelled.
\<close>

section \<open>The AI phase of a session\<close>

definition session_enter_ai_phase :: "('m, 's, 'w, 'r) deps \<Rightarrow> 'w run \<Rightarrow> 'w run" where
  "session_enter_ai_phase D R =
     (let candidates = collect_ai_triage_candidates (rn_session R)
      in if candidates = [] then complete D R
         else (let protos = map (violation_dict_to_proto (dp_json D)) candidates;
                   R = on_session (\<lambda>s. s\<lparr>ss_ai_triage_candidates := protos, ss_awaiting_ai_triage := True,
                                         ss_ai_escalate_targets := None, ss_status := S_awaiting_ai_triage\<rparr>) R;
                   R = run_touch D R;
                   (ttl, R) = run_ttl D R
               in send (Ev_ai_triage protos S_awaiting_ai_triage ttl) R))"

definition write_temp_patches :: "('m, 's, 'w, 'r) deps \<Rightarrow> file_patch list \<Rightarrow> 'w run \<Rightarrow> 'w run \<times> failure option" where
  "write_temp_patches D patches R =
     (case ss_temp_dir (rn_session R) of
        None \<Rightarrow> (R, None)
      | Some t \<Rightarrow>
          (if patches = [] then (R, None)
           else (let (disk, err) = write_patches_to_temp_dir (dp_files D) t patches (rn_disk R)
                 in (R\<lparr>rn_disk := disk\<rparr>, map_option (\<lambda>_. F_value_error) err))))"

definition option_set :: "(fix_options \<Rightarrow> bool) \<Rightarrow> session \<Rightarrow> bool" where
  "option_set f s = (case ss_fix_options s of Some opts \<Rightarrow> f opts | None \<Rightarrow> False)"

definition enable_ai :: "session \<Rightarrow> bool" where
  "enable_ai s = option_set fo_enable_ai s"

definition defer_tier1 :: "session \<Rightarrow> bool" where
  "defer_tier1 s \<longleftrightarrow> option_set fo_interactive s \<or> option_set fo_assess_pause s"

definition apply_message :: "nat \<Rightarrow> nat \<Rightarrow> nat \<Rightarrow> progress_update" where
  "apply_message applied fixed touched =
     progress (''Applied '' @ show_nat applied @ '' approved Tier 1 proposal(s) ('' @ show_nat fixed @ '' violation(s) fixed, ''
       @ show_nat touched @ '' file(s) written); declined proposals reverted'') ''graph-tier1'' 2"

definition session_handle_approval ::
  "('m, 's, 'w, 'r) deps \<Rightarrow> string list \<Rightarrow> 'w run \<Rightarrow> 'w run \<times> failure option" where
  "session_handle_approval D approved_ids R =
     (let was_tier1_gate = ss_awaiting_tier1_gate (rn_session R);
          run_ai_gate = (was_tier1_gate \<and> enable_ai (rn_session R));
          (s, applied, temp_patches) =
            session_apply_approved (en_lib (dp_engine D)) (dp_files D) (dp_json D) approved_ids (\<not> run_ai_gate) (rn_session R);
          patches = (case temp_patches of Some ps \<Rightarrow> ps | None \<Rightarrow> []);
          (R, err) = write_temp_patches D patches (R\<lparr>rn_session := s\<rparr>)
      in if err \<noteq> None then (R, err)
         else
           let R = (if was_tier1_gate
                    then log_progress (apply_message applied
                           (case ss_report (rn_session R) of Some r \<Rightarrow> sr_fixed r | None \<Rightarrow> applied) (length patches)) R
                    else R);
               (ttl, R) = run_ttl D R;
               R = send (Ev_approval_ack applied (ss_status (rn_session R)) ttl) R
           in (if run_ai_gate then session_enter_ai_phase D R
               else if ss_status (rn_session R) = S_complete then session_build_result D R
               else R, None))"

definition session_begin_remediate :: "('m, 's, 'w, 'r) deps \<Rightarrow> 'w run \<Rightarrow> 'w run \<times> failure option" where
  "session_begin_remediate D R =
     (if \<not> ss_awaiting_assess (rn_session R) then (R, None)
      else
        let R = run_touch D (on_session (\<lambda>s. s\<lparr>ss_awaiting_assess := False\<rparr>) R); s = rn_session R;
            t1_ids = filter (startswith ''t1-'') (map fst (ss_proposals s))
        in if ss_awaiting_tier1_gate s \<and> ss_proposals s \<noteq> []
           then (send (Ev_proposals (map snd (ss_proposals s)) 1 S_awaiting_approval) (set_status S_awaiting_approval R), None)
           else if t1_ids \<noteq> []
           then session_handle_approval D t1_ids (on_session (\<lambda>s. s\<lparr>ss_awaiting_tier1_gate := True\<rparr>) R)
           else if enable_ai s then (session_enter_ai_phase D R, None)
           else (complete D R, None))"

section \<open>The second gate\<close>

definition rescan_bridge ::
  "('m, 's, 'w, 'r) deps \<Rightarrow> 'w \<Rightarrow> content_graph \<Rightarrow> string list \<Rightarrow> 'w \<times> violation list" where
  "rescan_bridge D w g dirty =
     (if list_all (\<lambda>i. get_node g i = None) dirty then (w, [])
      else (let (w, vs) = dp_validators D w g (sort dirty) in (w, filter_noqa_violations vs (Some g))))"

text \<open>The engine of a session: its passes, its provider and the \<open>_ai_error\<close> it carries from run to run.\<close>

definition session_engine ::
  "('m, 's, 'w, 'r) deps \<Rightarrow> session \<Rightarrow> bool \<Rightarrow> ('m, 's, 'w, 'r) engine" where
  "session_engine D s ai_error =
     (dp_engine D)\<lparr>
        en_max_passes := (case ss_fix_options s of
                            Some opts \<Rightarrow> (if fo_max_passes opts > 0 then nat (fo_max_passes opts) else 5) | None \<Rightarrow> 5),
        en_rescan_fn := Some (rescan_bridge D),
        en_provider := (case ss_fix_options s of
                          Some opts \<Rightarrow> (if fo_enable_ai opts then dp_provider D opts else None) | None \<Rightarrow> None),
        en_ai_error := ai_error\<rparr>"

text \<open>The budget callback is installed when the run of the upload does not leave AI for later.\<close>

definition ai_callback :: "('m, 's, 'w, 'r) engine \<Rightarrow> session \<Rightarrow> bool" where
  "ai_callback E s \<longleftrightarrow> en_provider E \<noteq> None \<and> \<not> (defer_tier1 s \<and> enable_ai s)"

text \<open>What an interrupted run leaves behind.\<close>

definition leave_run :: "'w schedule \<Rightarrow> content_graph \<Rightarrow> 'w run \<Rightarrow> 'w run" where
  "leave_run sc g R =
     on_session (\<lambda>s. s\<lparr>ss_content_graph := Some (sc_left_graph sc g), ss_graph_engine := Some (sc_left_ai_error sc)\<rparr>)
       (R\<lparr>rn_world := sc_left_world sc\<rparr>)"

definition session_report_of ::
  "('m, 's, 'w, 'r) deps \<Rightarrow> nat \<Rightarrow> bool \<Rightarrow> nat \<Rightarrow> violation list \<Rightarrow> violation list \<Rightarrow> violation list \<Rightarrow> session_report" where
  "session_report_of D passes oscillation fixed_count classified remaining fixed =
     \<lparr>sr_passes = passes, sr_fixed = fixed_count,
      sr_remaining_ai = get_default (count_by_remediation_class classified) ''ai-candidate'' 0,
      sr_remaining_manual = get_default (count_by_remediation_class classified) ''manual-review'' 0,
      sr_oscillation = oscillation,
      sr_remaining_violations = map (violation_dict_to_proto (dp_json D)) remaining,
      sr_fixed_violations = map (violation_dict_to_proto (dp_json D)) fixed\<rparr>"

definition index_rows :: "gate_proposal list \<Rightarrow> (string, gate_proposal) dict \<Rightarrow> (string, gate_proposal) dict" where
  "index_rows ps d = fold (\<lambda>p. dict_set (gp_id p) p) ps d"

definition gate2_options :: options where
  "gate2_options = \<lparr>op_interactive = True, op_skip_ai = False, op_skip_tier1 = True\<rparr>"

text \<open>What follows the run of the second gate: its report, and the rows it offers.\<close>

definition gate2_report :: "('m, 's, 'w, 'r) deps \<Rightarrow> fix_report \<Rightarrow> content_graph \<Rightarrow> session \<Rightarrow> session" where
  "gate2_report D rep g s =
     (let classified = add_classification (fr_remaining rep @ ss_dep_health s);
          remaining = map (enrich_violation g False) classified;
          fixed = map (enrich_violation g True) (query_violations (Some V_fixed) None g)
      in s\<lparr>ss_report := Some (session_report_of D
              ((case ss_report s of Some r \<Rightarrow> sr_passes r | None \<Rightarrow> 0) + fr_passes rep)
              ((case ss_report s of Some r \<Rightarrow> sr_oscillation r | None \<Rightarrow> False) \<or> fr_oscillation rep)
              (length fixed) classified remaining fixed),
           ss_remaining_ai := remaining\<rparr>)"

definition gate2_rows_of :: "('m, 's, 'w, 'r) deps \<Rightarrow> fix_report \<Rightarrow> gate_proposal list" where
  "gate2_rows_of D rep =
     consolidate_gate2_proposals (build_graph_proposals (en_lib (dp_engine D)) (fr_ai_proposals rep))
       (gate2_tier1_rows (en_lib (dp_engine D)) (fr_tier1_proposals rep))"

definition gate2_offer :: "('m, 's, 'w, 'r) deps \<Rightarrow> fix_report \<Rightarrow> content_graph \<Rightarrow> 'w run \<Rightarrow> 'w run \<times> failure option" where
  "gate2_offer D rep g R =
     (let R = on_session (gate2_report D rep g) R;
          proposed = gate2_rows_of D rep;
          declined = build_declined_proposals (ss_remaining_ai (rn_session R)) (proposed_rule_files proposed) (length proposed)
      in if proposed @ declined \<noteq> []
         then (send (Ev_proposals (proposed @ declined) 2 S_awaiting_approval)
                 (on_session (\<lambda>s. s\<lparr>ss_proposals := index_rows proposed (ss_proposals s),
                                    ss_review_declined := index_rows declined [],
                                    ss_ai_proposals := fr_ai_proposals rep, ss_tier1_proposals := fr_tier1_proposals rep,
                                    ss_status := S_awaiting_approval\<rparr>) R), None)
         else
           let L = en_lib (dp_engine D); F = dp_files D;
               g = fst (reject_unapproved_graph_progress L g);
               patches = map (format_patch F) (splice_modifications L g (ss_graph_originals (rn_session R)) False);
               R = on_session (\<lambda>s. write_patches_to_session F patches (s\<lparr>ss_content_graph := Some g\<rparr>)) R;
               (R, err) = write_temp_patches D patches R
           in if err \<noteq> None then (R, err) else (complete D R, None))"

definition gate2_start :: "session \<Rightarrow> session" where
  "gate2_start s = s\<lparr>ss_status := S_processing, ss_current_tier := 2, ss_pre_gate2_files := ss_working_files s\<rparr>"

definition session_run_ai_gate ::
  "('m, 's, 'w, 'r) deps \<Rightarrow> 'w schedule \<Rightarrow> 'w run \<Rightarrow> 'w run \<times> failure option" where
  "session_run_ai_gate D sc R =
     (case (ss_graph_engine (rn_session R), ss_content_graph (rn_session R)) of
        (Some ai_error, Some g) \<Rightarrow>
          (let R = on_session gate2_start R;
               R = log_progress (progress ''Starting AI escalation (Tier 1 decisions already applied)'' ''graph-ai'' 2) R;
               R = on_session reject_remaining R;
               targets = ss_ai_escalate_targets (rn_session R);
               vs = filter_violations_by_escalate_targets targets (query_violations (Some V_open) None g);
               E = session_engine D (rn_session R) ai_error;
               (_, tier2, _) = partition_violations vs (en_registry E)
           in if targets \<noteq> None \<and> vs = [] then (complete D R, None)
              else case begin_ai_operation_budget D tier2 R of
                     None \<Rightarrow> (send (Ev_error ''invalid_budget_config'') R, None)
                   | Some R \<Rightarrow>
                       (let callback = ai_callback E (rn_session R);
                            stamped = map (\<lambda>v. snd (route (en_registry E) v)) vs;
                            (ok, R) = drain_remediate_task D callback sc R
                        in if \<not> ok
                           then (leave_run sc g R, None)
                           else (let (w, g, rep) = remediate E gate2_options (Some stamped) (rn_world R) g;
                                     R = on_session (\<lambda>s. s\<lparr>ss_content_graph := Some g, ss_graph_engine := Some (fr_ai_error rep)\<rparr>)
                                           (R\<lparr>rn_world := w\<rparr>)
                                 in gate2_offer D rep g R)))
      | _ \<Rightarrow> (complete D R, None))"

definition session_handle_ai_escalate ::
  "('m, 's, 'w, 'r) deps \<Rightarrow> 'w schedule \<Rightarrow> (string \<times> string list) list \<Rightarrow> 'w run \<Rightarrow> 'w run \<times> failure option" where
  "session_handle_ai_escalate D sc targets R =
     (if \<not> ss_awaiting_ai_triage (rn_session R) then (R, None)
      else
        let R = run_touch D (on_session (\<lambda>s. s\<lparr>ss_awaiting_ai_triage := False, ss_ai_escalate_targets := Some targets\<rparr>) R);
            R = on_session (\<lambda>s. fst (decline_skipped_ai_escalation s)) R
        in if targets = [] then (complete D R, None) else session_run_ai_gate D sc R)"

section \<open>The run of an upload\<close>

definition DEP_HEALTH_SOURCES :: "string list" where
  "DEP_HEALTH_SOURCES = [''collection_health'', ''dep_audit'']"

definition is_dep_health :: "violation \<Rightarrow> bool" where
  "is_dep_health v \<longleftrightarrow> vget_str v ''source'' \<in> set DEP_HEALTH_SOURCES"

text \<open>What the scan leaves on the session: logs, the venv and, from the first scan, the manifest.\<close>

definition capture_scan :: "scan_result \<Rightarrow> session \<Rightarrow> session" where
  "capture_scan sn s =
     (let s = s\<lparr>ss_progress_logs := ss_progress_logs s @ sn_logs sn\<rparr>
      in case sn_venv sn of
           None \<Rightarrow> s
         | Some (root_dir, manifest) \<Rightarrow>
             s\<lparr>ss_venv_path := (if ss_venv_path s = [] then root_dir else ss_venv_path s), ss_manifest := manifest\<rparr>)"

definition base_name :: "string \<Rightarrow> string" where
  "base_name p = path_name (parse_path p)"

definition final_patch :: "('m, 's, 'w, 'r) deps \<Rightarrow> file_patch \<Rightarrow> file_patch" where
  "final_patch D p =
     (let p = format_patch (dp_files D) p
      in p\<lparr>fp_diff := lib_diff (en_lib (dp_engine D)) (splitlines_keep (fp_original p)) (splitlines_keep (fp_patched p))
                        (''a/'' @ base_name (fp_path p)) (''b/'' @ base_name (fp_path p))\<rparr>)"

definition write_patch :: "file_lib \<Rightarrow> string \<Rightarrow> file_patch \<Rightarrow> files \<Rightarrow> files" where
  "write_patch F temp_dir p disk =
     write_file F (if is_absolute (parse_path (fp_path p)) then fp_path p
                   else show_path (join_path (parse_path temp_dir) (parse_path (fp_path p)))) (fl_encode F (fp_patched p)) disk"

definition tier1_patch :: "file_lib \<Rightarrow> string \<Rightarrow> session \<Rightarrow> file_patch \<Rightarrow> file_patch" where
  "tier1_patch F temp_dir s p =
     (let rel = working_files_key F (Some temp_dir) (fp_path p)
      in p\<lparr>fp_path := rel,
           fp_original := (case dict_get (ss_original_files s) rel of Some c \<Rightarrow> c | None \<Rightarrow> fl_encode F (fp_original p)),
           fp_patched := fl_encode F (fp_patched p)\<rparr>)"

definition upload_options :: "session \<Rightarrow> options" where
  "upload_options s =
     \<lparr>op_interactive = defer_tier1 s, op_skip_ai = defer_tier1 s \<and> enable_ai s, op_skip_tier1 = False\<rparr>"

text \<open>Steps 3 to 6: splice what is approved, account for what remains, report.\<close>

definition settle_upload ::
  "('m, 's, 'w, 'r) deps \<Rightarrow> string \<Rightarrow> fix_report \<Rightarrow> content_graph \<Rightarrow> tier1_proposal list \<Rightarrow> violation list
    \<Rightarrow> 'w run \<Rightarrow> 'w run" where
  "settle_upload D temp_dir rep g t1 dep_health R =
     (let F = dp_files D; s = rn_session R;
          patches = (if defer_tier1 s \<and> t1 \<noteq> [] then []
                     else map (final_patch D) (splice_modifications (en_lib (dp_engine D)) g (ss_graph_originals s) False));
          classified = add_classification (fr_remaining rep @ dep_health);
          remaining = map (enrich_violation g False) classified;
          fixed = map (enrich_violation g True) (map (set_class AUTO_FIXABLE) (fr_fixed_violations rep));
          t1_patches = map (tier1_patch F temp_dir s) patches;
          s = s\<lparr>ss_dep_health := filter is_dep_health classified,
                ss_working_files := fold (\<lambda>p. dict_set (fp_path p) (fp_patched p)) t1_patches (ss_working_files s),
                ss_tier1_patches := t1_patches, ss_remaining_ai := remaining, ss_remaining_manual := [],
                ss_report := Some (session_report_of D (fr_passes rep) (fr_oscillation rep) (fr_fixed rep) classified remaining fixed)\<rparr>;
          message = (if defer_tier1 s \<and> t1 \<noteq> []
                     then ''Graph Tier 1 ready for review: '' @ show_nat (fr_passes rep) @ '' pass(es), '' @ show_nat (length t1)
                          @ '' proposed fix(es) on '' @ show_nat (fr_nodes_modified rep) @ '' node(s) (not applied until approved)''
                     else ''Graph Tier 1 converged: '' @ show_nat (fr_passes rep) @ '' pass(es), '' @ show_nat (fr_fixed rep)
                          @ '' fixed, '' @ show_nat (fr_nodes_modified rep) @ '' nodes modified'');
          R = log_progress (progress message ''graph-tier1'' 2)
                (R\<lparr>rn_session := s, rn_disk := fold (write_patch F temp_dir) patches (rn_disk R)\<rparr>)
      in send (Ev_tier1_complete \<lparr>ts_patches = t1_patches, ts_format_diffs = ss_format_diffs s,
                 ts_idempotency_ok = ss_idempotency_ok s, ts_report = report_or_empty s\<rparr>) R)"

text \<open>The gates: assess pause, first gate, AI triage, or the AI proposals of a run without gates.\<close>

definition offer_tier1 :: "('m, 's, 'w, 'r) deps \<Rightarrow> tier1_proposal list \<Rightarrow> session \<Rightarrow> session" where
  "offer_tier1 D t1 s =
     (if defer_tier1 s \<and> t1 \<noteq> []
      then s\<lparr>ss_proposals := index_rows (build_tier1_proposals (en_lib (dp_engine D)) t1) (ss_proposals s),
             ss_tier1_proposals := t1, ss_current_tier := 1,
             ss_awaiting_tier1_gate := (option_set fo_interactive s \<or> ss_awaiting_tier1_gate s)\<rparr>
      else s)"

definition offer_ai :: "('m, 's, 'w, 'r) deps \<Rightarrow> fix_report \<Rightarrow> 'w run \<Rightarrow> 'w run" where
  "offer_ai D rep R =
     (let proposed = build_graph_proposals (en_lib (dp_engine D)) (fr_ai_proposals rep);
          declined = build_declined_proposals (ss_remaining_ai (rn_session R)) (proposed_rule_files proposed) (length proposed)
      in if proposed = [] then complete D R
         else send (Ev_proposals (proposed @ declined) 2 S_awaiting_approval)
                (on_session (\<lambda>s. s\<lparr>ss_proposals := index_rows proposed (ss_proposals s),
                                   ss_review_declined := index_rows declined [], ss_ai_proposals := fr_ai_proposals rep,
                                   ss_current_tier := 2, ss_status := S_awaiting_approval\<rparr>) R))"

definition enter_gates ::
  "('m, 's, 'w, 'r) deps \<Rightarrow> fix_report \<Rightarrow> tier1_proposal list \<Rightarrow> 'w run \<Rightarrow> 'w run" where
  "enter_gates D rep t1 R =
     (let R = on_session (offer_tier1 D t1) R; s = rn_session R; r = report_or_empty s
      in if option_set fo_assess_pause s
         then (let findings = filter (\<lambda>v. pv_source v \<notin> set DEP_HEALTH_SOURCES)
                                (sr_remaining_violations r @ sr_fixed_violations r);
                   R = on_session (\<lambda>s. s\<lparr>ss_awaiting_assess := True, ss_status := S_awaiting_approval,
                                         ss_assess_findings := findings\<rparr>) R;
                   (ttl, R) = run_ttl D R
               in send (Ev_findings findings S_awaiting_approval ttl) R)
         else if option_set fo_interactive s \<and> t1 \<noteq> []
         then send (Ev_proposals (map snd (ss_proposals s)) 1 S_awaiting_approval) (set_status S_awaiting_approval R)
         else if option_set fo_interactive s \<and> enable_ai s then session_enter_ai_phase D R
         else offer_ai D rep R)"

fun read_all :: "('a \<Rightarrow> failure + 'b) \<Rightarrow> 'a list \<Rightarrow> failure + 'b list" where
  "read_all f [] = Inr []"
| "read_all f (x # xs) =
     (case f x of Inl e \<Rightarrow> Inl e | Inr y \<Rightarrow> (case read_all f xs of Inl e \<Rightarrow> Inl e | Inr ys \<Rightarrow> Inr (y # ys)))"

definition session_graph_remediate ::
  "('m, 's, 'w, 'r) deps \<Rightarrow> 'w schedule \<Rightarrow> string \<Rightarrow> string list \<Rightarrow> 'w run \<Rightarrow> 'w run \<times> failure option" where
  "session_graph_remediate D sc temp_dir yaml_paths R =
     (case read_all (file_proto_from_path (dp_files D) temp_dir (rn_disk R)) yaml_paths of
        Inl e \<Rightarrow> (R, Some e)
      | Inr rel_files \<Rightarrow>
          (let (w, scanned) = dp_scan D (rn_world R) (rn_session R) rel_files; R = R\<lparr>rn_world := w\<rparr>
           in case scanned of
                Inl e \<Rightarrow> (R, Some e)
              | Inr sn \<Rightarrow>
                  (let R = on_session (capture_scan sn) R;
                       project = filter (\<lambda>v. \<not> is_dep_health v) (sn_violations sn);
                       dep_health = filter is_dep_health (sn_violations sn);
                       g = (case sn_graph sn of Some g \<Rightarrow> g | None \<Rightarrow> empty_graph)
                   in case load_yaml_originals (dp_files D) temp_dir (rn_disk R) yaml_paths [] of
                        Inl e \<Rightarrow> (R, Some e)
                      | Inr originals \<Rightarrow>
                          (let missing = dp_missing_opt_in D (rn_session R);
                               R = (if missing = [] then R
                                    else report_progress D (progress (''Requested audit rule(s) not loaded: '' @ join '', '' missing)
                                           ''graph-tier1'' 3) R);
                               E = session_engine D (rn_session R) False;
                               R = on_session (\<lambda>s. s\<lparr>ss_graph_engine := Some False\<rparr>) R;
                               (ok, R) = drain_remediate_task D (ai_callback E (rn_session R)) sc R
                           in if \<not> ok then (R\<lparr>rn_world := sc_left_world sc\<rparr>, None)
                              else
                                let (w, g, rep) = remediate E (upload_options (rn_session R)) (Some project) (rn_world R) g;
                                    R = on_session (\<lambda>s. s\<lparr>ss_content_graph := Some g, ss_graph_originals := originals,
                                                          ss_graph_engine := Some (fr_ai_error rep)\<rparr>) (R\<lparr>rn_world := w\<rparr>);
                                    t1 = (if defer_tier1 (rn_session R) then fr_tier1_proposals rep else [])
                                in (enter_gates D rep t1 (settle_upload D temp_dir rep g t1 dep_health R), None)))))"

section \<open>Formatting and the whole upload\<close>

text \<open>Five of the skipped files are named; the ellipsis is its UTF-8 form.\<close>

definition skip_message :: "(string \<times> string) list \<Rightarrow> string" where
  "skip_message skipped =
     ''Skipped formatting '' @ show_nat (length skipped) @ '' file(s): ''
     @ join ''; '' (map (\<lambda>(p, r). p @ '' ('' @ r @ '')'') (take 5 skipped))
     @ (if length skipped > 5 then [CHR 0xE2, CHR 0x80, CHR 0xA6] else [])"

definition idem_message :: "file_diff list \<Rightarrow> (string \<times> string) list \<Rightarrow> string" where
  "idem_message fdiffs skipped =
     join ''; '' ((if fdiffs = [] then [] else [''Formatter is not idempotent on this input''])
       @ (if skipped = [] then []
          else [''Idempotency check skipped '' @ show_nat (length skipped) @ '' file(s) that formatted on the first pass'']))"

definition report_if :: "('m, 's, 'w, 'r) deps \<Rightarrow> bool \<Rightarrow> string \<Rightarrow> string \<Rightarrow> nat \<Rightarrow> 'w run \<Rightarrow> 'w run" where
  "report_if D c message phase level R = (if c then report_progress D (progress message phase level) R else R)"

definition session_galaxy_servers :: "session \<Rightarrow> galaxy_server list" where
  "session_galaxy_servers s =
     (case ss_fix_options s of
        Some opts \<Rightarrow> fo_galaxy_servers opts
      | None \<Rightarrow> (case ss_scan_options s of Some opts \<Rightarrow> so_galaxy_servers opts | None \<Rightarrow> []))"

definition prepare_galaxy :: "string option \<Rightarrow> session \<Rightarrow> session" where
  "prepare_galaxy cfg s =
     (if session_galaxy_servers s = [] then s
      else (cleanup_galaxy_cfg s)\<lparr>ss_galaxy_cfg := write_session_galaxy_cfg cfg (session_galaxy_servers s)\<rparr>)"

definition format_map :: "file_diff list \<Rightarrow> files" where
  "format_map fdiffs = fold (\<lambda>d. dict_set (fd_path d) (fd_formatted d)) fdiffs []"

definition formatted_files :: "files \<Rightarrow> (string \<times> string) list \<Rightarrow> (string \<times> string) list" where
  "formatted_files m fs = map (\<lambda>(p, c). (p, case dict_get m p of Some c' \<Rightarrow> c' | None \<Rightarrow> c)) fs"

definition temp_path :: "string \<Rightarrow> string \<Rightarrow> string" where
  "temp_path temp_dir p = show_path (join_path (parse_path temp_dir) (parse_path p))"

text \<open>The formatted content goes to the disk and to the working files.\<close>

definition store_formatted :: "('m, 's, 'w, 'r) deps \<Rightarrow> string \<Rightarrow> files \<Rightarrow> (string \<times> string) list \<Rightarrow> 'w run \<Rightarrow> 'w run" where
  "store_formatted D temp_dir m fs R =
     fold (\<lambda>(p, c) R. case dict_get m p of
                        None \<Rightarrow> R
                      | Some c' \<Rightarrow>
                          on_session (\<lambda>s. s\<lparr>ss_working_files := dict_set p c' (ss_working_files s)\<rparr>)
                            (R\<lparr>rn_disk := write_file (dp_files D) (temp_path temp_dir p) c' (rn_disk R)\<rparr>)) fs R"

definition after_format ::
  "('m, 's, 'w, 'r) deps \<Rightarrow> 'w schedule \<Rightarrow> string \<Rightarrow> (string \<times> string) list \<Rightarrow> (string \<times> string) list \<Rightarrow> 'w run
    \<Rightarrow> 'w run \<times> failure option" where
  "after_format D sc temp_dir formatted skipped R =
     (let (err, R) = check_deadline_event D R
      in case err of
           Some code \<Rightarrow> (send (Ev_error code) R, None)
         | None \<Rightarrow>
             (let inputs = filter (\<lambda>(p, c). p \<notin> fst ` set skipped) formatted;
                  (err, R) = supervise_executor D (sc_idem_polls sc) R
              in case err of
                   Some code \<Rightarrow> (send (Ev_error code) R, None)
                 | None \<Rightarrow>
                     (let (fdiffs, skips) = format_files (dp_files D) inputs; ok = (fdiffs = [] \<and> skips = []);
                          R = on_session (\<lambda>s. s\<lparr>ss_idempotency_ok := ok\<rparr>) R;
                          R = report_if D (\<not> ok) (idem_message fdiffs skips) ''format'' 3 R;
                          (err, R) = check_deadline_event D R
                      in case err of
                           Some code \<Rightarrow> (send (Ev_error code) R, None)
                         | None \<Rightarrow>
                             session_graph_remediate D sc temp_dir
                               (map (temp_path temp_dir) (filter is_yaml_path (map fst formatted)))
                               (report_progress D (progress ''Running Tier 1 remediation...'' ''tier1'' 2) R))))"

definition format_upload ::
  "('m, 's, 'w, 'r) deps \<Rightarrow> 'w schedule \<Rightarrow> (string \<times> string) list \<Rightarrow> 'w run \<Rightarrow> 'w run \<times> failure option" where
  "format_upload D sc fs R =
     (let F = dp_files D; (err, R) = supervise_executor D (sc_format_polls sc) R
      in case err of
           Some code \<Rightarrow> (send (Ev_error code) R, None)
         | None \<Rightarrow>
             (let (fdiffs, skipped) = format_files F fs;
                  R = on_session (\<lambda>s. s\<lparr>ss_format_diffs := fdiffs\<rparr>) R;
                  R = report_if D (skipped \<noteq> []) (skip_message skipped) ''format'' 3 R;
                  (err, R) = supervise_executor D (sc_write_polls sc) R
              in case err of
                   Some code \<Rightarrow> (send (Ev_error code) R, None)
                 | None \<Rightarrow>
                     (let tmp = fl_resolve F (parse_path (sc_temp_dir sc))
                      in case write_chunked_fs F tmp fs (rn_disk R) of
                           Inl e \<Rightarrow> (R, Some e)
                         | Inr disk \<Rightarrow>
                             (let temp_dir = show_path tmp; m = format_map fdiffs;
                                  R = on_session (\<lambda>s. s\<lparr>ss_temp_dir := Some temp_dir\<rparr>) (R\<lparr>rn_disk := disk\<rparr>);
                                  R = store_formatted D temp_dir m fs R;
                                  R = report_if D (fdiffs \<noteq> []) (''Formatted '' @ show_nat (length fdiffs) @ '' file(s)'') ''format'' 2 R
                              in after_format D sc temp_dir (formatted_files m fs) skipped R))))"

definition session_process :: "('m, 's, 'w, 'r) deps \<Rightarrow> 'w schedule \<Rightarrow> 'w run \<Rightarrow> 'w run \<times> failure option" where
  "session_process D sc R =
     (case normalize_files (ss_working_files (rn_session R)) of
        Inl _ \<Rightarrow> (R, Some F_value_error)
      | Inr fs \<Rightarrow>
          (let R = on_session (prepare_galaxy (sc_galaxy_cfg sc)) R
           in if fs = []
              then (send (Ev_tier1_complete \<lparr>ts_patches = [], ts_format_diffs = [], ts_idempotency_ok = True,
                       ts_report = empty_report\<rparr>) (set_status S_complete R), None)
              else format_upload D sc fs
                     (report_progress D (progress (''Formatting '' @ show_nat (length fs) @ '' file(s)...'') ''format'' 2)
                        (send_created D (begin_non_ai_operation_budget D 0 R)))))"

section \<open>Commands\<close>

datatype command =
    C_upload scan_chunk
  | C_approve "string list"
  | C_begin_remediate
  | C_ai_escalate "(string \<times> string list) list"
  | C_extend
  | C_resume string
  | C_close

text \<open>How a command leaves the stream: open, closed, aborted with a status, or broken by an exception.\<close>

datatype outcome = Open | Closed | Abort_resource_exhausted | Abort_failed_precondition | Abort_unavailable
  | Abort_invalid_argument | Abort_not_found | Broken

record 'w server =
  sv_store :: store
  sv_world :: 'w
  sv_disk :: files
  sv_ticks :: nat
  sv_emitted :: "fix_event list"

text \<open>The local variables of the handler of one stream; sessions by identifier.\<close>

record stream_state =
  sm_session :: "string option"
  sm_created :: "string option"

definition new_stream :: stream_state where
  "new_stream = \<lparr>sm_session = None, sm_created = None\<rparr>"

definition server_clock :: "('m, 's, 'w, 'r) deps \<Rightarrow> 'w server \<Rightarrow> clock \<times> 'w server" where
  "server_clock D V = (dp_clock D (sv_ticks V), V\<lparr>sv_ticks := Suc (sv_ticks V)\<rparr>)"

definition run_of :: "'w server \<Rightarrow> session \<Rightarrow> 'w run" where
  "run_of V s =
     \<lparr>rn_session = s, rn_world = sv_world V, rn_disk = sv_disk V, rn_ticks = sv_ticks V, rn_events = [], rn_emitted = sv_emitted V\<rparr>"

definition put_run :: "string \<Rightarrow> 'w run \<Rightarrow> 'w server \<Rightarrow> 'w server" where
  "put_run sid R V =
     \<lparr>sv_store = (sv_store V)\<lparr>sto_objects := dict_set sid (rn_session R) (sto_objects (sv_store V))\<rparr>,
      sv_world = rn_world R, sv_disk = rn_disk R, sv_ticks = rn_ticks R, sv_emitted = rn_emitted R\<rparr>"

definition drop_unsealed_created :: "('m, 's, 'w, 'r) deps \<Rightarrow> stream_state \<Rightarrow> 'w server \<Rightarrow> 'w server" where
  "drop_unsealed_created D st V =
     (case sm_created st of
        None \<Rightarrow> V
      | Some sid \<Rightarrow>
          (let (t, V) = server_clock D V;
               (S, created) = store_get (dp_sessions D) t sid (sv_store V);
               S = (case created of
                      None \<Rightarrow> fst (store_remove sid S)
                    | Some s \<Rightarrow> (if ss_upload_sealed s then S else fst (store_remove sid S)))
           in V\<lparr>sv_store := S\<rparr>))"

text \<open>The \<open>except\<close> clauses of the stream.\<close>

definition handle_failure ::
  "('m, 's, 'w, 'r) deps \<Rightarrow> failure option \<Rightarrow> stream_state \<Rightarrow> 'w server \<Rightarrow> 'w server \<times> outcome" where
  "handle_failure D err st V =
     (case err of
        None \<Rightarrow> (V, Open)
      | Some F_resource_exhausted \<Rightarrow> (drop_unsealed_created D st V, Abort_resource_exhausted)
      | Some F_collection_dependency \<Rightarrow> (V, Abort_failed_precondition)
      | Some F_required_validator \<Rightarrow> (drop_unsealed_created D st V, Abort_unavailable)
      | Some F_value_error \<Rightarrow> (drop_unsealed_created D st V, Abort_invalid_argument)
      | Some F_other \<Rightarrow> (V, Broken))"

definition unseal_after_failure :: "session \<Rightarrow> session" where
  "unseal_after_failure s =
     reset_partial_run_state (s\<lparr>ss_upload_sealed := False, ss_sealed_hash := [], ss_sealed_chunk_hash := []\<rparr>)"

text \<open>\<open>_session_upload_start\<close> on the new session object.\<close>

definition upload_start :: "scan_chunk \<Rightarrow> session \<Rightarrow> session" where
  "upload_start ch s =
     s\<lparr>ss_fix_options := (case ch_fix_options ch of Some x \<Rightarrow> Some x | None \<Rightarrow> ss_fix_options s),
       ss_scan_options := (case ch_options ch of Some x \<Rightarrow> Some x | None \<Rightarrow> ss_scan_options s),
       ss_scan_id := (if ch_scan_id ch = [] then ss_session_id s else ch_scan_id ch),
       ss_project_root := ch_project_root ch\<rparr>"

definition seal_upload :: "file_lib \<Rightarrow> scan_chunk \<Rightarrow> session \<Rightarrow> session" where
  "seal_upload F ch s =
     s\<lparr>ss_upload_sealed := True, ss_sealed_hash := hash_upload_files F (ss_original_files s),
       ss_sealed_chunk_hash := (case hash_upload_chunk F ch of Inr h \<Rightarrow> h | Inl _ \<Rightarrow> [])\<rparr>"

text \<open>An upload chunk on an existing session.\<close>

definition handle_chunk ::
  "('m, 's, 'w, 'r) deps \<Rightarrow> 'w schedule \<Rightarrow> scan_chunk \<Rightarrow> 'w run \<Rightarrow> 'w run \<times> failure option" where
  "handle_chunk D sc ch R =
     (let s = rn_session R
      in if ch_last ch \<and> ss_upload_sealed s
         then (case hash_upload_chunk (dp_files D) ch of
                 Inl _ \<Rightarrow> (R, Some F_value_error)
               | Inr h \<Rightarrow> (if h = ss_sealed_chunk_hash s then (session_replay_state D R, None) else (R, Some F_value_error)))
         else case session_upload_append (dp_caps D) s ch of
                Inl _ \<Rightarrow> (R, Some F_value_error)
              | Inr s \<Rightarrow>
                  (if \<not> ch_last ch then (R\<lparr>rn_session := s\<rparr>, None)
                   else (let sent = rn_events R;
                             (R, err) = session_process D sc (R\<lparr>rn_session := seal_upload (dp_files D) ch s, rn_events := []\<rparr>);
                             failed = (err \<noteq> None \<or> list_ex is_error_event (rn_events R));
                             R = (if failed then on_session unseal_after_failure R else R)
                         in (R\<lparr>rn_events := sent @ rn_events R\<rparr>, err))))"

definition handle_resume :: "('m, 's, 'w, 'r) deps \<Rightarrow> 'w run \<Rightarrow> 'w run" where
  "handle_resume D R =
     (let R = run_touch D R; (t, R) = read_clock D R;
          R = on_session (reanchor_lifetime_deadline (dp_sessions D) t) R
      in session_replay_state D (send_created D R))"

text \<open>A command for the session the stream holds.\<close>

definition session_command ::
  "('m, 's, 'w, 'r) deps \<Rightarrow> 'w schedule \<Rightarrow> command \<Rightarrow> 'w run \<Rightarrow> 'w run \<times> failure option" where
  "session_command D sc cmd R =
     (case cmd of
        C_upload ch \<Rightarrow> handle_chunk D sc ch R
      | C_approve ids \<Rightarrow> session_handle_approval D ids (run_touch D R)
      | C_begin_remediate \<Rightarrow> session_begin_remediate D (run_touch D R)
      | C_ai_escalate ts \<Rightarrow>
          session_handle_ai_escalate D sc (map (\<lambda>(p, rs). (p, filter (\<lambda>r. r \<noteq> []) rs)) ts) (run_touch D R)
      | C_extend \<Rightarrow> (send_created D (run_touch D R), None)
      | _ \<Rightarrow> (R, None))"

definition on_stream_session ::
  "('m, 's, 'w, 'r) deps \<Rightarrow> 'w schedule \<Rightarrow> command \<Rightarrow> string \<Rightarrow> stream_state \<Rightarrow> 'w server
    \<Rightarrow> 'w server \<times> stream_state \<times> session_event list \<times> outcome" where
  "on_stream_session D sc cmd sid st V =
     (case dict_get (sto_objects (sv_store V)) sid of
        None \<Rightarrow> (V, st, [], Broken)
      | Some s \<Rightarrow>
          (let (R, err) = session_command D sc cmd (run_of V s);
               (V, out) = handle_failure D err st (put_run sid R V)
           in (V, st, rn_events R, out)))"

text \<open>The first chunk of a stream creates the session and announces it.\<close>

definition first_chunk ::
  "('m, 's, 'w, 'r) deps \<Rightarrow> 'w schedule \<Rightarrow> scan_chunk \<Rightarrow> stream_state \<Rightarrow> 'w server
    \<Rightarrow> 'w server \<times> stream_state \<times> session_event list \<times> outcome" where
  "first_chunk D sc ch st V =
     (let (t, V) = server_clock D V; sid = sc_session_id sc
      in case store_create (dp_sessions D) t sid (sv_store V) of
           Inl _ \<Rightarrow> (let (V, out) = handle_failure D (Some F_resource_exhausted) st V in (V, st, [], out))
         | Inr S \<Rightarrow>
             (let V = V\<lparr>sv_store := S\<rparr>; st = \<lparr>sm_session = Some sid, sm_created = Some sid\<rparr>
              in case dict_get (sto_objects S) sid of
                   None \<Rightarrow> (V, st, [], Broken)
                 | Some s \<Rightarrow>
                     (let R = send_created D (run_of V (upload_start ch s));
                          (R, err) = handle_chunk D sc ch R;
                          (V, out) = handle_failure D err st (put_run sid R V)
                      in (V, st, rn_events R, out))))"

definition close_stream_sessions :: "stream_state \<Rightarrow> 'w server \<Rightarrow> 'w server" where
  "close_stream_sessions st V =
     (let S = sv_store V;
          S = (case sm_session st of Some sid \<Rightarrow> fst (store_remove sid S) | None \<Rightarrow> S);
          S = (case sm_created st of
                 Some c \<Rightarrow> (if sm_session st = Some c then S else fst (store_remove c S)) | None \<Rightarrow> S)
      in V\<lparr>sv_store := S\<rparr>)"

definition fix_session_command ::
  "('m, 's, 'w, 'r) deps \<Rightarrow> 'w schedule \<Rightarrow> command \<Rightarrow> stream_state \<Rightarrow> 'w server
    \<Rightarrow> 'w server \<times> stream_state \<times> session_event list \<times> outcome" where
  "fix_session_command D sc cmd st V =
     (case cmd of
        C_upload ch \<Rightarrow>
          (case sm_session st of None \<Rightarrow> first_chunk D sc ch st V | Some sid \<Rightarrow> on_stream_session D sc cmd sid st V)
      | C_resume sid \<Rightarrow>
          (let (t, V) = server_clock D V; (S, found) = store_get (dp_sessions D) t sid (sv_store V); V = V\<lparr>sv_store := S\<rparr>
           in case found of
                None \<Rightarrow> (V, st\<lparr>sm_session := None\<rparr>, [], Abort_not_found)
              | Some s \<Rightarrow>
                  (let R = handle_resume D (run_of V s)
                   in (put_run sid R V, st\<lparr>sm_session := Some sid\<rparr>, rn_events R, Open)))
      | C_close \<Rightarrow> (close_stream_sessions st V, st\<lparr>sm_created := None\<rparr>, [Ev_closed], Closed)
      | _ \<Rightarrow>
          (case sm_session st of None \<Rightarrow> (V, st, [], Open) | Some sid \<Rightarrow> on_stream_session D sc cmd sid st V))"

text \<open>A client that disconnects between commands takes the session its stream created with it.\<close>

definition fix_session_cancelled :: "stream_state \<Rightarrow> 'w server \<Rightarrow> 'w server" where
  "fix_session_cancelled st V =
     (case sm_created st of Some sid \<Rightarrow> V\<lparr>sv_store := fst (store_remove sid (sv_store V))\<rparr> | None \<Rightarrow> V)"

end
