(* ===== verification/Approval_Props.thy ===== *)
theory Approval_Props
  imports Proposals
begin

text \<open>
  What approvals do to the graph.  The nodes with approved content change only by approving:
  the remediation engine, rejections and ledger transitions are quiet, which interprets
  \<open>pipeline_relation\<close> a second time, and deciding proposals adds the nodes of the approved ones.
\<close>

section \<open>Nodes with approved content\<close>

definition approved_nodes :: "content_graph \<Rightarrow> string set" where
  "approved_nodes g = {nid. \<exists>n. get_node g nid = Some n \<and> (\<exists>s\<in>set (cn_progression n). ns_approved s)}"

definition quiet_step :: "content_graph \<Rightarrow> content_graph \<Rightarrow> bool" where
  "quiet_step g g' \<longleftrightarrow> approved_nodes g' \<subseteq> approved_nodes g"

named_theorems quiet_ops

lemma quiet_refl [simp, quiet_ops]: "quiet_step g g"
  by (simp add: quiet_step_def)

lemma quiet_trans: "quiet_step a b \<Longrightarrow> quiet_step b c \<Longrightarrow> quiet_step a c"
  by (auto simp: quiet_step_def)

lemma quiet_map_node:
  assumes "\<And>n s. s \<in> set (cn_progression (f n)) \<Longrightarrow> ns_approved s \<Longrightarrow> \<exists>s\<in>set (cn_progression n). ns_approved s"
  shows "quiet_step g (map_node nid f g)" "quiet_step g (map_all_nodes f g)"
  using assms by (auto simp: quiet_step_def approved_nodes_def graph_simps split: if_splits)

lemma progression_update [simp]: "cn_progression (update_from_yaml L t n) = cn_progression n"
  by (simp add: update_from_yaml_def Let_def split: option.splits)

lemma progression_map_ledger [simp]: "cn_progression (map_ledger f n) = cn_progression n"
  "cn_progression (map_records h n) = cn_progression n"
  by (simp_all add: map_records_def map_ledger_def)

lemma set_tlD: "x \<in> set (tl xs) \<Longrightarrow> x \<in> set xs"
  by (cases xs) auto

lemma quiet_record_state [quiet_ops]: "quiet_step g (map_node nid (record_state L p ph src) g)"
  by (rule quiet_map_node) (auto simp: record_state_def new_state_def Let_def split: if_splits dest: set_tlD)

lemma quiet_update [quiet_ops]: "quiet_step g (map_node nid (update_from_yaml L t) g)"
  by (rule quiet_map_node) auto

lemma quiet_ledger [quiet_ops]: "quiet_step g (map_node nid (map_ledger f) g)" "quiet_step g (map_node nid (map_records h) g)"
  "quiet_step g (map_all_nodes (map_records h) g)"
  by (rule quiet_map_node; auto)+

lemma quiet_register [quiet_ops]: "quiet_step g (register_violations vs p g)"
  by (induction vs arbitrary: g) (auto intro: quiet_trans quiet_ops)

lemma quiet_dirty [quiet_ops]: "quiet_step g g' \<Longrightarrow> quiet_step g (mark_dirty nid g')" "quiet_step g g' \<Longrightarrow> quiet_step g (clear_dirty g')"
  by (simp_all add: quiet_step_def approved_nodes_def graph_simps)

lemma quiet_ledger_calls [quiet_ops]:
  "quiet_step g (fst (resolve_violations nid remaining b p status g))"
  "quiet_step g (fst (abstain_violations nid ids reasons g))"
  "quiet_step g (fst (transition_violations nid st st' c g))"
  "quiet_step g (restamp_ledger reg vs g)"
  by (simp_all add: resolve_violations_def abstain_violations_def transition_violations_def restamp_ledger_def quiet_ops)

interpretation quiet_run: pipeline_relation E quiet_step for E
  by unfold_locales (auto intro: quiet_ops quiet_trans)

lemma quiet_remediate:
  assumes "remediate E op initial w g = (w', g', rep)" and "op_interactive op"
  shows "quiet_step g g'"
  using assms quiet_run.rel_converge [of g E op initial w] by (auto simp: remediate_def finish_def Let_def)

text \<open>The calls of the engine on the graph; an interrupted run has made some of them.\<close>

inductive engine_call :: "('m, 's, 'w, 'r) engine \<Rightarrow> content_graph \<Rightarrow> content_graph \<Rightarrow> bool" for E where
  "engine_call E g (register_violations vs p g)"
| "status \<in> {V_fixed, V_pending_review, V_proposed} \<Longrightarrow>
     engine_call E g (fst (resolve_violations nid remaining s p status g))"
| "engine_call E g (fst (abstain_violations nid ids reasons g))"
| "engine_call E g (map_node nid (record_state (en_lib E) p ph s) g)"
| "engine_call E g (map_node nid (update_from_yaml (en_lib E) t) g)"
| "engine_call E g (restamp_ledger (en_registry E) vs g)"
| "engine_call E g (mark_dirty nid g)"
| "engine_call E g (clear_dirty g)"

context pipeline_relation
begin

lemma rel_call: "engine_call E g g' \<Longrightarrow> rel g g'"
  by (induction rule: engine_call.induct)
    (auto intro: rel_register rel_resolve rel_abstain rel_record_state rel_update rel_restamp rel_dirty rel_refl)

lemma rel_calls: "(engine_call E)\<^sup>*\<^sup>* g g' \<Longrightarrow> rel g g'"
  by (induction rule: rtranclp_induct) (auto intro: rel_trans rel_refl rel_call)

end

section \<open>Deciding proposals\<close>

lemma quiet_map_node_at:
  assumes "\<And>n. get_node g nid = Some n \<Longrightarrow> set (cn_progression (f n)) \<subseteq> set (cn_progression n)"
  shows "quiet_step g (map_node nid f g)"
  using assms by (fastforce simp: quiet_step_def approved_nodes_def graph_simps split: if_splits)

lemma truncate_subset:
  "i < length (cn_progression n) \<Longrightarrow> set (cn_progression (truncate_node L i n)) \<subseteq> set (cn_progression n)"
  using set_take_subset [of i "cn_progression n"] hd_in_set [of "cn_progression n"]
  by (auto simp: truncate_node_def Let_def split: if_splits)

lemma quiet_decline_review [quiet_ops]: "quiet_step g (fst (decline_pending_review nid g))"
  unfolding decline_pending_review_def by (rule quiet_ops)

lemma quiet_reject [quiet_ops]: "quiet_step g (fst (reject_node L nid g))"
proof (cases "get_node g nid")
  case n: (Some n)
  let ?g = "fst (decline_pending_review nid g)"
  have "quiet_step ?g (map_node nid (truncate_node L i) ?g)" if "first_unapproved (cn_progression n) = Some i" for i
    using first_unapproved_nonempty [OF that] n
      truncate_subset [of i "map_records (transition_record V_pending_review V_declined True) n" L]
    by (intro quiet_map_node_at) (auto simp: graph_simps)
  then show ?thesis
    using n quiet_decline_review [of g nid] quiet_trans
    by (auto simp: reject_node_def case_prod_unfold Let_def split: option.splits)
qed (simp add: reject_node_def)

lemma approved_approve: "approved_nodes (fst (approve_node nid g)) \<subseteq> insert nid (approved_nodes g)" if "nid \<noteq> []"
proof -
  have "approved_nodes (fst (approve_pending (Some nid) None g)) \<subseteq> insert nid (approved_nodes g)"
    using that by (auto simp: approve_pending_def approved_nodes_def graph_simps split: list.splits if_splits)
  moreover have "quiet_step g' (fst (approve_pending_review nid g'))" for g'
    unfolding approve_pending_review_def by (rule quiet_ops)
  ultimately show ?thesis by (fastforce simp: approve_node_def Let_def case_prod_unfold quiet_step_def)
qed

text \<open>The nodes of the proposals that are offered under the given identifiers.\<close>

definition offered_nodes :: "string list \<Rightarrow> session \<Rightarrow> string set" where
  "offered_nodes ids s =
     {nid. \<exists>pid p. dict_get (ss_proposals s) pid = Some p \<and> pid \<in> set ids \<and> nid \<noteq> [] \<and>
        nid = proposal_node (proposal_node_map (ss_ai_proposals s) (ss_tier1_proposals s)) pid p}"

definition decision_ok :: "('m, 's) yaml_lib \<Rightarrow> string list \<Rightarrow> content_graph \<Rightarrow> session \<Rightarrow> decision_state \<Rightarrow> bool" where
  "decision_ok L ids g s d \<longleftrightarrow> safe_step L g (ds_graph d) \<and>
     approved_nodes (ds_graph d) \<subseteq> approved_nodes g \<union> offered_nodes ids s \<and> set (ds_approved d) \<subseteq> offered_nodes ids s \<and>
     (\<forall>pid p. dict_get (ss_proposals (ds_session d)) pid = Some p \<longrightarrow> dict_get (ss_proposals s) pid = Some p)"

lemma decision_step:
  assumes "decision_ok L ids g s d"
  shows "decision_ok L ids g s (decide_one L (proposal_node_map (ss_ai_proposals s) (ss_tier1_proposals s)) ids pid d)"
proof (cases "dict_get (ss_proposals (ds_session d)) pid")
  case (Some p)
  define m where "m = proposal_node_map (ss_ai_proposals s) (ss_tier1_proposals s)"
  define nid where "nid = proposal_node m pid p"
  have p: "dict_get (ss_proposals s) pid = Some p" using assms Some by (simp add: decision_ok_def)
  have r: "ss_proposals (record_rejected_proposal pid p x) = ss_proposals x" for x
    by (simp add: record_rejected_proposal_def split: option.splits)
  have offered: "nid \<in> offered_nodes ids s" if "pid \<in> set ids" "nid \<noteq> []"
    using that p unfolding offered_nodes_def nid_def m_def by blast
  have "approved_nodes (fst (approve_node nid (ds_graph d))) \<subseteq> approved_nodes g \<union> offered_nodes ids s"
    if "pid \<in> set ids" "nid \<noteq> []"
    using approved_approve [OF that(2), of "ds_graph d"] offered [OF that] assms unfolding decision_ok_def by blast
  moreover have "approved_nodes (fst (reject_node L nid (ds_graph d))) \<subseteq> approved_nodes g \<union> offered_nodes ids s"
    using quiet_reject [of "ds_graph d" L nid] assms unfolding decision_ok_def quiet_step_def by blast
  ultimately show ?thesis
    using assms Some offered safe_step_trans [OF _ safe_approve_node [of L "ds_graph d" nid]]
      safe_step_trans [OF _ safe_reject_node [of L "ds_graph d" nid]]
    unfolding decision_ok_def decide_one_def m_def [symmetric]
    by (simp add: Let_def nid_def [symmetric] dict_simps insert_id_def)
qed (use assms in \<open>simp add: decide_one_def\<close>)

lemma decide_proposals_ok: "decision_ok L ids g s (decide_proposals L ids g s)"
proof -
  have loop: "decision_ok L ids g s (fold (decide_one L (proposal_node_map (ss_ai_proposals s) (ss_tier1_proposals s)) ids) pids d)"
    if "decision_ok L ids g s d" for pids d
    using that by (induction pids arbitrary: d) (auto intro: decision_step)
  have "decision_ok L ids g s \<lparr>ds_session = s, ds_graph = g, ds_applied = 0, ds_rejected = [], ds_approved = []\<rparr>"
    by (simp add: decision_ok_def)
  then show ?thesis unfolding decide_proposals_def by (rule loop)
qed

text \<open>Safe for the graph, and approving nothing.\<close>

definition silent_step :: "('m, 's) yaml_lib \<Rightarrow> content_graph \<Rightarrow> content_graph \<Rightarrow> bool" where
  "silent_step L g g' \<longleftrightarrow> safe_step L g g' \<and> quiet_step g g'"

lemma silent_refl [simp]: "silent_step L g g"
  by (simp add: silent_step_def)

lemma silent_trans: "silent_step L a b \<Longrightarrow> silent_step L b c \<Longrightarrow> silent_step L a c"
  unfolding silent_step_def using safe_step_trans quiet_trans by blast

lemma silent_fold: "(\<And>x st. silent_step L (h st) (h (f x st))) \<Longrightarrow> silent_step L (h st) (h (fold f xs st))"
proof (induction xs arbitrary: st)
  case (Cons x xs)
  then show ?case using silent_trans [of L "h st" "h (f x st)"] by simp
qed simp

lemma silent_decisions:
  "silent_step L g (fst (reject_node L nid g))" "silent_step L g (fst (approve_proposed nid g))"
  "silent_step L g (fst (decline_proposed nid g))"
  unfolding silent_step_def
  by (auto intro: safe_ops quiet_ops) (auto simp: approve_proposed_def decline_proposed_def intro: quiet_ops)

lemma silent_leftovers: "silent_step L (fst st) (fst (reject_leftovers L keep st))"
  unfolding reject_leftovers_def
  by (rule silent_fold) (auto simp: reject_one_def Let_def case_prod_unfold silent_decisions split: option.splits)

lemma silent_settle: "silent_step L g (settle_proposed approved g)"
  unfolding settle_proposed_def by (rule silent_fold [of _ "\<lambda>g. g"]) (simp add: silent_decisions)

lemma silent_calls: "(engine_call E)\<^sup>*\<^sup>* g g' \<Longrightarrow> silent_step (en_lib E) g g'"
  unfolding silent_step_def using safe_run.rel_calls quiet_run.rel_calls by blast

lemma silent_remediate:
  assumes "remediate E op initial w g = (w', g', rep)" and "op_interactive op"
  shows "silent_step (en_lib E) g g'"
  using assms quiet_remediate [OF assms] safe_run.rel_converge [of E g op initial w]
  by (auto simp: silent_step_def remediate_def finish_def Let_def)

lemma quiet_decline_open [quiet_ops]: "quiet_step g (fst (decline_open_violations vs g))"
proof (induction vs arbitrary: g)
  case (Cons v vs)
  then show ?case
    using quiet_trans [OF quiet_ledger(1) [of g "vget_str v ''path''" "decline_at (violation_key v)"] Cons]
    by (simp add: Let_def case_prod_unfold)
qed simp

section \<open>What a splice may contain\<close>

text \<open>
  An edit at the lines of a node among \<open>C\<close>, and a file content that differs from the original only by
  such edits and by formatting.
\<close>

definition edit_of_node :: "content_graph \<Rightarrow> string set \<Rightarrow> string \<Rightarrow> edit \<Rightarrow> bool" where
  "edit_of_node g C path e \<longleftrightarrow>
     (\<exists>nid\<in>C. \<exists>n. get_node g nid = Some n \<and> cn_file_path n = path \<and>
        ed_start e = nat (cn_line_start n) \<and> ed_end e = nat (cn_line_end n))"

definition formatted_text :: "file_lib \<Rightarrow> string \<Rightarrow> string \<Rightarrow> string" where
  "formatted_text F path t =
     (let r = fl_format F t (path_name (parse_path path)) in if fm_changed r then fm_formatted r else t)"

definition spliced_content :: "file_lib \<Rightarrow> content_graph \<Rightarrow> files \<Rightarrow> string set \<Rightarrow> string \<Rightarrow> string \<Rightarrow> bool" where
  "spliced_content F g originals C path c \<longleftrightarrow>
     (\<exists>orig edits. dict_get originals path = Some orig \<and> (\<forall>e\<in>set edits. edit_of_node g C path e) \<and>
        c = fl_encode F (formatted_text F path (concat (splice_all (sort_edits edits) (ensure_newline (splitlines_keep orig))))))"

lemma format_patch_text [simp]:
  "fp_patched (format_patch F p) = formatted_text F (fp_path p) (fp_patched p)" "fp_path (format_patch F p) = fp_path p"
  by (simp_all add: format_patch_def formatted_text_def Let_def)

lemma edit_of_node_mono: "edit_of_node g C path e \<Longrightarrow> C \<subseteq> C' \<Longrightarrow> graph_evolves g g' \<Longrightarrow> edit_of_node g' C' path e"
  unfolding edit_of_node_def graph_evolves_def same_place_def by (metis subsetD)

lemma spliced_content_mono:
  "spliced_content F g originals C path c \<Longrightarrow> C \<subseteq> C' \<Longrightarrow> graph_evolves g g' \<Longrightarrow> spliced_content F g' originals C' path c"
  unfolding spliced_content_def using edit_of_node_mono by metis

lemma node_edit_lines: "e \<in> set (node_edit False n) \<Longrightarrow> ed_start e = nat (cn_line_start n) \<and> ed_end e = nat (cn_line_end n)"
  by (auto simp: node_edit_def Let_def split: if_splits)

lemma splice_edits:
  assumes "p \<in> set (splice_modifications L g originals False)" and "graph_ok L g"
  shows "spliced_content F g originals (approved_nodes g) (fp_path p) (fl_encode F (fp_patched (format_patch F p)))"
proof -
  from assms(1) obtain path edits orig where e: "(path, edits) \<in> set (edits_by_file False g)"
    "dict_get originals path = Some orig" "p \<in> set (patch_file L path orig edits)"
    by (auto simp: splice_modifications_def split: option.splits) (metis (no_types, lifting))
  have p: "fp_path p = path" "fp_patched p = concat (splice_all (sort_edits edits) (ensure_newline (splitlines_keep orig)))"
    using e(3) by (auto simp: patch_file_def Let_def split: if_splits)
  have "edit_of_node g (approved_nodes g) path x" if x: "x \<in> set edits" for x
  proof -
    obtain n where n: "n \<in> set (graph_nodes g)" "cn_file_path n = path" "x \<in> set (node_edit False n)"
      using edits_by_file_source [OF e(1) x] by blast
    have "get_node g (node_id n) = Some n"
      using n(1) assms(2) graph_nodes_get_node [of g n] by (auto simp: graph_ok_def)
    with n show ?thesis
      using node_edit_lines [OF n(3)] node_edit_approved [OF n(3)]
      by (auto simp: edit_of_node_def approved_nodes_def)
  qed
  then show ?thesis using e(2) p by (auto simp: spliced_content_def)
qed

end
