(* ===== verification/Session_Safety.thy ===== *)
theory Session_Safety
  imports Fix_Session Approval_Props
begin

text \<open>
  What a fix session may write.  In a session that defers its changes (interactive, or with the
  assess pause) every working file is the uploaded file, its formatting, or a formatted splice of
  the uploaded file whose edits lie at nodes the user consented to.  Consent is what the history of
  commands gives: approving offered proposals, and starting the remediation of an assessed session
  without a first gate.
\<close>

section \<open>What the handlers leave alone\<close>

text \<open>The fields of a session that decide what it may write.\<close>

definition base :: "session \<Rightarrow> bool \<times> files \<times> files \<times> files \<times> content_graph option \<times> files \<times> fix_options option" where
  "base s = (ss_upload_sealed s, ss_original_files s, ss_working_files s, ss_pre_gate2_files s, ss_content_graph s,
     ss_graph_originals s, ss_fix_options s)"

definition core ::
  "session \<Rightarrow> (bool \<times> files \<times> files \<times> files \<times> content_graph option \<times> files \<times> fix_options option) \<times>
     (string, gate_proposal) dict" where
  "core s = (base s, ss_proposals s)"

definition run_core where
  "run_core R = core (rn_session R)"

named_theorems core_simps

lemmas core_defs = run_core_def core_def base_def on_session_def read_clock_def Let_def case_prod_unfold

lemma core_small [core_simps, simp]:
  "run_core (send e R) = run_core R" "run_core (set_status st R) = run_core R" "run_core (run_touch D R) = run_core R"
  "run_core (snd (run_ttl D R)) = run_core R" "run_core (log_progress u R) = run_core R"
  "run_core (R\<lparr>rn_world := w\<rparr>) = run_core R" "run_core (R\<lparr>rn_disk := d\<rparr>) = run_core R"
  "run_core (R\<lparr>rn_events := es\<rparr>) = run_core R" "run_core (snd (read_clock D R)) = run_core R"
  by (simp_all add: core_defs send_def set_status_def run_touch_def touch_def run_ttl_def log_progress_def)

lemma core_budget [core_simps, simp]:
  "run_core (snd (stamp_progress_update D u R)) = run_core R" "run_core (send_created D R) = run_core R"
  "run_core (snd (check_deadline_event D R)) = run_core R" "run_core (begin_non_ai_operation_budget D n R) = run_core R"
  "begin_ai_operation_budget D vs R = Some R' \<Longrightarrow> run_core R' = run_core R"
  by (auto simp: core_defs stamp_progress_update_def send_created_def run_ttl_def send_def check_deadline_event_def
      begin_non_ai_operation_budget_def begin_ai_operation_budget_def begin_operation_phase_def touch_def split: sum.splits)

lemma core_on_progress: "run_core (on_session (record_progress t b) R) = run_core R"
  by (simp add: core_defs record_progress_def touch_def)

lemma core_report [core_simps, simp]:
  "run_core (report_progress D u R) = run_core R" "run_core (report_if D c m p l R) = run_core R"
  by (simp_all add: report_if_def report_progress_def Let_def case_prod_unfold core_on_progress)

lemma core_supervise [core_simps, simp]: "run_core (snd (supervise_executor D n R)) = run_core R"
proof (induction n arbitrary: R)
  case (Suc n)
  then show ?case by (simp add: Let_def case_prod_unfold split: option.splits)
qed simp

lemma core_turn [core_simps, simp]: "run_core (take_turn D cb t R) = run_core R"
  by (auto simp: take_turn_def split: turn.splits option.splits)

lemma core_drain [core_simps, simp]:
  "run_core (snd (drain_loop D cb ts R)) = run_core R" "run_core (snd (drain_remediate_task D cb sc R)) = run_core R"
proof -
  show loop: "run_core (snd (drain_loop D cb ts R)) = run_core R" for ts R
    by (induction ts arbitrary: R) (auto simp: Let_def case_prod_unfold split: option.splits)
  have "run_core (fold (\<lambda>u. take_turn D cb (T_update u)) us R) = run_core R" for us R
    by (induction us arbitrary: R) auto
  then show "run_core (snd (drain_remediate_task D cb sc R)) = run_core R"
    by (simp add: drain_remediate_task_def Let_def case_prod_unfold loop split: task_end.splits)
qed

lemma core_complete [core_simps, simp]:
  "run_core (session_build_result D R) = run_core R" "run_core (complete D R) = run_core R"
  "run_core (session_replay_state D R) = run_core R" "run_core (fst (write_temp_patches D ps R)) = run_core R"
  by (simp_all add: complete_def core_defs session_build_result_def send_def set_status_def session_replay_state_def run_ttl_def
      write_temp_patches_def split: option.splits)

lemma core_session_ops [core_simps, simp]:
  "core (capture_scan sn s) = core s" "core (prepare_galaxy cfg s) = core s" "core (cleanup s) = core s"
  "core (touch t s) = core s" "core (reanchor_lifetime_deadline E t s) = core s" "core (gate2_report D rep g s) = core s"
  by (simp_all add: core_def base_def capture_scan_def prepare_galaxy_def cleanup_galaxy_cfg_def cleanup_def cleanup_temp_dir_def
      touch_def reanchor_lifetime_deadline_def gate2_report_def Let_def split: option.splits)

lemma core_on_session: "(\<And>s. core (f s) = core s) \<Longrightarrow> run_core (on_session f R) = run_core R"
  by (simp add: run_core_def on_session_def)

lemma core_enter_ai_phase [core_simps, simp]: "run_core (session_enter_ai_phase D R) = run_core R"
proof -
  have "run_core (on_session (\<lambda>s. s\<lparr>ss_ai_triage_candidates := ps, ss_awaiting_ai_triage := True,
      ss_ai_escalate_targets := None, ss_status := S_awaiting_ai_triage\<rparr>) R) = run_core R" for ps
    by (simp add: core_defs)
  then show ?thesis by (simp add: session_enter_ai_phase_def Let_def case_prod_unfold)
qed

section \<open>The invariant of a session\<close>

definition files_ok :: "(string \<Rightarrow> string \<Rightarrow> bool) \<Rightarrow> files \<Rightarrow> bool" where
  "files_ok P d \<longleftrightarrow> (\<forall>p c. dict_get d p = Some c \<longrightarrow> P p c)"

text \<open>The content a session may have under a path, given the nodes \<open>C\<close> the user consented to.\<close>

definition may_write :: "file_lib \<Rightarrow> string set \<Rightarrow> session \<Rightarrow> string \<Rightarrow> string \<Rightarrow> bool" where
  "may_write F C s p c \<longleftrightarrow>
     dict_get (ss_original_files s) p = Some c \<or>
     (\<exists>c0 d. dict_get (ss_original_files s) p = Some c0 \<and> d \<in> set (fst (format_file F (p, c0))) \<and> c = fd_formatted d) \<or>
     (\<exists>g path tmp. ss_content_graph s = Some g \<and> p = working_files_key F tmp path \<and>
        spliced_content F g (ss_graph_originals s) C path c)"

definition session_inv ::
  "('m, 's, 'w, 'r) deps \<Rightarrow> fix_options option \<Rightarrow> string set \<Rightarrow> session \<Rightarrow> bool" where
  "session_inv D opts C s \<longleftrightarrow>
     ss_fix_options s = opts \<and> dict_ok (ss_original_files s) \<and>
     (\<forall>p\<in>fst ` set (ss_original_files s). normalize_upload_path p = Inr p) \<and>
     (\<not> ss_upload_sealed s \<longrightarrow> ss_working_files s = ss_original_files s \<and> ss_content_graph s = None \<and> ss_proposals s = [] \<and>
        ss_pre_gate2_files s = []) \<and>
     (\<forall>g. ss_content_graph s = Some g \<longrightarrow> graph_ok (en_lib (dp_engine D)) g \<and> approved_nodes g \<subseteq> C) \<and>
     files_ok (may_write (dp_files D) C s) (ss_working_files s) \<and> files_ok (may_write (dp_files D) C s) (ss_pre_gate2_files s) \<and>
     (\<forall>pid\<in>fst ` set (ss_proposals s). is_graph_proposal pid) \<and> (ss_proposals s \<noteq> [] \<longrightarrow> ss_content_graph s \<noteq> None)"

lemma session_inv_core: "core s = core s' \<Longrightarrow> session_inv D opts C s = session_inv D opts C s'"
  by (simp add: core_def base_def session_inv_def may_write_def [abs_def])

lemma run_inv_core: "run_core R = run_core R' \<Longrightarrow> session_inv D opts C (rn_session R) = session_inv D opts C (rn_session R')"
  unfolding run_core_def by (rule session_inv_core)

lemmas inv_simps =
  core_small [THEN run_inv_core] core_budget [THEN run_inv_core] core_report [THEN run_inv_core] core_supervise [THEN run_inv_core]
  core_drain [THEN run_inv_core] core_complete [THEN run_inv_core] core_enter_ai_phase [THEN run_inv_core]

lemma run_invI: "run_core R = core s \<Longrightarrow> session_inv D opts C s \<Longrightarrow> session_inv D opts C (rn_session R)"
  using session_inv_core [of "rn_session R" s D] by (simp add: run_core_def)

lemma files_ok_Nil [simp]: "files_ok P []"
  by (simp add: files_ok_def)

lemma files_ok_mono: "files_ok P d \<Longrightarrow> (\<And>p c. P p c \<Longrightarrow> Q p c) \<Longrightarrow> files_ok Q d"
  by (simp add: files_ok_def)

lemma files_ok_fold:
  "(\<And>x. x \<in> set xs \<Longrightarrow> P (k x) (v x)) \<Longrightarrow> files_ok P d \<Longrightarrow> files_ok P (fold (\<lambda>x. dict_set (k x) (v x)) xs d)"
proof (induction xs arbitrary: d)
  case (Cons x xs)
  then have "files_ok P (dict_set (k x) (v x) d)" by (auto simp: files_ok_def dict_simps)
  with Cons show ?case by simp
qed simp

lemma may_write_mono:
  assumes "may_write F C s p c" and "C \<subseteq> C'" and "ss_original_files s' = ss_original_files s"
    and "ss_graph_originals s' = ss_graph_originals s"
    and "\<And>g. ss_content_graph s = Some g \<Longrightarrow> \<exists>g'. ss_content_graph s' = Some g' \<and> graph_evolves g g'"
  shows "may_write F C' s' p c"
proof -
  have "\<exists>g' path tmp. ss_content_graph s' = Some g' \<and> p = working_files_key F tmp path \<and>
      spliced_content F g' (ss_graph_originals s') C' path c"
    if "ss_content_graph s = Some g" "p = working_files_key F tmp path"
      "spliced_content F g (ss_graph_originals s) C path c" for g path tmp
    using assms(5) [OF that(1)] that spliced_content_mono [OF that(3) assms(2)] assms(4) by metis
  then show ?thesis using assms(1,3) unfolding may_write_def by metis
qed

lemma may_write_splice:
  assumes "ss_content_graph s = Some g" and "graph_ok L g" and "approved_nodes g \<subseteq> C"
    and "p \<in> set (map (format_patch F) (splice_modifications L g (ss_graph_originals s) False))"
  shows "may_write F C s (working_files_key F tmp (fp_path p)) (fl_encode F (fp_patched p))"
proof -
  obtain q where q: "q \<in> set (splice_modifications L g (ss_graph_originals s) False)" "p = format_patch F q"
    using assms(4) by auto
  have "spliced_content F g (ss_graph_originals s) C (fp_path q) (fl_encode F (fp_patched p))"
    using spliced_content_mono [OF splice_edits [OF q(1) assms(2)] assms(3)] q(2) by simp
  then show ?thesis using assms(1) q(2) unfolding may_write_def by auto
qed

text \<open>One change of the graph, of the working files and of the open proposals of a sealed session.\<close>

lemma session_inv_change:
  assumes inv: "session_inv D opts C s" and g: "ss_content_graph s = Some g" and "C \<subseteq> C'"
    and same: "ss_upload_sealed s' = ss_upload_sealed s" "ss_original_files s' = ss_original_files s"
      "ss_graph_originals s' = ss_graph_originals s" "ss_fix_options s' = ss_fix_options s"
    and g': "ss_content_graph s' = Some g'" "safe_step (en_lib (dp_engine D)) g g'" "approved_nodes g' \<subseteq> C'"
    and work: "files_ok (may_write (dp_files D) C' s') (ss_working_files s')"
    and pre: "ss_pre_gate2_files s' \<in> {ss_pre_gate2_files s, ss_working_files s}"
    and props: "\<And>pid. pid \<in> fst ` set (ss_proposals s') \<Longrightarrow> is_graph_proposal pid"
  shows "session_inv D opts C' s'"
proof -
  have sealed: "ss_upload_sealed s" using inv g by (auto simp: session_inv_def)
  have mono: "may_write (dp_files D) C' s' p c" if "may_write (dp_files D) C s p c" for p c
    by (rule may_write_mono [OF that assms(3) same(2,3)]) (use g g' in \<open>auto simp: safe_step_def\<close>)
  have "files_ok (may_write (dp_files D) C' s') (ss_pre_gate2_files s')"
    using inv pre by (auto simp: session_inv_def intro: files_ok_mono mono)
  then show ?thesis
    using inv sealed same g g' work props by (auto simp: session_inv_def safe_step_def)
qed

lemma write_patches_ok:
  assumes "files_ok (may_write F C s) (ss_working_files s)" and "ss_content_graph s = Some g" and "graph_ok L g"
    and "approved_nodes g \<subseteq> C"
  shows "files_ok (may_write F C s)
    (ss_working_files (write_patches_to_session F (map (format_patch F) (splice_modifications L g (ss_graph_originals s) False)) s))"
proof -
  let ?ps = "map (format_patch F) (splice_modifications L g (ss_graph_originals s) False)"
  have "files_ok (may_write F C s) (fold (\<lambda>p. dict_set (working_files_key F (ss_temp_dir s) (fp_path p)) (fl_encode F (fp_patched p)))
      ?ps (ss_working_files s))"
    by (rule files_ok_fold) (rule may_write_splice [OF assms(2-4)], assumption, rule assms(1))
  then show ?thesis by (simp add: write_patches_to_session_def)
qed

section \<open>Approvals\<close>

lemma base_rejected [simp]: "base (record_rejected_proposal pid p s) = base s"
  by (simp add: record_rejected_proposal_def base_def split: option.splits)

lemma base_proposals [simp]: "base (s\<lparr>ss_proposals := d\<rparr>) = base s"
  by (simp add: base_def)

lemma base_decide_one: "base (ds_session (decide_one L m ids pid d)) = base (ds_session d)"
proof -
  have "base (s\<lparr>ss_approved_proposals := a, ss_approved_ids := i, ss_proposals := p\<rparr>) = base s" for s a i p
    by (simp add: base_def)
  then show ?thesis by (simp add: decide_one_def Let_def split: option.splits)
qed

lemma base_decide: "base (ds_session (decide_proposals L ids g s)) = base s"
proof -
  have "base (ds_session (fold (decide_one L m ids) pids d)) = base (ds_session d)" for m pids and d
    by (induction pids arbitrary: d) (auto simp: base_decide_one)
  then show ?thesis by (simp add: decide_proposals_def)
qed

lemma core_reconcile: "core ((fst (reconcile_after_approval J ids g s))\<lparr>ss_content_graph := x\<rparr>) = core (s\<lparr>ss_content_graph := x\<rparr>)"
  by (simp add: reconcile_after_approval_def Let_def core_def base_def)

lemma keys_subset:
  "(\<And>pid p. dict_get a pid = Some p \<Longrightarrow> dict_get b pid = Some p) \<Longrightarrow> pid \<in> fst ` set a \<Longrightarrow> pid \<in> fst ` set b"
  using dict_get_None [of a pid] dict_get_None [of b pid] by (cases "dict_get a pid") auto

lemma graph_approvals_inv:
  assumes inv: "session_inv D opts C s" and g: "ss_content_graph s = Some g"
    and r: "r = apply_graph_approvals (en_lib (dp_engine D)) (dp_files D) ids g s"
    and g': "silent_step (en_lib (dp_engine D)) (ar_graph r) g'"
  shows "session_inv D opts (C \<union> offered_nodes ids s) ((ar_session r)\<lparr>ss_content_graph := Some g'\<rparr>)"
proof -
  let ?L = "en_lib (dp_engine D)" and ?F = "dp_files D" and ?C = "C \<union> offered_nodes ids s"
  define d where "d = decide_proposals ?L ids g s"
  define g1 where "g1 = fst (reject_leftovers ?L (ds_approved d) (ds_graph d, ds_rejected d))"
  define s1 where "s1 = fst (restore_pre_gate2_files ?F (ds_session d))"
  define ps where "ps = map (format_patch ?F) (splice_modifications ?L g1 (ss_graph_originals s1) False)"
  define s2 where "s2 = write_patches_to_session ?F ps s1"
  have r': "ar_session r = s2" "ar_graph r = g1"
    unfolding r s2_def ps_def g1_def s1_def d_def by (simp_all add: apply_graph_approvals_def Let_def case_prod_unfold)
  have d: "decision_ok ?L ids g s d" unfolding d_def by (rule decide_proposals_ok)
  have b: "base (ds_session d) = base s" unfolding d_def by (rule base_decide)
  have s1: "ss_upload_sealed s1 = ss_upload_sealed s" "ss_original_files s1 = ss_original_files s" "ss_content_graph s1 = Some g"
    "ss_graph_originals s1 = ss_graph_originals s" "ss_fix_options s1 = ss_fix_options s"
    "ss_pre_gate2_files s1 = ss_pre_gate2_files s" "ss_proposals s1 = ss_proposals (ds_session d)"
    "ss_working_files s1 \<in> {ss_working_files s, ss_pre_gate2_files s}"
    using b g by (auto simp: s1_def restore_pre_gate2_files_def base_def)
  have s2: "ss_upload_sealed s2 = ss_upload_sealed s" "ss_original_files s2 = ss_original_files s"
    "ss_graph_originals s2 = ss_graph_originals s" "ss_fix_options s2 = ss_fix_options s"
    "ss_pre_gate2_files s2 = ss_pre_gate2_files s" "ss_proposals s2 = ss_proposals (ds_session d)"
    using s1 by (simp_all add: s2_def write_patches_to_session_def)
  have q: "silent_step ?L (ds_graph d) g1" unfolding g1_def using silent_leftovers [of ?L "(ds_graph d, ds_rejected d)"] by simp
  have C: "approved_nodes g \<subseteq> C" and ok: "graph_ok ?L g" using inv g by (simp_all add: session_inv_def)
  have g1: "safe_step ?L g g1"
    by (rule safe_step_trans [of ?L g "ds_graph d"]) (use d q in \<open>simp_all add: decision_ok_def silent_step_def\<close>)
  have C1: "approved_nodes g1 \<subseteq> ?C" using d q C by (auto simp: decision_ok_def silent_step_def quiet_step_def)
  have g2: "safe_step ?L g1 g'" using g' by (simp add: r' silent_step_def)
  have gg: "safe_step ?L g g'" by (rule safe_step_trans [OF g1 g2])
  have C2: "approved_nodes g' \<subseteq> ?C" using g' C1 by (auto simp: r' silent_step_def quiet_step_def)
  have old: "files_ok (may_write ?F ?C (s1\<lparr>ss_content_graph := Some g1\<rparr>)) (ss_working_files s1)"
  proof -
    have "files_ok (may_write ?F C s) (ss_working_files s1)" using inv s1(8) by (auto simp: session_inv_def)
    then show ?thesis by (rule files_ok_mono) (erule may_write_mono, use s1 g g1 in \<open>auto simp: safe_step_def\<close>)
  qed
  have "graph_ok ?L g1" using g1 ok by (simp add: safe_step_def)
  from write_patches_ok [of ?F ?C "s1\<lparr>ss_content_graph := Some g1\<rparr>" g1 ?L] this C1 old
  have "files_ok (may_write ?F ?C (s1\<lparr>ss_content_graph := Some g1\<rparr>)) (ss_working_files s2)"
    by (simp add: s2_def ps_def write_patches_to_session_def)
  then have work: "files_ok (may_write ?F ?C (s2\<lparr>ss_content_graph := Some g'\<rparr>)) (ss_working_files s2)"
    by (rule files_ok_mono) (erule may_write_mono, use s1 s2 g2 in \<open>auto simp: safe_step_def\<close>)
  have props: "is_graph_proposal pid" if "pid \<in> fst ` set (ss_proposals s2)" for pid
    using keys_subset [of "ss_proposals s2" "ss_proposals s" pid] that inv d by (auto simp: s2(6) decision_ok_def session_inv_def)
  show ?thesis unfolding r'
    by (rule session_inv_change [OF inv g]) (use s2 gg C2 work props in auto)
qed

lemma session_inv_mono:
  assumes "session_inv D opts C s" and C: "C \<subseteq> C'"
  shows "session_inv D opts C' s"
proof -
  have m: "files_ok (may_write (dp_files D) C' s) d" if "files_ok (may_write (dp_files D) C s) d" for d
    by (rule files_ok_mono [OF that]) (erule may_write_mono, use C in auto)
  have "approved_nodes g \<subseteq> C'" if "approved_nodes g \<subseteq> C" for g by (rule order_trans [OF that C])
  with m assms(1) show ?thesis by (simp add: session_inv_def)
qed

lemma text_approvals_none: "ss_proposals s = [] \<Longrightarrow> apply_text_approvals F ids s = (s, 0)"
proof -
  assume s: "ss_proposals s = []"
  have "fold (text_approval_one F) ids (s, 0) = (s, 0)"
    by (induction ids) (use s in \<open>auto simp: text_approval_one_def\<close>)
  with s show ?thesis by (simp add: apply_text_approvals_def reject_remaining_def)
qed

lemma apply_approved_inv:
  assumes inv: "session_inv D opts C s"
  shows "session_inv D opts (C \<union> offered_nodes ids s)
    (fst (session_apply_approved (en_lib (dp_engine D)) (dp_files D) (dp_json D) ids fin s))" (is "session_inv D opts ?C (fst ?a)")
proof -
  let ?L = "en_lib (dp_engine D)" and ?F = "dp_files D"
  have keep: "session_inv D opts ?C s" by (rule session_inv_mono [OF inv]) simp
  have upd: "core (x\<lparr>ss_awaiting_tier1_gate := a, ss_review_declined := b, ss_status := c\<rparr>) = core x"
    "core (x\<lparr>ss_review_declined := b, ss_status := c, ss_awaiting_tier1_gate := a\<rparr>) = core x" for x a b c
    by (simp_all add: core_def base_def)
  have "\<exists>x. session_inv D opts ?C x \<and> core (fst ?a) = core x"
  proof (cases "list_ex is_graph_proposal (map fst (ss_proposals s))")
    case True
    then obtain g where g: "ss_content_graph s = Some g" using inv by (auto simp: session_inv_def)
    define r where "r = apply_graph_approvals ?L ?F ids g s"
    define q where "q = reconcile_after_approval (dp_json D) (ar_approved r) (ar_graph r) (ar_session r)"
    have "snd q = settle_proposed (ar_approved r) (ar_graph r)"
      by (simp add: q_def reconcile_after_approval_def Let_def)
    then have "session_inv D opts ?C ((ar_session r)\<lparr>ss_content_graph := Some (snd q)\<rparr>)"
      using graph_approvals_inv [OF inv g r_def silent_settle] by simp
    moreover have "core (fst ?a) = core ((ar_session r)\<lparr>ss_content_graph := Some (snd q)\<rparr>)"
      using True g core_reconcile [where J = "dp_json D" and ids = "ar_approved r" and g = "ar_graph r" and s = "ar_session r"]
      by (auto simp: session_apply_approved_def Let_def case_prod_unfold r_def [symmetric] q_def [symmetric] upd)
    ultimately show ?thesis by blast
  next
    case False
    then have "ss_proposals s = []" using inv by (cases "ss_proposals s") (auto simp: session_inv_def)
    with keep show ?thesis
      by (intro exI [of _ s]) (simp add: session_apply_approved_def text_approvals_none upd split: option.splits)
  qed
  then show ?thesis using session_inv_core by blast
qed

text \<open>What a command consents to: the nodes of the proposals it approves.\<close>

definition consent_of :: "command \<Rightarrow> session \<Rightarrow> string set" where
  "consent_of cmd s =
     (case cmd of
        C_approve ids \<Rightarrow> offered_nodes ids s
      | C_begin_remediate \<Rightarrow>
          (if ss_awaiting_assess s \<and> \<not> (ss_awaiting_tier1_gate s \<and> ss_proposals s \<noteq> [])
           then offered_nodes (filter (startswith ''t1-'') (map fst (ss_proposals s))) s else {})
      | _ \<Rightarrow> {})"

lemma handle_approval_core:
  "run_core (fst (session_handle_approval D ids R)) =
     core (fst (session_apply_approved (en_lib (dp_engine D)) (dp_files D) (dp_json D) ids
                  (\<not> (ss_awaiting_tier1_gate (rn_session R) \<and> enable_ai (rn_session R))) (rn_session R)))"
proof -
  define t1 where "t1 = ss_awaiting_tier1_gate (rn_session R)"
  define ai where "ai = (t1 \<and> enable_ai (rn_session R))"
  define a where "a = session_apply_approved (en_lib (dp_engine D)) (dp_files D) (dp_json D) ids (\<not> ai) (rn_session R)"
  define ps where "ps = (case snd (snd a) of Some ps \<Rightarrow> ps | None \<Rightarrow> [])"
  define W where "W = write_temp_patches D ps (R\<lparr>rn_session := fst a\<rparr>)"
  define P where "P = (if t1 then log_progress (apply_message (fst (snd a))
      (case ss_report (rn_session (fst W)) of Some r \<Rightarrow> sr_fixed r | None \<Rightarrow> fst (snd a)) (length ps)) (fst W) else fst W)"
  define T where "T = send (Ev_approval_ack (fst (snd a)) (ss_status (rn_session (snd (run_ttl D P)))) (fst (run_ttl D P))) (snd (run_ttl D P))"
  have "session_handle_approval D ids R = (if snd W \<noteq> None then (fst W, snd W)
      else (if ai then session_enter_ai_phase D T
            else if ss_status (rn_session T) = S_complete then session_build_result D T else T, None))"
    by (simp only: session_handle_approval_def T_def P_def W_def ps_def a_def ai_def t1_def Let_def case_prod_unfold)
  moreover have "run_core (fst W) = core (fst a)"
    unfolding W_def core_complete by (simp add: run_core_def)
  moreover from this have "run_core T = core (fst a)" by (simp add: T_def P_def)
  ultimately show ?thesis by (simp add: a_def ai_def t1_def)
qed

lemma handle_approval_inv:
  "session_inv D opts C (rn_session R) \<Longrightarrow>
     session_inv D opts (C \<union> offered_nodes ids (rn_session R)) (rn_session (fst (session_handle_approval D ids R)))"
  by (rule run_invI [OF handle_approval_core apply_approved_inv])

lemma begin_remediate_inv:
  assumes "session_inv D opts C (rn_session R)"
  shows "session_inv D opts (C \<union> consent_of C_begin_remediate (rn_session R)) (rn_session (fst (session_begin_remediate D R)))"
proof (cases "ss_awaiting_assess (rn_session R)")
  case True
  define Q where "Q = run_touch D (on_session (\<lambda>s. s\<lparr>ss_awaiting_assess := False\<rparr>) R)"
  define P where "P = on_session (\<lambda>s. s\<lparr>ss_awaiting_tier1_gate := True\<rparr>) Q"
  let ?ids = "filter (startswith ''t1-'') (map fst (ss_proposals (rn_session Q)))"
  have core: "run_core Q = run_core R" "run_core P = run_core R"
    by (simp_all add: P_def Q_def core_defs run_touch_def touch_def)
  have same: "offered_nodes ids (rn_session P) = offered_nodes ids (rn_session R)"
    "ss_awaiting_tier1_gate (rn_session Q) = ss_awaiting_tier1_gate (rn_session R)"
    "ss_proposals (rn_session Q) = ss_proposals (rn_session R)" for ids
    by (simp_all add: P_def Q_def on_session_def run_touch_def read_clock_def touch_def offered_nodes_def)
  have keep: "session_inv D opts C (rn_session X)" if "run_core X = run_core R" for X
    using run_inv_core [OF that, of D] assms by blast
  have "session_inv D opts (C \<union> offered_nodes ?ids (rn_session R)) (rn_session (fst (session_handle_approval D ?ids P)))"
    using handle_approval_inv [OF keep [OF core(2)]] same(1) by simp
  moreover have "session_inv D opts (C \<union> A) (rn_session (send e (set_status st Q)))"
    "session_inv D opts (C \<union> A) (rn_session (session_enter_ai_phase D Q))"
    "session_inv D opts (C \<union> A) (rn_session (complete D Q))" for A e st
    by (rule session_inv_mono [OF keep], simp_all add: core)+
  moreover have "session_inv D opts C (rn_session (send e (set_status st Q)))" for e st
    by (rule keep) (simp add: core)
  ultimately show ?thesis
    using True same by (simp add: session_begin_remediate_def consent_of_def Let_def Q_def [symmetric] P_def [symmetric])
qed (use assms in \<open>simp add: session_begin_remediate_def consent_of_def\<close>)

section \<open>The second gate\<close>

lemma silent_approved: "silent_step L g g' \<Longrightarrow> approved_nodes g \<subseteq> C \<Longrightarrow> approved_nodes g' \<subseteq> C"
  unfolding silent_step_def quiet_step_def by blast

lemma session_inv_graph:
  assumes inv: "session_inv D opts C s" and g: "ss_content_graph s = Some g" and q: "silent_step (en_lib (dp_engine D)) g g'"
  shows "session_inv D opts C (s\<lparr>ss_content_graph := Some g', ss_graph_engine := e\<rparr>)"
proof -
  have "graph_evolves g g'" using q by (simp add: silent_step_def safe_step_def)
  then have "files_ok (may_write (dp_files D) C (s\<lparr>ss_content_graph := Some g', ss_graph_engine := e\<rparr>)) (ss_working_files s)"
    using inv g by (auto simp: session_inv_def elim!: files_ok_mono may_write_mono)
  moreover have "approved_nodes g' \<subseteq> C" using silent_approved [OF q] inv g by (simp add: session_inv_def)
  ultimately show ?thesis
    using q inv by (intro session_inv_change [OF inv g]) (auto simp: silent_step_def session_inv_def)
qed

lemma session_inv_proposals:
  assumes "session_inv D opts C s" and "ss_content_graph s \<noteq> None" and "base s' = base s"
    and "\<And>pid. pid \<in> fst ` set (ss_proposals s') \<Longrightarrow> is_graph_proposal pid"
  shows "session_inv D opts C s'"
  using assms by (auto simp: session_inv_def base_def may_write_def [abs_def])

lemma keys_index_rows: "fst ` set (index_rows ps d) = fst ` set d \<union> gp_id ` set ps"
  unfolding index_rows_def
proof (induction ps arbitrary: d)
  case (Cons p ps)
  have "fst ` set (dict_set (gp_id p) p d) = insert (gp_id p) (fst ` set d)"
    using keys_dict_set [of "gp_id p" p d] by (metis (no_types, lifting) insert_absorb list.set_map set_append Un_insert_right
        empty_set list.simps(15) sup_bot_right)
  with Cons show ?case by simp
qed simp

lemma base_reject_remaining [simp]: "base (reject_remaining s) = base s"
proof -
  have "base (fold (\<lambda>(pid, p) s. (record_rejected_proposal pid p s)\<lparr>ss_proposals := dict_pop pid (ss_proposals s)\<rparr>) ps s) = base s" for ps s
    by (induction ps arbitrary: s) auto
  then show ?thesis by (simp add: reject_remaining_def)
qed

lemma keys_reject_remaining: "pid \<in> fst ` set (ss_proposals (reject_remaining s)) \<Longrightarrow> pid \<in> fst ` set (ss_proposals s)"
proof -
  have "dict_get (ss_proposals (fold (\<lambda>(pid, p) s. (record_rejected_proposal pid p s)\<lparr>ss_proposals := dict_pop pid (ss_proposals s)\<rparr>) ps s)) pid
      = Some p \<Longrightarrow> dict_get (ss_proposals s) pid = Some p" for ps pid p s
  proof (induction ps arbitrary: s)
    case (Cons a ps)
    obtain i q where a: "a = (i, q)" by fastforce
    from Cons.IH [of "(record_rejected_proposal i q s)\<lparr>ss_proposals := dict_pop i (ss_proposals s)\<rparr>"] Cons.prems
    have "dict_get (dict_pop i (ss_proposals s)) pid = Some p" by (simp add: a)
    then show ?case by (simp add: dict_simps split: if_splits)
  qed simp
  then show "pid \<in> fst ` set (ss_proposals (reject_remaining s)) \<Longrightarrow> pid \<in> fst ` set (ss_proposals s)"
    unfolding reject_remaining_def by (rule keys_subset)
qed

lemma values_dict_set: "snd ` set (dict_set k v d) \<subseteq> insert v (snd ` set d)"
  by (induction d) auto

lemma consolidate_ids:
  assumes "p \<in> set (consolidate_gate2_proposals ais t1s)"
  shows "gp_id p \<in> gp_id ` set (ais @ t1s)"
proof -
  define A where "A = gp_id ` set (ais @ t1s)"
  have add: "gp_id ` snd ` set (dict_set k v d) \<subseteq> A" if "gp_id v \<in> A" "gp_id ` snd ` set d \<subseteq> A" for k v d
    by (rule order_trans [OF image_mono [OF values_dict_set]]) (use that in simp)
  have row: "gp_id ` snd ` set (add_tier1_row t d) \<subseteq> A" if "gp_id t \<in> A" "gp_id ` snd ` set d \<subseteq> A" for t d
  proof (cases "dict_get d (row_key t)")
    case (Some e)
    then have "gp_id e \<in> A" using that(2) map_of_SomeD [OF Some] by force
    then show ?thesis using that Some by (simp add: add_tier1_row_def merge_rows_def Let_def add)
  qed (use that in \<open>simp add: add_tier1_row_def add\<close>)
  have ai: "gp_id ` snd ` set (fold (\<lambda>p. dict_set (row_key p) p) ps d) \<subseteq> A" if "gp_id ` set ps \<subseteq> A" "gp_id ` snd ` set d \<subseteq> A" for ps d
    using that by (induction ps arbitrary: d) (auto simp: add)
  have t1: "gp_id ` snd ` set (fold add_tier1_row ps d) \<subseteq> A" if "gp_id ` set ps \<subseteq> A" "gp_id ` snd ` set d \<subseteq> A" for ps d
    using that by (induction ps arbitrary: d) (auto simp: row)
  have "gp_id ` snd ` set (gate2_rows ais t1s) \<subseteq> A"
    unfolding gate2_rows_def by (intro t1 ai) (auto simp: A_def)
  then show ?thesis using assms unfolding A_def consolidate_gate2_proposals_def by auto
qed

lemma row_ids:
  "p \<in> set (build_tier1_proposals L ts) \<Longrightarrow> is_graph_proposal (gp_id p)"
  "p \<in> set (build_graph_proposals L ais) \<Longrightarrow> is_graph_proposal (gp_id p)"
  "p \<in> set (gate2_tier1_rows L ts) \<Longrightarrow> is_graph_proposal (gp_id p)"
  by (auto simp: build_tier1_proposals_def tier1_row_def build_graph_proposals_def ai_row_def gate2_tier1_rows_def
      normalized_proposal_yaml_pair_def Let_def is_graph_proposal_def startswith_def)

lemma session_inv_splice:
  assumes inv: "session_inv D opts C s" and g: "ss_content_graph s = Some g" and q: "silent_step (en_lib (dp_engine D)) g g'"
  shows "session_inv D opts C (write_patches_to_session (dp_files D)
    (map (format_patch (dp_files D)) (splice_modifications (en_lib (dp_engine D)) g' (ss_graph_originals s) False))
    (s\<lparr>ss_content_graph := Some g'\<rparr>))" (is "session_inv D opts C (write_patches_to_session ?F ?ps ?s)")
proof -
  have "core ?s = core (s\<lparr>ss_content_graph := Some g', ss_graph_engine := None\<rparr>)" by (simp add: core_def base_def)
  then have i: "session_inv D opts C ?s" using session_inv_graph [OF inv g q, of None] session_inv_core by blast
  then have "files_ok (may_write ?F C ?s) (ss_working_files (write_patches_to_session ?F ?ps ?s))"
    using write_patches_ok [of ?F C ?s g' "en_lib (dp_engine D)"] by (simp add: session_inv_def)
  with i show ?thesis
    by (intro session_inv_change [OF i]) (auto simp: write_patches_to_session_def session_inv_def may_write_def [abs_def])
qed

lemma gate2_offer_inv:
  assumes "session_inv D opts C (rn_session R)" and "ss_content_graph (rn_session R) = Some g"
  shows "session_inv D opts C (rn_session (fst (gate2_offer D rep g R)))"
proof -
  let ?L = "en_lib (dp_engine D)" and ?F = "dp_files D"
  define R1 where "R1 = on_session (gate2_report D rep g) R"
  define new where "new = gate2_rows_of D rep"
  define old where "old = build_declined_proposals (ss_remaining_ai (rn_session R1)) (proposed_rule_files new) (length new)"
  define R2 where "R2 = on_session (\<lambda>s. s\<lparr>ss_proposals := index_rows new (ss_proposals s), ss_review_declined := index_rows old [],
      ss_ai_proposals := fr_ai_proposals rep, ss_tier1_proposals := fr_tier1_proposals rep, ss_status := S_awaiting_approval\<rparr>) R1"
  define g' where "g' = fst (reject_unapproved_graph_progress ?L g)"
  define ps where "ps = map (format_patch ?F) (splice_modifications ?L g' (ss_graph_originals (rn_session R1)) False)"
  define R3 where "R3 = on_session (\<lambda>s. write_patches_to_session ?F ps (s\<lparr>ss_content_graph := Some g'\<rparr>)) R1"
  have c: "core (rn_session R1) = core (rn_session R)" by (simp add: R1_def on_session_def)
  have i: "session_inv D opts C (rn_session R1)" "ss_content_graph (rn_session R1) = Some g"
    using assms session_inv_core [OF c, of D opts C] c by (simp, simp add: core_def base_def)
  have "is_graph_proposal (gp_id p)" if "p \<in> set new" for p
    using consolidate_ids [OF that [unfolded new_def gate2_rows_of_def]] by (auto intro: row_ids)
  then have "session_inv D opts C (rn_session R2)"
    using i by (intro session_inv_proposals [OF i(1)]) (auto simp: R2_def on_session_def base_def keys_index_rows session_inv_def)
  moreover have "session_inv D opts C (rn_session R3)"
    unfolding R3_def ps_def on_session_def g'_def reject_unapproved_graph_progress_def
    using session_inv_splice [OF i] silent_leftovers [of ?L "(g, [])"] by simp
  moreover have "gate2_offer D rep g R =
      (if new @ old \<noteq> [] then (send (Ev_proposals (new @ old) 2 S_awaiting_approval) R2, None)
       else if snd (write_temp_patches D ps R3) \<noteq> None then (fst (write_temp_patches D ps R3), snd (write_temp_patches D ps R3))
       else (complete D (fst (write_temp_patches D ps R3)), None))"
    by (simp only: gate2_offer_def R1_def R2_def R3_def g'_def ps_def new_def old_def Let_def case_prod_unfold)
  ultimately show ?thesis by (simp add: inv_simps)
qed

text \<open>What an interrupted run of the engine leaves of the graph is reached by the engine's calls.\<close>

definition schedule_ok :: "('m, 's, 'w, 'r) deps \<Rightarrow> 'w schedule \<Rightarrow> bool" where
  "schedule_ok D sc \<longleftrightarrow> (\<forall>g. (engine_call (dp_engine D))\<^sup>*\<^sup>* g (sc_left_graph sc g))"

lemma lib_session_engine [simp]: "en_lib (session_engine D s b) = en_lib (dp_engine D)"
  by (simp add: session_engine_def)

lemma inv_proposals: "session_inv D opts C s \<Longrightarrow> pid \<in> fst ` set (ss_proposals s) \<Longrightarrow> is_graph_proposal pid"
  unfolding session_inv_def by blast

lemma gate2_start_inv:
  assumes "session_inv D opts C s" and "ss_content_graph s = Some g"
  shows "session_inv D opts C (gate2_start s)"
proof (rule session_inv_change [OF assms])
  show "files_ok (may_write (dp_files D) C (gate2_start s)) (ss_working_files (gate2_start s))"
    using assms(1) by (simp add: session_inv_def gate2_start_def may_write_def [abs_def])
qed (use assms in \<open>auto simp: gate2_start_def session_inv_def\<close>)

lemma silent_left: "schedule_ok D sc \<Longrightarrow> silent_step (en_lib (dp_engine D)) g (sc_left_graph sc g)"
  unfolding schedule_ok_def using silent_calls by blast

lemma leave_run_inv:
  assumes "session_inv D opts C (rn_session R)" and "ss_content_graph (rn_session R) = Some g" and "schedule_ok D sc"
  shows "session_inv D opts C (rn_session (leave_run sc g R))"
  using session_inv_graph [OF assms(1,2) silent_left [OF assms(3)]] by (simp add: leave_run_def on_session_def)

lemma core_graph: "run_core R = run_core R' \<Longrightarrow> ss_content_graph (rn_session R) = ss_content_graph (rn_session R')"
  by (simp add: run_core_def core_def base_def)

lemma run_ai_gate_inv:
  assumes inv: "session_inv D opts C (rn_session R)" and sc: "schedule_ok D sc"
  shows "session_inv D opts C (rn_session (fst (session_run_ai_gate D sc R)))"
proof (cases "\<exists>b g. ss_graph_engine (rn_session R) = Some b \<and> ss_content_graph (rn_session R) = Some g")
  case True
  then obtain b g where bg: "ss_graph_engine (rn_session R) = Some b" "ss_content_graph (rn_session R) = Some g" by blast
  define R1 where "R1 = log_progress (progress ''Starting AI escalation (Tier 1 decisions already applied)'' ''graph-ai'' 2) (on_session gate2_start R)"
  define R2 where "R2 = on_session reject_remaining R1"
  define E where "E = session_engine D (rn_session R2) b"
  define vs where "vs = filter_violations_by_escalate_targets (ss_ai_escalate_targets (rn_session R2)) (query_violations (Some V_open) None g)"
  define stamped where "stamped = map (\<lambda>v. snd (route (en_registry E) v)) vs"
  define dr where "dr = (\<lambda>R. drain_remediate_task D (ai_callback E (rn_session R)) sc R)"
  define m where "m = (\<lambda>R :: _ run. remediate E gate2_options (Some stamped) (rn_world R) g)"
  define next_run where "next_run = (\<lambda>R. on_session (\<lambda>s. s\<lparr>ss_content_graph := Some (fst (snd (m R))),
      ss_graph_engine := Some (fr_ai_error (snd (snd (m R))))\<rparr>) (R\<lparr>rn_world := fst (m R)\<rparr>))"
  have i1: "session_inv D opts C (rn_session R1)" "ss_content_graph (rn_session R1) = Some g"
    using gate2_start_inv [OF inv bg(2)] bg(2) core_graph [OF core_small(5)]
    by (simp add: R1_def inv_simps on_session_def, simp add: R1_def on_session_def gate2_start_def log_progress_def send_def)
  have g2: "ss_content_graph (rn_session R2) = Some g"
    using i1(2) base_reject_remaining [of "rn_session R1"] by (simp add: R2_def on_session_def base_def)
  have i2: "session_inv D opts C (rn_session R2)"
  proof (rule session_inv_proposals [OF i1(1)])
    show "is_graph_proposal pid" if "pid \<in> fst ` set (ss_proposals (rn_session R2))" for pid
      using inv_proposals [OF i1(1) keys_reject_remaining] that by (simp add: R2_def on_session_def)
  qed (use i1(2) in \<open>simp_all add: R2_def on_session_def\<close>)
  have tail: "session_inv D opts C (rn_session (fst (if \<not> fst (dr R3) then (leave_run sc g (snd (dr R3)), None)
      else gate2_offer D (snd (snd (m (snd (dr R3))))) (fst (snd (m (snd (dr R3))))) (next_run (snd (dr R3))))))"
    if "run_core R3 = run_core R2" for R3
  proof -
    have c: "run_core (snd (dr R3)) = run_core R2" using that by (simp add: dr_def)
    have i: "session_inv D opts C (rn_session (snd (dr R3)))" "ss_content_graph (rn_session (snd (dr R3))) = Some g"
      using run_inv_core [OF c, of D opts C] i2 core_graph [OF c] g2 by simp_all
    have "silent_step (en_lib E) g (fst (snd (m (snd (dr R3)))))"
      by (rule silent_remediate [of E gate2_options "Some stamped" "rn_world (snd (dr R3))" g "fst (m (snd (dr R3)))" _ "snd (snd (m (snd (dr R3))))"])
        (simp_all add: m_def gate2_options_def)
    then have "session_inv D opts C (rn_session (next_run (snd (dr R3))))"
      using session_inv_graph [OF i] by (simp add: E_def next_run_def on_session_def)
    moreover have "ss_content_graph (rn_session (next_run (snd (dr R3)))) = Some (fst (snd (m (snd (dr R3)))))"
      by (simp add: next_run_def on_session_def)
    ultimately have "session_inv D opts C (rn_session (fst (gate2_offer D rep (fst (snd (m (snd (dr R3))))) (next_run (snd (dr R3))))))" for rep
      by (rule gate2_offer_inv)
    then show ?thesis using leave_run_inv [OF i sc] by simp
  qed
  have "session_run_ai_gate D sc R =
      (if ss_ai_escalate_targets (rn_session R2) \<noteq> None \<and> vs = [] then (complete D R2, None)
       else case begin_ai_operation_budget D (fst (snd (partition_violations vs (en_registry E)))) R2 of
              None \<Rightarrow> (send (Ev_error ''invalid_budget_config'') R2, None)
            | Some R3 \<Rightarrow> (if \<not> fst (dr R3) then (leave_run sc g (snd (dr R3)), None)
                else gate2_offer D (snd (snd (m (snd (dr R3))))) (fst (snd (m (snd (dr R3))))) (next_run (snd (dr R3)))))"
    by (simp only: session_run_ai_gate_def bg option.case fst_conv snd_conv Let_def case_prod_unfold R1_def R2_def E_def vs_def stamped_def
        dr_def m_def next_run_def)
  then show ?thesis
    using i2 tail core_budget(5) by (auto simp: inv_simps split: option.splits)
qed (use inv in \<open>auto simp: session_run_ai_gate_def inv_simps split: option.splits\<close>)

lemma ai_escalate_inv:
  assumes inv: "session_inv D opts C (rn_session R)" and sc: "schedule_ok D sc"
  shows "session_inv D opts C (rn_session (fst (session_handle_ai_escalate D sc targets R)))"
proof -
  define R1 where "R1 = run_touch D (on_session (\<lambda>s. s\<lparr>ss_awaiting_ai_triage := False, ss_ai_escalate_targets := Some targets\<rparr>) R)"
  define R2 where "R2 = on_session (\<lambda>s. fst (decline_skipped_ai_escalation s)) R1"
  have c: "run_core R1 = run_core R" by (simp add: R1_def core_defs run_touch_def touch_def)
  have i: "session_inv D opts C (rn_session R1)" using run_inv_core [OF c, of D opts C] inv by simp
  have "silent_step (en_lib (dp_engine D)) g (fst (decline_open_violations vs g))" for g vs
    by (simp add: silent_step_def safe_ops quiet_ops)
  then have d: "session_inv D opts C (s\<lparr>ss_content_graph := Some (fst (decline_open_violations vs g))\<rparr>)"
    if "session_inv D opts C s" "ss_content_graph s = Some g" for s g vs
    using session_inv_graph [OF that, of _ "ss_graph_engine s"] by simp
  then have "session_inv D opts C (rn_session R2)"
    using i by (auto simp: R2_def on_session_def decline_skipped_ai_escalation_def Let_def case_prod_unfold split: option.splits)
  then have "session_inv D opts C (rn_session (fst (session_run_ai_gate D sc R2)))" "session_inv D opts C (rn_session (complete D R2))"
    using run_ai_gate_inv sc by (auto simp: inv_simps)
  with inv show ?thesis by (simp add: session_handle_ai_escalate_def Let_def R1_def [symmetric] R2_def [symmetric])
qed

section \<open>The run of an upload\<close>

text \<open>What the scan pipeline promises of the graph it builds: it is well formed and nothing in it is approved.\<close>

definition fresh_scan :: "('m, 's, 'w, 'r) deps \<Rightarrow> bool" where
  "fresh_scan D \<longleftrightarrow> (\<forall>w s fs w' sn g. dp_scan D w s fs = (w', Inr sn) \<longrightarrow> sn_graph sn = Some g \<longrightarrow>
     graph_ok (en_lib (dp_engine D)) g \<and> approved_nodes g = {})"

lemma empty_graph_fresh: "graph_ok L empty_graph" "approved_nodes empty_graph = {}"
  by (auto simp: graph_ok_def approved_nodes_def graph_simps) (simp add: empty_graph_def)

lemma safe_remediate: "remediate E op initial w g = (w', g', rep) \<Longrightarrow> safe_step (en_lib E) g g'"
  using safe_step_trans [OF safe_run.rel_converge [of E g op initial w] safe_finish] by (auto simp: remediate_def Let_def)

lemma upload_remediate:
  assumes "graph_ok (en_lib E) g" and "approved_nodes g = {}" and "remediate E op initial w g = (w', g', rep)"
    and "\<not> op_interactive op \<longrightarrow> C = UNIV"
  shows "graph_ok (en_lib E) g'" "approved_nodes g' \<subseteq> C"
  using safe_remediate [OF assms(3)] assms silent_remediate [OF assms(3)]
  by (auto simp: safe_step_def silent_step_def quiet_step_def)

lemma settle_inv:
  assumes inv: "session_inv D opts C (rn_session R)" and g: "ss_content_graph (rn_session R) = Some g"
  shows "session_inv D opts C (rn_session (settle_upload D tmp rep g t1 dh R))"
    and "ss_content_graph (rn_session (settle_upload D tmp rep g t1 dh R)) = Some g"
proof -
  let ?s = "rn_session R" and ?F = "dp_files D" and ?L = "en_lib (dp_engine D)"
  define ps where "ps = (if defer_tier1 ?s \<and> t1 \<noteq> [] then [] else map (final_patch D) (splice_modifications ?L g (ss_graph_originals ?s) False))"
  define qs where "qs = map (tier1_patch ?F tmp ?s) ps"
  define work where "work = fold (\<lambda>p. dict_set (fp_path p) (fp_patched p)) qs (ss_working_files ?s)"
  have ok: "graph_ok ?L g" "approved_nodes g \<subseteq> C" using inv g by (simp_all add: session_inv_def)
  have "may_write ?F C ?s (fp_path q) (fp_patched q)" if q: "q \<in> set qs" for q
  proof -
    obtain p where p: "p \<in> set (splice_modifications ?L g (ss_graph_originals ?s) False)" "q = tier1_patch ?F tmp ?s (final_patch D p)"
      using q by (auto simp: qs_def ps_def split: if_splits)
    have "may_write ?F C ?s (working_files_key ?F (Some tmp) (fp_path (format_patch ?F p))) (fl_encode ?F (fp_patched (format_patch ?F p)))"
      by (rule may_write_splice [OF g ok]) (use p(1) in simp)
    then show ?thesis by (simp add: p(2) tier1_patch_def final_patch_def Let_def)
  qed
  then have w: "files_ok (may_write ?F C ?s) work"
    unfolding work_def using inv by (intro files_ok_fold) (auto simp: session_inv_def)
  define x where "x = ?s\<lparr>ss_working_files := work\<rparr>"
  have "session_inv D opts C x"
    by (rule session_inv_change [OF inv g])
      (use inv g ok w in \<open>auto simp: x_def session_inv_def may_write_def [abs_def]\<close>)
  moreover have c: "run_core (settle_upload D tmp rep g t1 dh R) = core x"
    unfolding settle_upload_def Let_def core_small
    by (simp add: run_core_def x_def core_def base_def work_def qs_def ps_def)
  ultimately show "session_inv D opts C (rn_session (settle_upload D tmp rep g t1 dh R))" by (intro run_invI)
  show "ss_content_graph (rn_session (settle_upload D tmp rep g t1 dh R)) = Some g"
    using c g by (simp add: run_core_def core_def base_def x_def)
qed

lemma offer_inv:
  assumes inv: "session_inv D opts C s" and g: "ss_content_graph s = Some g" and "base s' = base s"
    and "ss_proposals s' = index_rows ps (ss_proposals s)" and "\<And>p. p \<in> set ps \<Longrightarrow> is_graph_proposal (gp_id p)"
  shows "session_inv D opts C s'"
  using assms inv_proposals [OF inv] by (intro session_inv_proposals [OF inv]) (auto simp: keys_index_rows)

lemma enter_gates_inv:
  assumes inv: "session_inv D opts C (rn_session R)" and g: "ss_content_graph (rn_session R) = Some g"
  shows "session_inv D opts C (rn_session (enter_gates D rep t1 R))"
proof -
  define R1 where "R1 = on_session (offer_tier1 D t1) R"
  have i: "session_inv D opts C (rn_session R1)"
  proof (cases "defer_tier1 (rn_session R) \<and> t1 \<noteq> []")
    case True
    then show ?thesis
      by (intro offer_inv [OF inv g, where ps = "build_tier1_proposals (en_lib (dp_engine D)) t1"])
        (auto simp: R1_def on_session_def offer_tier1_def base_def intro: row_ids)
  qed (use inv in \<open>auto simp: R1_def on_session_def offer_tier1_def\<close>)
  have g1: "ss_content_graph (rn_session R1) = Some g" using g by (simp add: R1_def on_session_def offer_tier1_def)
  have assess: "session_inv D opts C (rn_session (on_session (\<lambda>s. s\<lparr>ss_awaiting_assess := True, ss_status := st, ss_assess_findings := fs\<rparr>) R1))"
    for st fs using i session_inv_core [of "(rn_session R1)\<lparr>ss_awaiting_assess := True, ss_status := st, ss_assess_findings := fs\<rparr>" "rn_session R1" D opts C]
    by (simp add: on_session_def core_def base_def)
  have "session_inv D opts C (rn_session (on_session (\<lambda>s. s\<lparr>ss_proposals := index_rows (build_graph_proposals (en_lib (dp_engine D)) (fr_ai_proposals rep))
      (ss_proposals s), ss_review_declined := d, ss_ai_proposals := fr_ai_proposals rep, ss_current_tier := 2, ss_status := S_awaiting_approval\<rparr>) R1))" for d
    by (rule offer_inv [OF i g1]) (auto simp: on_session_def base_def intro: row_ids)
  then have "session_inv D opts C (rn_session (offer_ai D rep R1))"
    using i by (simp add: offer_ai_def Let_def inv_simps)
  then show ?thesis using i assess by (simp add: enter_gates_def Let_def case_prod_unfold R1_def [symmetric] inv_simps)
qed

text \<open>The run of an upload changes neither the uploaded files nor the snapshot of the second gate.\<close>

definition run_frame :: "'w run \<Rightarrow> files \<times> files" where
  "run_frame R = (ss_original_files (rn_session R), ss_pre_gate2_files (rn_session R))"

lemma frame_core: "run_core R = run_core R' \<Longrightarrow> run_frame R = run_frame R'"
  by (simp add: run_core_def core_def base_def run_frame_def)

lemmas frame_simps =
  core_small [THEN frame_core] core_report [THEN frame_core] core_supervise [THEN frame_core] core_drain [THEN frame_core]
  core_complete [THEN frame_core] core_enter_ai_phase [THEN frame_core]

lemma frame_upload:
  "run_frame (settle_upload D tmp rep g t1 dh R) = run_frame R" "run_frame (enter_gates D rep t1 R) = run_frame R"
proof -
  show "run_frame (settle_upload D tmp rep g t1 dh R) = run_frame R"
    unfolding settle_upload_def Let_def frame_simps by (simp add: run_frame_def)
  have f: "run_frame (on_session f R) = run_frame R"
    if "\<And>s. ss_original_files (f s) = ss_original_files s \<and> ss_pre_gate2_files (f s) = ss_pre_gate2_files s" for f and R :: "'a run"
    using that by (simp add: run_frame_def on_session_def)
  have offer: "run_frame (offer_ai D rep R) = run_frame R" for R :: "'a run"
    by (simp add: offer_ai_def Let_def frame_simps f)
  have "run_frame (on_session (offer_tier1 D t1) R) = run_frame R" for t1 by (rule f) (simp add: offer_tier1_def)
  then show "run_frame (enter_gates D rep t1 R) = run_frame R"
    by (simp add: enter_gates_def Let_def case_prod_unfold frame_simps offer f)
qed

lemma start_graph_inv:
  assumes "session_inv D opts C s" and "ss_upload_sealed s" and "ss_content_graph s = None"
    and "graph_ok (en_lib (dp_engine D)) g" and "approved_nodes g \<subseteq> C"
  shows "session_inv D opts C (s\<lparr>ss_content_graph := Some g, ss_graph_originals := orig, ss_graph_engine := e\<rparr>)"
proof -
  have "may_write (dp_files D) C (s\<lparr>ss_content_graph := Some g, ss_graph_originals := orig, ss_graph_engine := e\<rparr>) p c"
    if "may_write (dp_files D) C s p c" for p c
    using that assms(3) unfolding may_write_def by auto
  then show ?thesis using assms by (auto simp: session_inv_def intro: files_ok_mono)
qed

lemma graph_remediate_inv:
  assumes inv: "session_inv D opts C (rn_session R)" and start: "ss_upload_sealed (rn_session R)" "ss_content_graph (rn_session R) = None"
    and fresh: "fresh_scan D" and scope: "\<not> defer_tier1 (rn_session R) \<longrightarrow> C = UNIV"
  shows "session_inv D opts C (rn_session (fst (session_graph_remediate D sc tmp yps R))) \<and>
    run_frame (fst (session_graph_remediate D sc tmp yps R)) = run_frame R"
proof (cases "read_all (file_proto_from_path (dp_files D) tmp (rn_disk R)) yps")
  case files: (Inr fs)
  obtain w scanned where scan: "dp_scan D (rn_world R) (rn_session R) fs = (w, scanned)" by fastforce
  show ?thesis
  proof (cases scanned)
    case sn: (Inr sn)
    define R1 where "R1 = on_session (capture_scan sn) (R\<lparr>rn_world := w\<rparr>)"
    define g where "g = (case sn_graph sn of Some g \<Rightarrow> g | None \<Rightarrow> empty_graph)"
    have c1: "run_core R1 = run_core R" by (simp add: R1_def run_core_def on_session_def)
    have g: "graph_ok (en_lib (dp_engine D)) g" "approved_nodes g = {}"
      using fresh scan sn empty_graph_fresh by (auto simp: g_def fresh_scan_def split: option.splits)
    show ?thesis
    proof (cases "load_yaml_originals (dp_files D) tmp (rn_disk R1) yps []")
      case loaded: (Inr orig)
      define missing where "missing = dp_missing_opt_in D (rn_session R1)"
      define R2 where "R2 = (if missing = [] then R1 else report_progress D (progress (''Requested audit rule(s) not loaded: '' @ join '', '' missing) ''graph-tier1'' 3) R1)"
      define E where "E = session_engine D (rn_session R2) False"
      define R3 where "R3 = on_session (\<lambda>s. s\<lparr>ss_graph_engine := Some False\<rparr>) R2"
      define dr where "dr = drain_remediate_task D (ai_callback E (rn_session R3)) sc R3"
      define R4 where "R4 = snd dr"
      define m where "m = remediate E (upload_options (rn_session R4)) (Some (filter (\<lambda>v. \<not> is_dep_health v) (sn_violations sn))) (rn_world R4) g"
      define g' where "g' = fst (snd m)"
      define R5 where "R5 = on_session (\<lambda>s. s\<lparr>ss_content_graph := Some g', ss_graph_originals := orig,
          ss_graph_engine := Some (fr_ai_error (snd (snd m)))\<rparr>) (R4\<lparr>rn_world := fst m\<rparr>)"
      define t1 where "t1 = (if defer_tier1 (rn_session R5) then fr_tier1_proposals (snd (snd m)) else [])"
      have "run_core R3 = run_core R2" by (simp add: R3_def core_defs)
      then have c4: "run_core R4 = run_core R" using c1 by (simp add: R4_def dr_def R2_def)
      have i4: "session_inv D opts C (rn_session R4)" using run_inv_core [OF c4, of D opts C] inv by simp
      have s4: "ss_upload_sealed (rn_session R4)" "ss_content_graph (rn_session R4) = None" "defer_tier1 (rn_session R4) = defer_tier1 (rn_session R)"
        using c4 start by (auto simp: run_core_def core_def base_def defer_tier1_def option_set_def)
      have m': "remediate E (upload_options (rn_session R4)) (Some (filter (\<lambda>v. \<not> is_dep_health v) (sn_violations sn))) (rn_world R4) g
          = (fst m, g', snd (snd m))" by (simp add: m_def g'_def)
      have ok: "graph_ok (en_lib (dp_engine D)) g'" "approved_nodes g' \<subseteq> C"
        using upload_remediate [OF _ g(2) m', of C] g(1) scope s4(3) by (simp_all add: E_def upload_options_def)
      have i5: "session_inv D opts C (rn_session R5)" "ss_content_graph (rn_session R5) = Some g'"
        using start_graph_inv [OF i4 s4(1,2) ok] by (simp_all add: R5_def on_session_def)
      have "session_graph_remediate D sc tmp yps R = (if \<not> fst dr then (R4\<lparr>rn_world := sc_left_world sc\<rparr>, None)
          else (enter_gates D (snd (snd m)) t1 (settle_upload D tmp (snd (snd m)) g' t1 (filter is_dep_health (sn_violations sn)) R5), None))"
        unfolding session_graph_remediate_def files scan sn sum.case prod.case Let_def R1_def [symmetric] loaded
        by (simp only: case_prod_unfold t1_def R5_def g'_def m_def R4_def dr_def R3_def E_def R2_def missing_def g_def)
      moreover have "run_frame R5 = run_frame R" using frame_core [OF c4] by (simp add: R5_def run_frame_def on_session_def)
      ultimately show ?thesis
        using i4 enter_gates_inv [OF settle_inv [OF i5]] frame_core [OF c4] by (simp add: inv_simps frame_simps frame_upload)
    qed (use inv run_inv_core [OF c1, of D opts C] frame_core [OF c1] files scan sn in
        \<open>simp add: session_graph_remediate_def Let_def R1_def [symmetric]\<close>)
  qed (use inv files scan in \<open>simp add: session_graph_remediate_def inv_simps frame_simps\<close>)
qed (use inv in \<open>simp add: session_graph_remediate_def\<close>)

end
