(* ===== verification/Session_Consent.thy ===== *)
theory Session_Consent
  imports Session_Safety
begin

text \<open>
  The invariant of a session through the processing of an upload, through every command of a
  stream, and through the life of the server: commands of any number of streams, disconnects and
  the reaper.  The property of the engine that matters most follows: nothing is written into the
  user's files that the user did not consent to.
\<close>

section \<open>Processing an upload\<close>

definition deferring :: "fix_options option \<Rightarrow> bool" where
  "deferring opts \<longleftrightarrow> (case opts of Some opt \<Rightarrow> fo_interactive opt \<or> fo_assess_pause opt | None \<Rightarrow> False)"

lemma defer_tier1_eq: "defer_tier1 s = deferring (ss_fix_options s)"
  by (simp add: defer_tier1_def option_set_def deferring_def split: option.splits)

text \<open>A session whose upload is being processed.\<close>

definition started :: "('m, 's, 'w, 'r) deps \<Rightarrow> fix_options option \<Rightarrow> string set \<Rightarrow> files \<Rightarrow> 'w run \<Rightarrow> bool" where
  "started D opts C orig R \<longleftrightarrow> session_inv D opts C (rn_session R) \<and> ss_upload_sealed (rn_session R) \<and>
     ss_content_graph (rn_session R) = None \<and> run_frame R = (orig, [])"

lemma started_core: "run_core R = run_core R' \<Longrightarrow> started D opts C orig R = started D opts C orig R'"
  using run_inv_core [of R R' D opts C] by (simp add: started_def run_core_def core_def base_def run_frame_def)

lemmas started_simps =
  core_small [THEN started_core] core_budget [THEN started_core] core_report [THEN started_core] core_supervise [THEN started_core]

lemma started_inv:
  "started D opts C orig R \<Longrightarrow> session_inv D opts C (rn_session R) \<and> run_frame R = (orig, [])"
  by (simp add: started_def)

lemma format_map_source:
  assumes "dict_get (format_map ds) p = Some c"
  shows "\<exists>d\<in>set ds. fd_path d = p \<and> fd_formatted d = c"
proof -
  have "dict_get (fold (\<lambda>d. dict_set (fd_path d) (fd_formatted d)) ds m) p = Some c \<Longrightarrow>
      dict_get m p = Some c \<or> (\<exists>d\<in>set ds. fd_path d = p \<and> fd_formatted d = c)" for m
  proof (induction ds arbitrary: m)
    case (Cons d ds)
    from Cons.IH [of "dict_set (fd_path d) (fd_formatted d) m"] Cons.prems
    show ?case by (auto simp: dict_simps split: if_splits)
  qed simp
  from this [of "[]"] assms show ?thesis by (simp add: format_map_def)
qed

lemma format_file_path: "d \<in> set (fst (format_file F (p, c))) \<Longrightarrow> fd_path d = p"
  by (auto simp: format_file_def Let_def split: if_splits option.splits)

lemma formatted_may_write:
  assumes "dict_ok orig" and "ss_original_files s = orig" and "dict_get (format_map (fst (format_files F orig))) p = Some c"
  shows "may_write F C s p c"
proof -
  obtain d where d: "d \<in> set (fst (format_files F orig))" "fd_path d = p" "fd_formatted d = c"
    using format_map_source [OF assms(3)] by blast
  then obtain q c0 where q: "(q, c0) \<in> set orig" "d \<in> set (fst (format_file F (q, c0)))" by (auto simp: format_files_def)
  then have "q = p" using format_file_path d(2) by blast
  with q d(3) show ?thesis using assms(1,2) dict_get_in by (fastforce simp: may_write_def)
qed

lemma store_formatted_started:
  assumes "started D opts C orig R"
  shows "started D opts C orig (store_formatted D tmp (format_map (fst (format_files (dp_files D) orig))) fs R)"
proof -
  let ?m = "format_map (fst (format_files (dp_files D) orig))"
  have step: "started D opts C orig (on_session (\<lambda>s. s\<lparr>ss_working_files := dict_set p c' (ss_working_files s)\<rparr>) (R\<lparr>rn_disk := x\<rparr>))"
    if R: "started D opts C orig R" and c: "dict_get ?m p = Some c'" for R p c' x
  proof -
    let ?s = "rn_session R"
    have s: "session_inv D opts C ?s" "ss_upload_sealed ?s" "ss_content_graph ?s = None" "ss_original_files ?s = orig"
      using R by (simp_all add: started_def run_frame_def)
    have "may_write (dp_files D) C ?s p c'"
      by (rule formatted_may_write [OF _ s(4) c]) (use s(1,4) in \<open>simp add: session_inv_def\<close>)
    then have "files_ok (may_write (dp_files D) C ?s) (dict_set p c' (ss_working_files ?s))"
      using s(1) by (auto simp: session_inv_def files_ok_def dict_simps)
    then show ?thesis
      using R s by (simp add: started_def session_inv_def on_session_def run_frame_def may_write_def [abs_def])
  qed
  show ?thesis unfolding store_formatted_def using assms
  proof (induction fs arbitrary: R)
    case (Cons f fs)
    obtain p c where f: "f = (p, c)" by fastforce
    show ?case
      using Cons.prems Cons.IH [OF step [OF Cons.prems]] Cons.IH [OF Cons.prems]
      by (cases "dict_get ?m p") (simp_all add: f)
  qed simp
qed

text \<open>What processing leaves.\<close>

definition processed :: "('m, 's, 'w, 'r) deps \<Rightarrow> fix_options option \<Rightarrow> string set \<Rightarrow> files \<Rightarrow> 'w run \<Rightarrow> bool" where
  "processed D opts C orig R \<longleftrightarrow> session_inv D opts C (rn_session R) \<and> run_frame R = (orig, [])"

lemma started_processed: "started D opts C orig R \<Longrightarrow> processed D opts C orig R"
  by (simp add: started_def processed_def)

lemma processed_send [simp]: "processed D opts C orig (send e R) = processed D opts C orig R"
  by (simp add: processed_def inv_simps frame_simps)

lemma graph_remediate_processed:
  assumes "started D opts C orig R" and "fresh_scan D" and "\<not> deferring opts \<longrightarrow> C = UNIV"
  shows "processed D opts C orig (fst (session_graph_remediate D sc tmp yps R))"
proof -
  have "defer_tier1 (rn_session R) = deferring opts"
    using assms(1) by (simp add: started_def session_inv_def defer_tier1_eq)
  then show ?thesis
    using graph_remediate_inv [of D opts C R sc tmp yps] assms by (simp add: started_def processed_def)
qed

lemma after_format_processed:
  assumes "started D opts C orig R" and "fresh_scan D" and "\<not> deferring opts \<longrightarrow> C = UNIV"
  shows "processed D opts C orig (fst (after_format D sc tmp formatted skipped R))"
proof -
  define R1 where "R1 = snd (check_deadline_event D R)"
  define R2 where "R2 = snd (supervise_executor D (sc_idem_polls sc) R1)"
  define ff where "ff = format_files (dp_files D) (filter (\<lambda>(p, c). p \<notin> fst ` set skipped) formatted)"
  define ok where "ok \<longleftrightarrow> fst ff = [] \<and> snd ff = []"
  define R3 where "R3 = report_if D (\<not> ok) (idem_message (fst ff) (snd ff)) ''format'' 3 (on_session (\<lambda>s. s\<lparr>ss_idempotency_ok := ok\<rparr>) R2)"
  define R4 where "R4 = snd (check_deadline_event D R3)"
  define R5 where "R5 = report_progress D (progress ''Running Tier 1 remediation...'' ''tier1'' 2) R4"
  have c: "run_core (on_session (\<lambda>s. s\<lparr>ss_idempotency_ok := ok\<rparr>) R2) = run_core R2" by (simp add: core_defs)
  have s12: "started D opts C orig R1" "started D opts C orig R2" using assms(1) by (simp_all add: R2_def R1_def started_simps)
  have s: "started D opts C orig R4" "started D opts C orig R5"
    using s12 started_core [OF c, of D] by (simp_all add: R5_def R4_def R3_def started_simps)
  have "after_format D sc tmp formatted skipped R =
      (case fst (check_deadline_event D R) of
         Some code \<Rightarrow> (send (Ev_error code) R1, None)
       | None \<Rightarrow>
           (case fst (supervise_executor D (sc_idem_polls sc) R1) of
              Some code \<Rightarrow> (send (Ev_error code) R2, None)
            | None \<Rightarrow>
                (case fst (check_deadline_event D R3) of
                   Some code \<Rightarrow> (send (Ev_error code) R4, None)
                 | None \<Rightarrow> session_graph_remediate D sc tmp (map (temp_path tmp) (filter is_yaml_path (map fst formatted))) R5)))"
    by (simp only: after_format_def Let_def case_prod_unfold R5_def R4_def R3_def ok_def ff_def R2_def R1_def)
  then show ?thesis
    using s12 [THEN started_processed] s(1) [THEN started_processed] graph_remediate_processed [OF s(2) assms(2,3)] by (simp split: option.splits)
qed

lemma format_upload_processed:
  assumes "started D opts C orig R" and "fresh_scan D" and "\<not> deferring opts \<longrightarrow> C = UNIV"
  shows "processed D opts C orig (fst (format_upload D sc orig R))"
proof -
  let ?F = "dp_files D"
  define R1 where "R1 = snd (supervise_executor D (sc_format_polls sc) R)"
  define ff where "ff = format_files ?F orig"
  define R2 where "R2 = report_if D (snd ff \<noteq> []) (skip_message (snd ff)) ''format'' 3 (on_session (\<lambda>s. s\<lparr>ss_format_diffs := fst ff\<rparr>) R1)"
  define R3 where "R3 = snd (supervise_executor D (sc_write_polls sc) R2)"
  define tmp where "tmp = fl_resolve ?F (parse_path (sc_temp_dir sc))"
  define R4 where "R4 = (\<lambda>disk. on_session (\<lambda>s. s\<lparr>ss_temp_dir := Some (show_path tmp)\<rparr>) (R3\<lparr>rn_disk := disk\<rparr>))"
  define R5 where "R5 = (\<lambda>disk. report_if D (fst ff \<noteq> []) (''Formatted '' @ show_nat (length (fst ff)) @ '' file(s)'') ''format'' 2
      (store_formatted D (show_path tmp) (format_map (fst ff)) orig (R4 disk)))"
  have c: "run_core (on_session (\<lambda>s. s\<lparr>ss_format_diffs := fst ff\<rparr>) R1) = run_core R1" "run_core (R4 disk) = run_core R3" for disk
    by (simp_all add: core_defs R4_def)
  have s: "started D opts C orig R1" "started D opts C orig R3"
    using assms(1) started_core [OF c(1), of D] by (auto simp: R3_def R2_def R1_def started_simps)
  have "started D opts C orig (R4 disk)" for disk using s(2) started_core [OF c(2), of D] by simp
  then have s5: "started D opts C orig (R5 disk)" for disk
    using store_formatted_started [of D opts C orig] by (simp add: R5_def ff_def started_simps)
  have "format_upload D sc orig R =
      (case fst (supervise_executor D (sc_format_polls sc) R) of
         Some code \<Rightarrow> (send (Ev_error code) R1, None)
       | None \<Rightarrow>
           (case fst (supervise_executor D (sc_write_polls sc) R2) of
              Some code \<Rightarrow> (send (Ev_error code) R3, None)
            | None \<Rightarrow>
                (case write_chunked_fs ?F tmp orig (rn_disk R3) of
                   Inl e \<Rightarrow> (R3, Some e)
                 | Inr disk \<Rightarrow> after_format D sc (show_path tmp) (formatted_files (format_map (fst ff)) orig) (snd ff) (R5 disk))))"
    by (simp only: format_upload_def Let_def case_prod_unfold R5_def R4_def tmp_def R3_def R2_def ff_def R1_def)
  then show ?thesis
    using s [THEN started_processed] after_format_processed [OF s5 assms(2,3)] by (simp split: option.splits sum.splits)
qed

lemma session_process_processed:
  assumes "started D opts C orig R" and "ss_working_files (rn_session R) = orig" and "fresh_scan D" and "\<not> deferring opts \<longrightarrow> C = UNIV"
  shows "processed D opts C orig (fst (session_process D sc R))"
proof -
  define R1 where "R1 = on_session (prepare_galaxy (sc_galaxy_cfg sc)) R"
  have orig: "normalize_files orig = Inr orig"
    using assms(1) by (intro normalize_files_normal) (auto simp: started_def session_inv_def run_frame_def)
  have "run_core R1 = run_core R" by (simp add: R1_def run_core_def on_session_def)
  then have s: "started D opts C orig R1" using assms(1) started_core [of R1 R D] by simp
  then have "started D opts C orig (report_progress D u (send_created D (begin_non_ai_operation_budget D 0 R1)))" for u
    by (simp add: started_simps)
  then have "processed D opts C orig (fst (format_upload D sc orig (report_progress D u (send_created D (begin_non_ai_operation_budget D 0 R1)))))" for u
    by (rule format_upload_processed) (use assms in auto)
  moreover have "processed D opts C orig (send e (set_status st R1))" for e st
    using s by (intro started_processed) (simp add: started_simps)
  ultimately show ?thesis
    by (cases "orig = []") (simp_all add: session_process_def assms(2) orig Let_def R1_def [symmetric])
qed

section \<open>Commands on a session\<close>

lemma append_inv:
  assumes inv: "session_inv D opts C s" and app: "session_upload_append caps s ch = Inr s'"
  shows "session_inv D opts C s' \<and> \<not> ss_upload_sealed s'"
proof -
  obtain fs where fs: "normalize_files (ch_files ch) = Inr fs" and open_upload: "\<not> ss_upload_sealed s"
    and s': "s' = s\<lparr>ss_original_files := set_all (set_all fs []) (ss_original_files s),
                     ss_working_files := set_all (set_all fs []) (ss_working_files s)\<rparr>"
    using app by (auto simp: session_upload_append_def Let_def split: if_splits sum.splits)
  let ?orig = "set_all (set_all fs []) (ss_original_files s)"
  have s: "ss_working_files s = ss_original_files s" "ss_content_graph s = None" "ss_proposals s = []" "ss_pre_gate2_files s = []"
    "dict_ok (ss_original_files s)" "\<forall>p\<in>fst ` set (ss_original_files s). normalize_upload_path p = Inr p" "ss_fix_options s = opts"
    using inv open_upload by (simp_all add: session_inv_def)
  have "normalize_upload_path p = Inr p" if "p \<in> fst ` set ?orig" for p
  proof -
    have "p \<in> fst ` set fs \<or> p \<in> fst ` set (ss_original_files s)" using that by (simp add: keys_set_all)
    then show ?thesis using s(6) normalize_files_keys [OF fs] confined_path by blast
  qed
  then show ?thesis
    using s open_upload by (auto simp: s' session_inv_def dict_ok_set_all files_ok_def may_write_def)
qed

lemma unseal_inv: "processed D opts C orig R \<Longrightarrow> session_inv D opts C (unseal_after_failure (rn_session R))"
  by (auto simp: processed_def session_inv_def unseal_after_failure_def reset_partial_run_state_def cleanup_temp_dir_def run_frame_def
      files_ok_def may_write_def)

lemma handle_chunk_inv:
  assumes inv: "session_inv D opts C (rn_session R)" and "fresh_scan D" and "\<not> deferring opts \<longrightarrow> C = UNIV"
  shows "session_inv D opts C (rn_session (fst (handle_chunk D sc ch R)))"
proof (cases "ch_last ch \<and> ss_upload_sealed (rn_session R)")
  case True
  then show ?thesis using inv by (simp add: handle_chunk_def inv_simps split: sum.splits)
next
  case new: False
  show ?thesis
  proof (cases "session_upload_append (dp_caps D) (rn_session R) ch")
    case (Inl e)
    then show ?thesis using new inv by (auto simp: handle_chunk_def)
  next
    case app: (Inr s)
    note i = append_inv [OF inv app]
    define orig where "orig = ss_original_files s"
    define R1 where "R1 = R\<lparr>rn_session := seal_upload (dp_files D) ch s, rn_events := []\<rparr>"
    define P where "P = session_process D sc R1"
    define failed where "failed \<longleftrightarrow> snd P \<noteq> None \<or> list_ex is_error_event (rn_events (fst P))"
    have "started D opts C orig R1" "ss_working_files (rn_session R1) = orig"
      using i by (simp_all add: R1_def orig_def started_def session_inv_def seal_upload_def run_frame_def files_ok_def may_write_def)
    then have p: "processed D opts C orig (fst P)"
      unfolding P_def using session_process_processed assms(2,3) by blast
    have "handle_chunk D sc ch R = (if \<not> ch_last ch then (R\<lparr>rn_session := s\<rparr>, None)
        else ((if failed then on_session unseal_after_failure (fst P) else fst P)
                \<lparr>rn_events := rn_events R @ rn_events (if failed then on_session unseal_after_failure (fst P) else fst P)\<rparr>, snd P))"
      using new by (auto simp: handle_chunk_def app Let_def case_prod_unfold R1_def P_def failed_def)
    then show ?thesis using i p unseal_inv [OF p] by (simp add: processed_def on_session_def)
  qed
qed

lemma core_reanchor: "run_core (on_session (reanchor_lifetime_deadline E t) R) = run_core R"
  by (rule core_on_session) simp

lemma handle_resume_core: "run_core (handle_resume D R) = run_core R"
  by (simp add: handle_resume_def Let_def case_prod_unfold core_reanchor)

lemma consent_touch [simp]: "consent_of cmd (rn_session (run_touch D R)) = consent_of cmd (rn_session R)"
  by (auto simp: consent_of_def offered_nodes_def run_touch_def read_clock_def on_session_def touch_def split: command.splits)

lemma session_command_inv:
  assumes inv: "session_inv D opts C (rn_session R)" and "fresh_scan D" and "\<not> deferring opts \<longrightarrow> C = UNIV" and "schedule_ok D sc"
  shows "session_inv D opts (C \<union> consent_of cmd (rn_session R)) (rn_session (fst (session_command D sc cmd R)))"
proof -
  have t: "session_inv D opts C (rn_session (run_touch D R))" using inv by (simp add: inv_simps)
  have "session_inv D opts (C \<union> consent_of (C_approve ids) (rn_session R)) (rn_session (fst (session_handle_approval D ids (run_touch D R))))" for ids
    using handle_approval_inv [OF t, of ids] consent_touch [of "C_approve ids" D R] by (simp add: consent_of_def)
  moreover have "session_inv D opts (C \<union> consent_of C_begin_remediate (rn_session R)) (rn_session (fst (session_begin_remediate D (run_touch D R))))"
    using begin_remediate_inv [OF t] by simp
  ultimately show ?thesis
    using inv t handle_chunk_inv [OF assms(1-3)] ai_escalate_inv [OF t assms(4)]
    by (cases cmd) (simp_all add: session_command_def consent_of_def inv_simps)
qed

section \<open>The server\<close>

text \<open>
  The steps of the server: a command of a stream, a stream whose client disconnects, and a round of
  the reaper.  A new session gets a fresh identifier.  The second component records, for each
  session, the nodes its user has consented to.
\<close>

definition consents :: "command \<Rightarrow> stream_state \<Rightarrow> 'w server \<Rightarrow> (string \<Rightarrow> string set) \<Rightarrow> string \<Rightarrow> string set" where
  "consents cmd st V K =
     (case sm_session st of
        None \<Rightarrow> K
      | Some sid \<Rightarrow>
          (case dict_get (sto_objects (sv_store V)) sid of
             None \<Rightarrow> K | Some s \<Rightarrow> K(sid := K sid \<union> consent_of cmd s)))"

inductive server_step ::
  "('m, 's, 'w, 'r) deps \<Rightarrow> 'w server \<times> (string \<Rightarrow> string set) \<Rightarrow> 'w server \<times> (string \<Rightarrow> string set) \<Rightarrow> bool" for D where
  command: "schedule_ok D sc \<Longrightarrow> dict_get (sto_objects (sv_store V)) (sc_session_id sc) = None \<Longrightarrow>
     fix_session_command D sc cmd st V = (V', st', evs, out) \<Longrightarrow> server_step D (V, K) (V', consents cmd st V K)"
| disconnect: "server_step D (V, K) (fix_session_cancelled st V, K)"
| reap: "server_step D (V, K) (V\<lparr>sv_store := store_reap (dp_sessions D) now (sv_store V)\<rparr>, K)"

lemma command_step:
  "schedule_ok D sc \<Longrightarrow> dict_get (sto_objects (sv_store V)) (sc_session_id sc) = None \<Longrightarrow>
     server_step D (V, K) (fst (fix_session_command D sc cmd st V), consents cmd st V K)"
  by (cases "fix_session_command D sc cmd st V") (simp add: server_step.command)

definition object_inv :: "('m, 's, 'w, 'r) deps \<Rightarrow> (string \<Rightarrow> string set) \<Rightarrow> string \<Rightarrow> session \<Rightarrow> bool" where
  "object_inv D K sid s \<longleftrightarrow>
     session_inv D (ss_fix_options s) (if deferring (ss_fix_options s) then K sid else UNIV) s"

definition server_inv :: "('m, 's, 'w, 'r) deps \<Rightarrow> store \<Rightarrow> (string \<Rightarrow> string set) \<Rightarrow> bool" where
  "server_inv D S K \<longleftrightarrow> (\<forall>sid s. dict_get (sto_objects S) sid = Some s \<longrightarrow> object_inv D K sid s)"

lemma object_inv_core: "core s = core s' \<Longrightarrow> object_inv D K sid s = object_inv D K sid s'"
  using session_inv_core [of s s' D] by (simp add: object_inv_def core_def base_def)

lemma server_inv_update:
  assumes "server_inv D S K" and "\<And>s. core (f s) = core s"
  shows "server_inv D (update_object sid f S) K"
  unfolding server_inv_def
proof (intro allI impI)
  fix i s'
  assume "dict_get (sto_objects (update_object sid f S)) i = Some s'"
  then obtain s where "dict_get (sto_objects S) i = Some s" and s': "s' = (if i = sid then f s else s)"
    by (auto simp: update_object_def dict_simps)
  then have "object_inv D K i s" using assms(1) unfolding server_inv_def by blast
  with s' show "object_inv D K i s'" using object_inv_core [OF assms(2), of D] by (cases "i = sid") simp_all
qed

lemma server_inv_remove: "server_inv D S K \<Longrightarrow> server_inv D (fst (store_remove sid S)) K"
  using server_inv_update [of D S K cleanup sid] by (simp add: store_remove_def server_inv_def)

lemma server_inv_get: "server_inv D S K \<Longrightarrow> server_inv D (fst (store_get E now sid S)) K"
  by (simp add: store_get_def server_inv_remove split: option.splits)

lemma server_inv_fold_remove: "server_inv D S K \<Longrightarrow> server_inv D (fold (\<lambda>sid S. fst (store_remove sid S)) sids S) K"
proof (induction sids arbitrary: S)
  case (Cons sid sids)
  from Cons.IH [OF server_inv_remove [OF Cons.prems]] show ?case by simp
qed simp

lemma server_inv_put:
  assumes "server_inv D (sv_store V) K" and "\<And>i. i \<noteq> sid \<Longrightarrow> K' i = K i"
    and "session_inv D opts (if deferring opts then K' sid else UNIV) (rn_session R)"
  shows "server_inv D (sv_store (put_run sid R V)) K'"
  unfolding server_inv_def
proof (intro allI impI)
  fix i s
  assume s: "dict_get (sto_objects (sv_store (put_run sid R V))) i = Some s"
  have opts: "ss_fix_options (rn_session R) = opts" using assms(3) by (simp add: session_inv_def)
  show "object_inv D K' i s"
  proof (cases "i = sid")
    case True
    then have "s = rn_session R" using s by (simp add: put_run_def dict_simps)
    then show ?thesis using True assms(3) opts by (simp add: object_inv_def)
  next
    case False
    then have "object_inv D K i s" using s assms(1) by (simp add: put_run_def dict_simps server_inv_def)
    then show ?thesis unfolding object_inv_def assms(2) [OF False] .
  qed
qed

lemma server_inv_failure: "server_inv D (sv_store V) K \<Longrightarrow> server_inv D (sv_store (fst (handle_failure D err st V))) K"
proof -
  assume i: "server_inv D (sv_store V) K"
  have "server_inv D (sv_store (drop_unsealed_created D st V)) K"
    using i by (auto simp: drop_unsealed_created_def server_clock_def Let_def case_prod_unfold
        intro!: server_inv_remove server_inv_get split: option.splits)
  with i show ?thesis by (simp add: handle_failure_def split: option.splits failure.splits)
qed

lemma clock_store [simp]: "sv_store (snd (server_clock D V)) = sv_store V"
  by (simp add: server_clock_def)

lemma object_invD: "server_inv D S K \<Longrightarrow> dict_get (sto_objects S) sid = Some s \<Longrightarrow> object_inv D K sid s"
  unfolding server_inv_def by blast

lemma stream_session_inv:
  assumes inv: "server_inv D (sv_store V) K" and D: "fresh_scan D" "schedule_ok D sc" and sid: "sm_session st = Some sid"
  shows "server_inv D (sv_store (fst (on_stream_session D sc cmd sid st V))) (consents cmd st V K)"
proof (cases "dict_get (sto_objects (sv_store V)) sid")
  case None
  then show ?thesis using inv sid by (simp add: on_stream_session_def consents_def)
next
  case (Some s)
  let ?opts = "ss_fix_options s" and ?K = "K(sid := K sid \<union> consent_of cmd s)"
  define R where "R = fst (session_command D sc cmd (run_of V s))"
  have "session_inv D ?opts (if deferring ?opts then K sid else UNIV) (rn_session (run_of V s))"
    using object_invD [OF inv Some] by (simp add: object_inv_def run_of_def)
  from session_command_inv [OF this D(1) _ D(2), of cmd]
  have c: "session_inv D ?opts ((if deferring ?opts then K sid else UNIV) \<union> consent_of cmd s) (rn_session R)"
    by (simp add: R_def run_of_def)
  have "session_inv D ?opts (if deferring ?opts then ?K sid else UNIV) (rn_session R)"
    by (rule session_inv_mono [OF c]) simp
  then have "server_inv D (sv_store (put_run sid R V)) ?K" by (intro server_inv_put [OF inv]) auto
  then show ?thesis
    using server_inv_failure sid by (simp add: on_stream_session_def Some Let_def case_prod_unfold consents_def R_def)
qed

lemma new_session_inv: "session_inv D (ss_fix_options (upload_start ch s)) C (upload_start ch s)"
  if "s = init_lifetime_deadline E t (new_session t sid)"
  by (simp add: that session_inv_def upload_start_def init_lifetime_deadline_def new_session_def)

lemma first_chunk_inv:
  assumes inv: "server_inv D (sv_store V) K" and D: "fresh_scan D"
  shows "server_inv D (sv_store (fst (first_chunk D sc ch st V))) K"
proof -
  define t where "t = fst (server_clock D V)"
  define V1 where "V1 = snd (server_clock D V)"
  define sid where "sid = sc_session_id sc"
  have V1: "server_inv D (sv_store V1) K" using inv by (simp add: V1_def)
  show ?thesis
  proof (cases "store_create (dp_sessions D) t sid (sv_store V1)")
    case (Inl e)
    then show ?thesis
      using server_inv_failure [OF V1] by (simp add: first_chunk_def Let_def case_prod_unfold t_def V1_def sid_def)
  next
    case (Inr S)
    define s where "s = init_lifetime_deadline (dp_sessions D) t (new_session t sid)"
    define opts where "opts = ss_fix_options (upload_start ch s)"
    let ?C = "if deferring opts then K sid else UNIV"
    define V2 where "V2 = V1\<lparr>sv_store := S\<rparr>"
    define R where "R = fst (handle_chunk D sc ch (send_created D (run_of V2 (upload_start ch s))))"
    have S: "sto_objects S = dict_set sid s (sto_objects (sv_store V1))"
      using Inr by (auto simp: store_create_def s_def split: if_splits)
    have "session_inv D opts ?C (rn_session (send_created D (run_of V2 (upload_start ch s))))"
      using new_session_inv [OF s_def, of D ch] by (simp add: inv_simps run_of_def opts_def)
    then have "session_inv D opts ?C (rn_session R)" unfolding R_def by (rule handle_chunk_inv [OF _ D]) simp
    then have "server_inv D (sv_store (put_run sid R V1)) K" by (intro server_inv_put [OF V1]) auto
    moreover have "sto_objects (sv_store (put_run sid R V2)) = sto_objects (sv_store (put_run sid R V1))"
      by (simp add: put_run_def V2_def S update_last)
    ultimately have "server_inv D (sv_store (put_run sid R V2)) K" by (simp add: server_inv_def)
    then show ?thesis
      using server_inv_failure Inr S
      by (simp add: first_chunk_def Let_def case_prod_unfold t_def [symmetric] V1_def [symmetric] sid_def [symmetric]
          V2_def [symmetric] dict_simps R_def)
  qed
qed

lemma consents_none: "(\<And>s. consent_of cmd s = {}) \<Longrightarrow> consents cmd st V K = K"
  by (auto simp: consents_def split: option.splits)

lemma resume_inv:
  assumes inv: "server_inv D (sv_store V) K" and found: "store_get E t sid (sv_store V) = (S, Some s)"
  shows "server_inv D (sv_store (put_run sid (handle_resume D (run_of (V\<lparr>sv_store := S\<rparr>) s)) (V\<lparr>sv_store := S\<rparr>))) K"
proof -
  have S: "S = sv_store V" "dict_get (sto_objects (sv_store V)) sid = Some s"
    using found by (auto simp: store_get_def active_session_def split: option.splits if_splits)
  have "session_inv D (ss_fix_options s) (if deferring (ss_fix_options s) then K sid else UNIV)
      (rn_session (handle_resume D (run_of (V\<lparr>sv_store := S\<rparr>) s)))"
    unfolding run_inv_core [OF handle_resume_core]
    using object_invD [OF inv S(2)] by (simp add: object_inv_def run_of_def)
  then show ?thesis by (intro server_inv_put) (use inv S(1) in auto)
qed

lemma command_inv:
  assumes inv: "server_inv D (sv_store V) K" and D: "fresh_scan D" "schedule_ok D sc"
  shows "server_inv D (sv_store (fst (fix_session_command D sc cmd st V))) (consents cmd st V K)"
proof -
  have stream: "server_inv D (sv_store (fst (on_stream_session D sc cmd sid st V))) (consents cmd st V K)" if "sm_session st = Some sid" for sid
    by (rule stream_session_inv [OF inv D that])
  have idle: "consents cmd st V K = K" if "sm_session st = None" using that by (simp add: consents_def)
  show ?thesis
  proof (cases cmd)
    case (C_upload ch)
    then show ?thesis
      using stream idle first_chunk_inv [OF inv D(1), of sc ch st] by (simp add: fix_session_command_def split: option.splits)
  next
    case (C_resume sid)
    define t where "t = fst (server_clock D V)"
    define V1 where "V1 = snd (server_clock D V)"
    obtain S found where get: "store_get (dp_sessions D) t sid (sv_store V1) = (S, found)" by fastforce
    have V1: "server_inv D (sv_store V1) K" using inv by (simp add: V1_def)
    have "server_inv D S K" using server_inv_get [OF V1, of "dp_sessions D" t sid] get by simp
    moreover have "consents cmd st V K = K" by (rule consents_none) (simp add: C_resume consent_of_def)
    ultimately show ?thesis
      using resume_inv [OF V1] get
      by (cases found) (simp_all add: C_resume fix_session_command_def Let_def case_prod_unfold t_def [symmetric] V1_def [symmetric])
  next
    case C_close
    moreover have "consents cmd st V K = K" by (rule consents_none) (simp add: C_close consent_of_def)
    ultimately show ?thesis
      using inv by (simp add: fix_session_command_def close_stream_sessions_def Let_def server_inv_remove split: option.splits)
  qed (use inv stream idle in \<open>simp_all add: fix_session_command_def split: option.splits\<close>)
qed

lemma server_step_inv:
  assumes "server_step D a b" and "fresh_scan D" and "server_inv D (sv_store (fst a)) (snd a)"
  shows "server_inv D (sv_store (fst b)) (snd b)"
  using assms(1,3)
proof (induction rule: server_step.induct)
  case (command sc V cmd st V' st' evs out K)
  then show ?case using command_inv [of D V K sc cmd st] assms(2) by simp
next
  case (disconnect V K st)
  then show ?case by (simp add: fix_session_cancelled_def server_inv_remove split: option.splits)
next
  case (reap V K now)
  then show ?case by (simp add: store_reap_def server_inv_fold_remove)
qed

definition new_server :: "'w \<Rightarrow> files \<Rightarrow> 'w server" where
  "new_server w disk = \<lparr>sv_store = empty_store, sv_world = w, sv_disk = disk, sv_ticks = 0, sv_emitted = []\<rparr>"

lemma server_history_inv:
  assumes "(server_step D)\<^sup>*\<^sup>* (new_server w disk, \<lambda>_. {}) (V, K)" and "fresh_scan D"
  shows "server_inv D (sv_store V) K"
proof -
  have "server_inv D (sv_store (fst b)) (snd b)" if "(server_step D)\<^sup>*\<^sup>* (new_server w disk, \<lambda>_. {}) b" for b
    using that
  proof (induction rule: rtranclp_induct)
    case base
    show ?case by (simp add: new_server_def empty_store_def server_inv_def)
  next
    case (step y z)
    then show ?case using server_step_inv [OF _ assms(2)] by blast
  qed
  from this [OF assms(1)] show ?thesis by simp
qed

text \<open>
  C1. Nothing is written without consent.  In any history of the server - commands of any number of
  streams, uploads that fail and are retried, interrupted AI runs, disconnects, resumes, expiry -
  every working file of a session that is interactive or pauses after its assessment is the
  uploaded file, the formatter's result for it, or a formatted splice into the text the run read,
  each of whose edits replaces the lines of a node the user consented to; the user consents to the
  nodes of the proposals of an approval and, when an assessed session is started without a first
  gate, of its tier 1 proposals.  Likewise only such nodes have approved content in the graph.
\<close>

theorem session_writes_only_consented:
  assumes "(server_step D)\<^sup>*\<^sup>* (new_server w disk, \<lambda>_. {}) (V, K)" and "fresh_scan D"
    and "dict_get (sto_objects (sv_store V)) sid = Some s" and "defer_tier1 s"
  shows "(\<forall>g. ss_content_graph s = Some g \<longrightarrow> approved_nodes g \<subseteq> K sid) \<and>
    (\<forall>p c. dict_get (ss_working_files s) p = Some c \<longrightarrow>
       dict_get (ss_original_files s) p = Some c \<or>
       (\<exists>c0 d. dict_get (ss_original_files s) p = Some c0 \<and> d \<in> set (fst (format_file (dp_files D) (p, c0))) \<and> c = fd_formatted d) \<or>
       (\<exists>g path tmp orig edits. ss_content_graph s = Some g \<and> p = working_files_key (dp_files D) tmp path \<and>
          dict_get (ss_graph_originals s) path = Some orig \<and> (\<forall>e\<in>set edits. edit_of_node g (K sid) path e) \<and>
          c = fl_encode (dp_files D) (formatted_text (dp_files D) path
                (concat (splice_all (sort_edits edits) (ensure_newline (splitlines_keep orig)))))))"
proof -
  have i: "session_inv D (ss_fix_options s) (K sid) s"
    using object_invD [OF server_history_inv [OF assms(1,2)] assms(3)] assms(4) by (simp add: object_inv_def defer_tier1_eq)
  have w: "may_write (dp_files D) (K sid) s p c" if "dict_get (ss_working_files s) p = Some c" for p c
    using i that by (simp add: session_inv_def files_ok_def)
  have g: "approved_nodes g \<subseteq> K sid" if "ss_content_graph s = Some g" for g using i that by (simp add: session_inv_def)
  show ?thesis
  proof (intro conjI allI impI)
    fix p c
    assume "dict_get (ss_working_files s) p = Some c"
    from w [OF this, unfolded may_write_def spliced_content_def]
    show "dict_get (ss_original_files s) p = Some c \<or>
       (\<exists>c0 d. dict_get (ss_original_files s) p = Some c0 \<and> d \<in> set (fst (format_file (dp_files D) (p, c0))) \<and> c = fd_formatted d) \<or>
       (\<exists>g path tmp orig edits. ss_content_graph s = Some g \<and> p = working_files_key (dp_files D) tmp path \<and>
          dict_get (ss_graph_originals s) path = Some orig \<and> (\<forall>e\<in>set edits. edit_of_node g (K sid) path e) \<and>
          c = fl_encode (dp_files D) (formatted_text (dp_files D) path
                (concat (splice_all (sort_edits edits) (ensure_newline (splitlines_keep orig))))))" by blast
  qed (rule g)
qed

section \<open>A session from upload to approval\<close>

definition sample_deps :: "(unit, unit, unit, unit) deps" where
  "sample_deps =
     \<lparr>dp_engine = sample_engine, dp_provider = (\<lambda>_. None), dp_validators = (\<lambda>w g ids. (w, [])),
      dp_scan = (\<lambda>w s fs. (w, Inr \<lparr>sn_violations = [sample_violation ''L007'' ''t''], sn_graph = Some sample_graph,
                                    sn_logs = [], sn_venv = None\<rparr>)),
      dp_missing_opt_in = (\<lambda>_. []), dp_files = sample_file_lib, dp_json = sample_json,
      dp_caps = \<lparr>uc_bytes = 10, uc_files = 5\<rparr>,
      dp_budgets = \<lparr>SCAN_BASE = 300, MIN_BUDGET = 600, MAX_BUDGET = 7200, PER_CALL_TIMEOUT = 60, STALL_SECONDS = 600,
                    AI_CONCURRENCY = 4, TIER1_SECONDS_PER_VIOLATION = 2, TIER1_MARGIN_CAP = 600\<rparr>,
      dp_sessions = sample_env, dp_clock = (\<lambda>_. \<lparr>ck_wall = 0, ck_mono = 5\<rparr>)\<rparr>"

definition sample_schedule :: "string \<Rightarrow> unit schedule" where
  "sample_schedule sid =
     \<lparr>sc_format_polls = 1, sc_write_polls = 0, sc_idem_polls = 0, sc_turns = [T_timeout], sc_late = [], sc_end = Task_done,
      sc_left_graph = (\<lambda>g. g), sc_left_world = (), sc_left_ai_error = False, sc_temp_dir = ''/tmp/x'', sc_galaxy_cfg = None,
      sc_session_id = sid\<rparr>"

definition interactive_options :: fix_options where
  "interactive_options =
     \<lparr>fo_max_passes = 0, fo_interactive = True, fo_enable_ai = False, fo_assess_pause = False, fo_galaxy_servers = [], fo_pipeline = []\<rparr>"

definition sample_chunk :: scan_chunk where
  "sample_chunk =
     \<lparr>ch_files = [(''site.yml'', ''a: 1'')], ch_last = True, ch_scan_id = [], ch_project_root = [], ch_options = None,
      ch_fix_options = Some interactive_options\<rparr>"

definition sample_uploaded :: "unit server \<times> stream_state \<times> session_event list \<times> outcome" where
  "sample_uploaded = fix_session_command sample_deps (sample_schedule ''s1'') (C_upload sample_chunk) new_stream (new_server () [])"

definition sample_approved :: "unit server \<times> stream_state \<times> session_event list \<times> outcome" where
  "sample_approved = fix_session_command sample_deps (sample_schedule ''s2'') (C_approve [''t1-0000'']) (fst (snd sample_uploaded)) (fst sample_uploaded)"

lemma sample_schedule_ok: "schedule_ok sample_deps (sample_schedule sid)"
  by (simp add: schedule_ok_def sample_schedule_def)

lemma sample_fresh: "fresh_scan sample_deps"
proof -
  have "approved_nodes (add_node (sample_node ''t'' NT_Task) empty_graph) = {}"
    by (auto simp: approved_nodes_def get_node_def add_node_def empty_graph_def sample_node_def split: if_splits)
  then have "approved_nodes sample_graph = {}"
    using quiet_trans [OF quiet_register quiet_record_state] unfolding sample_graph_def quiet_step_def by blast
  then show ?thesis using sample_engine_ok by (auto simp: fresh_scan_def sample_deps_def)
qed

text \<open>Handling a failure leaves every session object in the heap, with its options.\<close>

definition keeps_objects :: "store \<Rightarrow> store \<Rightarrow> bool" where
  "keeps_objects S S' \<longleftrightarrow>
     (\<forall>k. map_option ss_fix_options (dict_get (sto_objects S') k) = map_option ss_fix_options (dict_get (sto_objects S) k))"

lemma keeps_remove: "keeps_objects S S' \<Longrightarrow> keeps_objects S (fst (store_remove sid S'))"
proof -
  have "map_option ss_fix_options (dict_get (sto_objects (fst (store_remove sid S'))) k) =
      map_option ss_fix_options (dict_get (sto_objects S') k)" for k
    by (cases "dict_get (sto_objects S') k")
      (auto simp: store_remove_def update_object_def dict_simps cleanup_def cleanup_temp_dir_def cleanup_galaxy_cfg_def)
  then show "keeps_objects S S' \<Longrightarrow> keeps_objects S (fst (store_remove sid S'))" by (simp add: keeps_objects_def)
qed

lemma keeps_failure: "keeps_objects (sv_store V) (sv_store (fst (handle_failure D err st V)))"
proof -
  have same: "keeps_objects S S" for S by (simp add: keeps_objects_def)
  have get: "keeps_objects S (fst (store_get E t sid S))" for S E t sid
    by (simp add: store_get_def same keeps_remove split: option.splits)
  have "keeps_objects (sv_store V) (sv_store (drop_unsealed_created D st V))"
    by (auto simp: drop_unsealed_created_def Let_def case_prod_unfold same get intro!: keeps_remove split: option.splits)
  with same show ?thesis by (simp add: handle_failure_def split: option.splits failure.splits)
qed

lemma objects_put: "dict_get (sto_objects (sv_store (put_run sid R V))) k =
    (if k = sid then Some (rn_session R) else dict_get (sto_objects (sv_store V)) k)"
  by (simp add: put_run_def dict_simps)

lemma sample_uploaded_objects:
  "map_option ss_fix_options (dict_get (sto_objects (sv_store (fst sample_uploaded))) ''s1'') = Some (Some interactive_options)"
  "dict_get (sto_objects (sv_store (fst sample_uploaded))) ''s2'' = None"
  "sm_session (fst (snd sample_uploaded)) = Some ''s1''"
proof -
  define V where "V = snd (server_clock sample_deps (new_server () []))"
  define now where "now = fst (server_clock sample_deps (new_server () []))"
  define s where "s = init_lifetime_deadline sample_env now (new_session now ''s1'')"
  define S where "S = \<lparr>sto_objects = [(''s1'', s)], sto_active = [''s1''], sto_last_create = ck_mono now\<rparr>"
  define ch where "ch = handle_chunk sample_deps (sample_schedule ''s1'') sample_chunk
      (send_created sample_deps (run_of (V\<lparr>sv_store := S\<rparr>) (upload_start sample_chunk s)))"
  define st where "st = \<lparr>sm_session = Some ''s1'', sm_created = Some ''s1''\<rparr>"
  define P where "P = put_run ''s1'' (fst ch) (V\<lparr>sv_store := S\<rparr>)"
  have create: "store_create (dp_sessions sample_deps) now ''s1'' (sv_store V) = Inr S"
    by (simp add: S_def s_def store_create_def V_def new_server_def empty_store_def sample_env_def sample_deps_def)
  have up: "sample_uploaded = (fst (handle_failure sample_deps (snd ch) st P), st, rn_events (fst ch),
      snd (handle_failure sample_deps (snd ch) st P))"
    using create
    by (simp add: sample_uploaded_def fix_session_command_def new_stream_def first_chunk_def Let_def case_prod_unfold
        now_def [symmetric] V_def [symmetric] sample_schedule_def [of "''s1''", THEN arg_cong [where f = sc_session_id]]
        ch_def P_def st_def S_def)
  have opts: "ss_fix_options (upload_start sample_chunk s) = Some interactive_options"
    by (simp add: upload_start_def sample_chunk_def)
  have "session_inv sample_deps (Some interactive_options) UNIV (rn_session (fst ch))"
    unfolding ch_def
    by (rule handle_chunk_inv [OF _ sample_fresh])
      (use new_session_inv [OF s_def, of sample_deps sample_chunk] opts in \<open>simp_all add: inv_simps run_of_def\<close>)
  then have P: "map_option ss_fix_options (dict_get (sto_objects (sv_store P)) ''s1'') = Some (Some interactive_options)"
    "dict_get (sto_objects (sv_store P)) ''s2'' = None"
    by (simp add: P_def objects_put session_inv_def, simp add: P_def objects_put S_def)
  show "map_option ss_fix_options (dict_get (sto_objects (sv_store (fst sample_uploaded))) ''s1'') = Some (Some interactive_options)"
    "dict_get (sto_objects (sv_store (fst sample_uploaded))) ''s2'' = None" "sm_session (fst (snd sample_uploaded)) = Some ''s1''"
    using P keeps_failure [of P sample_deps "snd ch" st, unfolded keeps_objects_def, rule_format]
    by (simp add: up, simp add: up option.map_comp) (metis option.map_disc_iff, simp add: up st_def)
qed

lemma sample_history:
  "(server_step sample_deps)\<^sup>*\<^sup>* (new_server () [], \<lambda>_. {}) (fst sample_uploaded, \<lambda>_. {})"
  "(server_step sample_deps)\<^sup>*\<^sup>* (new_server () [], \<lambda>_. {})
     (fst sample_approved, consents (C_approve [''t1-0000'']) (fst (snd sample_uploaded)) (fst sample_uploaded) (\<lambda>_. {}))"
proof -
  let ?cmd = "C_upload sample_chunk" and ?V = "new_server () [] :: unit server"
  have "server_step sample_deps (?V, \<lambda>_. {}) (fst sample_uploaded, consents ?cmd new_stream ?V (\<lambda>_. {}))"
    unfolding sample_uploaded_def
    by (rule command_step [OF sample_schedule_ok]) (simp add: new_server_def empty_store_def)
  then show up: "(server_step sample_deps)\<^sup>*\<^sup>* (?V, \<lambda>_. {}) (fst sample_uploaded, \<lambda>_. {})"
    by (auto simp: consents_def new_stream_def)
  have "server_step sample_deps (fst sample_uploaded, \<lambda>_. {})
      (fst sample_approved, consents (C_approve [''t1-0000'']) (fst (snd sample_uploaded)) (fst sample_uploaded) (\<lambda>_. {}))"
    unfolding sample_approved_def
    by (rule command_step [OF sample_schedule_ok]) (use sample_uploaded_objects(2) in \<open>simp add: sample_schedule_def\<close>)
  with up show "(server_step sample_deps)\<^sup>*\<^sup>* (?V, \<lambda>_. {})
     (fst sample_approved, consents (C_approve [''t1-0000'']) (fst (snd sample_uploaded)) (fst sample_uploaded) (\<lambda>_. {}))"
    by (rule rtranclp.rtrancl_into_rtrancl)
qed

lemma sample_approved_objects:
  "\<exists>s s'. dict_get (sto_objects (sv_store (fst sample_uploaded))) ''s1'' = Some s \<and>
     dict_get (sto_objects (sv_store (fst sample_approved))) ''s1'' = Some s' \<and> ss_fix_options s' = Some interactive_options"
proof -
  obtain s where s: "dict_get (sto_objects (sv_store (fst sample_uploaded))) ''s1'' = Some s" "ss_fix_options s = Some interactive_options"
    using sample_uploaded_objects(1) by auto
  let ?cmd = "C_approve [''t1-0000'']" and ?st = "fst (snd sample_uploaded)"
  define Q where "Q = session_command sample_deps (sample_schedule ''s2'') ?cmd (run_of (fst sample_uploaded) s)"
  define P where "P = put_run ''s1'' (fst Q) (fst sample_uploaded)"
  have i: "session_inv sample_deps (Some interactive_options) {} (rn_session (run_of (fst sample_uploaded) s))"
    using object_invD [OF server_history_inv [OF sample_history(1) sample_fresh] s(1)] s(2)
    by (simp add: object_inv_def run_of_def deferring_def interactive_options_def)
  have "ss_fix_options (rn_session (fst Q)) = Some interactive_options"
    using session_command_inv [OF i sample_fresh _ sample_schedule_ok, of ?cmd "''s2''"]
    by (simp add: Q_def session_inv_def deferring_def interactive_options_def)
  then have "map_option ss_fix_options (dict_get (sto_objects (sv_store P)) ''s1'') = Some (Some interactive_options)"
    by (simp add: P_def objects_put)
  then have "map_option ss_fix_options (dict_get (sto_objects (sv_store (fst (handle_failure sample_deps (snd Q) ?st P)))) ''s1'')
      = Some (Some interactive_options)"
    using keeps_failure [of P sample_deps "snd Q" ?st] by (simp add: keeps_objects_def)
  moreover have "fst sample_approved = fst (handle_failure sample_deps (snd Q) ?st P)"
    using sample_uploaded_objects(3) s(1)
    by (simp add: sample_approved_def fix_session_command_def on_stream_session_def Let_def case_prod_unfold Q_def P_def)
  ultimately show ?thesis using s(1) by auto
qed

theorem session_writes_only_consented_witness:
  "\<exists>s s'. dict_get (sto_objects (sv_store (fst sample_uploaded))) ''s1'' = Some s \<and>
     dict_get (sto_objects (sv_store (fst sample_approved))) ''s1'' = Some s' \<and> defer_tier1 s' \<and>
     (case ss_content_graph s' of None \<Rightarrow> True | Some g \<Rightarrow> approved_nodes g \<subseteq> offered_nodes [''t1-0000''] s)"
proof -
  obtain s s' where s: "dict_get (sto_objects (sv_store (fst sample_uploaded))) ''s1'' = Some s"
    "dict_get (sto_objects (sv_store (fst sample_approved))) ''s1'' = Some s'" "ss_fix_options s' = Some interactive_options"
    using sample_approved_objects by blast
  have d: "defer_tier1 s'" using s(3) by (simp add: defer_tier1_eq deferring_def interactive_options_def)
  have "approved_nodes g \<subseteq> offered_nodes [''t1-0000''] s" if "ss_content_graph s' = Some g" for g
    using session_writes_only_consented [OF sample_history(2) sample_fresh s(2) d] that s(1) sample_uploaded_objects(3)
    by (simp add: consents_def consent_of_def)
  with s d show ?thesis by (auto split: option.splits)
qed

end
