(* ===== verification/Spec2Isabelle.thy ===== *)
theory Spec2Isabelle
  imports Deadline Operation_Events Session_Consent
begin

text \<open>
  A verification of the core of APME, the Ansible policy and modernization engine.
\<close>

end
